theory Spec2Isabelle
  imports Complex_Main "HOL-Library.Multiset"
begin


section \<open>Numbers\<close>

text \<open>
  Coordinates and distances are JavaScript numbers, that is binary64 values, and what the
  code computes with them is rounded and can be \<^verbatim>\<open>NaN\<close>. The model does not fix the
  rounding: the arithmetic of the engine is a value of the record \<open>arithmetic\<close>, and every
  function that computes with distances takes it as its first argument. \<open>roundTo\<close> gives
  the binary64 value of the exact result of \<^verbatim>\<open>+\<close>, \<^verbatim>\<open>-\<close>, \<^verbatim>\<open>*\<close>, \<^verbatim>\<open>/\<close> and
  \<^verbatim>\<open>Math.sqrt\<close>; \<open>mathSin\<close>, \<open>mathCos\<close> and \<open>mathAtan2\<close> are \<^verbatim>\<open>Math.sin\<close>,
  \<^verbatim>\<open>Math.cos\<close> and \<^verbatim>\<open>Math.atan2\<close> on numbers, and \<open>mathPI\<close> is \<^verbatim>\<open>Math.PI\<close>. A
  computed number is a \<open>jsnum\<close>: a real, an infinity or \<^verbatim>\<open>NaN\<close>.

  Integers (battery, container stock, identifiers, millisecond clocks) are exact in
  binary64 and are modelled as integers.
\<close>

datatype jsnum = Num real | PosInf | NegInf | NaN

record arithmetic =
  roundTo :: "real \<Rightarrow> real"
  mathSin :: "real \<Rightarrow> real"
  mathCos :: "real \<Rightarrow> real"
  mathAtan2 :: "real \<Rightarrow> real \<Rightarrow> real"
  mathPI :: real

text \<open>\<^verbatim>\<open>a < b\<close> on numbers: false as soon as one side is \<^verbatim>\<open>NaN\<close>.\<close>

fun lessNum :: "jsnum \<Rightarrow> jsnum \<Rightarrow> bool" where
  "lessNum (Num a) (Num b) = (a < b)"
| "lessNum (Num a) PosInf = True"
| "lessNum (Num a) NegInf = False"
| "lessNum NegInf (Num b) = True"
| "lessNum NegInf PosInf = True"
| "lessNum NegInf NegInf = False"
| "lessNum PosInf b = False"
| "lessNum NaN b = False"
| "lessNum a NaN = False"

text \<open>\<^verbatim>\<open>a + b\<close> and \<^verbatim>\<open>a - b\<close> on numbers.\<close>

fun addNum :: "arithmetic \<Rightarrow> jsnum \<Rightarrow> jsnum \<Rightarrow> jsnum" where
  "addNum fp (Num a) (Num b) = Num (roundTo fp (a + b))"
| "addNum fp NaN b = NaN"
| "addNum fp a NaN = NaN"
| "addNum fp PosInf NegInf = NaN"
| "addNum fp NegInf PosInf = NaN"
| "addNum fp PosInf b = PosInf"
| "addNum fp a PosInf = PosInf"
| "addNum fp NegInf b = NegInf"
| "addNum fp a NegInf = NegInf"

fun negNum :: "jsnum \<Rightarrow> jsnum" where
  "negNum (Num a) = Num (- a)"
| "negNum PosInf = NegInf"
| "negNum NegInf = PosInf"
| "negNum NaN = NaN"

definition subNum :: "arithmetic \<Rightarrow> jsnum \<Rightarrow> jsnum \<Rightarrow> jsnum" where
  "subNum fp a b =
     (case (a, b) of
        (Num x, Num y) \<Rightarrow> Num (roundTo fp (x - y))
      | _ \<Rightarrow> addNum fp a (negNum b))"

section \<open>Geometry (tsp.js)\<close>

record point =
  lat :: real
  lng :: real

definition toRad :: "arithmetic \<Rightarrow> real \<Rightarrow> real" where
  "toRad fp v = roundTo fp (roundTo fp (v * mathPI fp) / 180)"

text \<open>
  \<^verbatim>\<open>geoDistance\<close>, operation by operation. \<^verbatim>\<open>Math.sqrt\<close> of a negative number is
  \<^verbatim>\<open>NaN\<close>, and so is everything computed from it: the distance is \<^verbatim>\<open>NaN\<close> when \<open>h\<close>
  comes out negative or greater than 1.
\<close>

definition geoDistance :: "arithmetic \<Rightarrow> 'a point_scheme \<Rightarrow> 'b point_scheme \<Rightarrow> jsnum" where
  "geoDistance fp a b =
     (let earthRadiusKm = 6371;
          dLat = toRad fp (roundTo fp (lat b - lat a));
          dLng = toRad fp (roundTo fp (lng b - lng a));
          lat1 = toRad fp (lat a);
          lat2 = toRad fp (lat b);
          sinLat = mathSin fp (roundTo fp (dLat / 2));
          sinLng = mathSin fp (roundTo fp (dLng / 2));
          h = roundTo fp
                (roundTo fp (sinLat * sinLat)
                 + roundTo fp (roundTo fp (roundTo fp (mathCos fp lat1 * mathCos fp lat2) * sinLng)
                               * sinLng))
      in if h < 0 \<or> roundTo fp (1 - h) < 0 then NaN
         else let c = roundTo fp (2 * mathAtan2 fp (roundTo fp (sqrt h))
                                                  (roundTo fp (sqrt (roundTo fp (1 - h)))))
              in Num (roundTo fp (earthRadiusKm * c)))"

text \<open>
  The arithmetic of the real numbers: nothing is rounded. \<^verbatim>\<open>Math.atan2(y, x)\<close> on reals
  is \<open>atan2\<close>.
\<close>

definition atan2 :: "real \<Rightarrow> real \<Rightarrow> real" where
  "atan2 y x =
     (if 0 < x then arctan (y / x)
      else if x < 0 then (if 0 \<le> y then arctan (y / x) + pi else arctan (y / x) - pi)
      else if 0 < y then pi / 2
      else if y < 0 then - (pi / 2)
      else 0)"

definition exactArithmetic :: arithmetic where
  "exactArithmetic =
     \<lparr>roundTo = (\<lambda>x. x), mathSin = sin, mathCos = cos, mathAtan2 = atan2, mathPI = pi\<rparr>"

section \<open>Route optimizer (tsp.js)\<close>

text \<open>\<^verbatim>\<open>[...items.slice(0, index), ...items.slice(index + 1)]\<close>\<close>

definition removeAt :: "nat \<Rightarrow> 'a list \<Rightarrow> 'a list" where
  "removeAt index items = take index items @ drop (Suc index) items"

lemma length_removeAt [simp]:
  "index < length items \<Longrightarrow> length (removeAt index items) = length items - 1"
  by (simp add: removeAt_def)

text \<open>The generator \<^verbatim>\<open>permutations\<close>, as the list of the routes it yields, in order.\<close>

function permutations :: "'a list \<Rightarrow> 'a list list" where
  "permutations items =
     (if length items \<le> 1 then [items]
      else concat (map (\<lambda>index.
             map (\<lambda>tail. (items ! index) # tail) (permutations (removeAt index items)))
           [0..<length items]))"
  by pat_completeness auto
termination
  by (relation "measure length") auto

declare permutations.simps [simp del]

text \<open>
  The loop \<^verbatim>\<open>distance += geoDistance(route[index], route[index + 1])\<close> over the stops of
  a route, from the distance accumulated so far. \<^verbatim>\<open>routeDistance\<close> runs it from the
  distance between the start and the first stop, and so does \<^verbatim>\<open>bruteForceBestRoute\<close> for
  each (non-empty) permutation.
\<close>

fun addLegs :: "arithmetic \<Rightarrow> jsnum \<Rightarrow> 'a point_scheme list \<Rightarrow> jsnum" where
  "addLegs fp distance (p # q # rest) = addLegs fp (addNum fp distance (geoDistance fp p q)) (q # rest)"
| "addLegs fp distance [p] = distance"
| "addLegs fp distance [] = distance"

definition routeDistance :: "arithmetic \<Rightarrow> 'a point_scheme list \<Rightarrow> 'b point_scheme \<Rightarrow> jsnum" where
  "routeDistance fp route startPosition =
     (case route of
        [] \<Rightarrow> Num 0
      | first # _ \<Rightarrow> addLegs fp (geoDistance fp startPosition first) route)"

definition bruteStep ::
  "arithmetic \<Rightarrow> 'b point_scheme \<Rightarrow> 'a point_scheme list \<Rightarrow>
   ('a point_scheme list) option \<times> jsnum \<Rightarrow> ('a point_scheme list) option \<times> jsnum" where
  "bruteStep fp startPosition route best =
     (let distance = routeDistance fp route startPosition
      in if lessNum distance (snd best) then (Some route, distance) else best)"

definition bruteForceBestRoute ::
  "arithmetic \<Rightarrow> 'a point_scheme list \<Rightarrow> 'b point_scheme \<Rightarrow> 'a point_scheme list" where
  "bruteForceBestRoute fp lamps startPosition =
     (if length lamps \<le> 1 then lamps
      else case fst (fold (bruteStep fp startPosition) (permutations lamps) (None, PosInf)) of
             None \<Rightarrow> lamps
           | Some bestRoute \<Rightarrow> bestRoute)"

text \<open>
  The inner loop of the greedy branch: the first index of \<open>remaining\<close> at the strictly
  smallest distance from \<open>current\<close> (index 0 when nothing beats the infinity).
\<close>

definition nearestIndex :: "arithmetic \<Rightarrow> 'b point_scheme \<Rightarrow> 'a point_scheme list \<Rightarrow> nat" where
  "nearestIndex fp current remaining =
     fst (fold (\<lambda>index (bestIndex, bestDistance).
                  let distance = geoDistance fp current (remaining ! index)
                  in if lessNum distance bestDistance then (index, distance)
                     else (bestIndex, bestDistance))
            [0..<length remaining] (0, PosInf))"

lemma fold_index_bound:
  "fst acc < n \<Longrightarrow> set is \<subseteq> {..<n} \<Longrightarrow>
   fst (fold (\<lambda>index (bestIndex, bestDistance).
               if c index bestDistance then (index, d index) else (bestIndex, bestDistance))
          is acc) < n"
  by (induction "is" arbitrary: acc) (auto split: prod.splits)

lemma nearestIndex_less:
  "remaining \<noteq> [] \<Longrightarrow> nearestIndex fp current remaining < length remaining"
  unfolding nearestIndex_def Let_def
  by (rule fold_index_bound) auto

function greedyRoute ::
  "arithmetic \<Rightarrow> 'a point_scheme list \<Rightarrow> 'a point_scheme list \<Rightarrow> point \<Rightarrow> 'a point_scheme list" where
  "greedyRoute fp remaining route current =
     (if remaining = [] then route
      else let bestIndex = nearestIndex fp current remaining;
               nextLamp = remaining ! bestIndex
           in greedyRoute fp (removeAt bestIndex remaining) (route @ [nextLamp])
                \<lparr>lat = lat nextLamp, lng = lng nextLamp\<rparr>)"
  by pat_completeness auto
termination
  by (relation "measure (\<lambda>(fp, remaining, route, current). length remaining)")
     (auto simp: nearestIndex_less Let_def)

declare greedyRoute.simps [simp del]

definition MAX_EXACT_POINTS :: nat where
  "MAX_EXACT_POINTS = 8"

definition nearestNeighborRoute ::
  "arithmetic \<Rightarrow> 'a point_scheme list \<Rightarrow> 'b point_scheme \<Rightarrow> 'a point_scheme list" where
  "nearestNeighborRoute fp lamps startPosition =
     (if length lamps = 0 then []
      else if length lamps \<le> MAX_EXACT_POINTS then bruteForceBestRoute fp lamps startPosition
      else greedyRoute fp lamps [] \<lparr>lat = lat startPosition, lng = lng startPosition\<rparr>)"

section \<open>Fleet state store (store.js)\<close>

text \<open>
  The entities of \<^verbatim>\<open>state\<close>. A lamp and a dock are points with further fields, as the
  objects of the source are (\<^verbatim>\<open>geoDistance(drone.position, lamp)\<close> reads \<^verbatim>\<open>lamp.lat\<close>).
  Fields that the dispatch engine neither reads nor writes (names, roof height, ambient
  temperature, launch dock) are left out. ISO time stamps are the millisecond clock
  they are printed from. A mission id \<^verbatim>\<open>M-<ms>\<close> is the number after the \<^verbatim>\<open>M-\<close>.
\<close>

datatype lamp_status = Ok | Replace | InProgress

record lamp = point +
  lampId :: int
  lampStatus :: lamp_status
  powerOn :: bool
  cassettePresent :: bool
  energyW :: int

datatype swap_status = NotReplaced | SwapInProgress | Replaced

record dock = point +
  dockId :: string
  fullContainers :: int
  emptyContainers :: int
  containerSwapStatus :: swap_status
  containerSwapUpdatedAt :: "int option"
  lastSwapCompletedAt :: "int option"

datatype drone_status = Idle | Charging | Enroute | Replacing | Servicing

record drone =
  droneId :: string
  battery :: int
  isOperational :: bool
  droneStatus :: drone_status
  targetLampId :: "int option"
  pendingContainerOps :: int
  containerLampsRemaining :: int
  serviceEndsAt :: "int option"
  homeDockId :: "string option"
  activeDockId :: "string option"
  position :: point

datatype mission_status = Planned | Running | Completed

datatype mission_source = Manual | AutoService

text \<open>
  A JavaScript object with string keys, in insertion order: \<open>objSet\<close> is the assignment
  \<^verbatim>\<open>obj[key] = value\<close>, \<open>objGet\<close> the read (\<open>None\<close> for \<^verbatim>\<open>undefined\<close>). The same
  two functions model a \<^verbatim>\<open>Map\<close>.
\<close>

type_synonym 'v obj = "(string \<times> 'v) list"

definition objGet :: "string \<Rightarrow> 'v obj \<Rightarrow> 'v option" where
  "objGet key obj = map_of obj key"

definition objSet :: "string \<Rightarrow> 'v \<Rightarrow> 'v obj \<Rightarrow> 'v obj" where
  "objSet key v obj =
     (if key \<in> fst ` set obj
      then map (\<lambda>(k, old). if k = key then (k, v) else (k, old)) obj
      else obj @ [(key, v)])"

record mission =
  missionId :: int
  createdAt :: int
  startedAt :: "int option"
  finishedAt :: "int option"
  missionStatus :: mission_status
  source :: mission_source
  droneRoutes :: "int list obj"
  routeLampIds :: "int list"
  completedLampIds :: "int list"

text \<open>
  A log entry: its \<^verbatim>\<open>type\<close> and which \<^verbatim>\<open>addLog\<close> call wrote it, with the
  identifiers of its payload. The random entry id is left out.
\<close>

datatype log_message =
    LampMarked int
  | MissionCreated int
  | DroneAdded string
  | MissionStarted int
  | AutoServiceStarted int
  | AutoServiceFailed int int
  | PlanNoLamps
  | PlanNoDrones
  | AutoServiceToggled bool
  | ContainersForced
  | StartFailed int
  | ReturnForCharge string int
  | LampSkipped string int
  | ReplacementDone string int
  | ContainerEmpty string
  | ReplacementBegun string int
  | DockServiceBegun string
  | MissionFinished int
  | DockServiceDone string
  | FullyCharged string

record logEntry =
  logType :: string
  message :: log_message
  timestamp :: int

text \<open>
  The closure of one \<^verbatim>\<open>runMission\<close> call: its workers and the interval that ticks
  them. A worker refers to its drone by the drone's index in \<^verbatim>\<open>state.drones\<close> (drones are
  appended, never removed), a run to its mission by the number of missions that
  existed when the mission was created (missions are prepended, never removed).
\<close>

record worker =
  workerDrone :: nat
  queue :: "int list"
  workerTarget :: "int option"
  replaceStartedAt :: int
  replacedCount :: int
  returning :: bool
  completed :: bool

record run =
  runMissionRef :: nat
  workers :: "worker list"
  intervalActive :: bool

text \<open>
  \<^verbatim>\<open>state\<close> of the store, together with the module variables of the server:
  \<^verbatim>\<open>lastAutoDispatchAt\<close>, \<^verbatim>\<open>lastDockRefillAt\<close>, \<^verbatim>\<open>autoServiceProgress\<close>, the intervals
  started by \<^verbatim>\<open>runMission\<close> (in creation order) and \<^verbatim>\<open>activeMissionTimers\<close>, which maps
  a mission id to the interval registered under it. \<open>engine\<close> is the arithmetic of the
  JavaScript engine that the process runs on; no function changes it.
\<close>

record state =
  autoServiceEnabled :: bool
  docks :: "dock list"
  drones :: "drone list"
  lamps :: "lamp list"
  missions :: "mission list"
  logs :: "logEntry list"
  lastAutoDispatchAt :: int
  lastDockRefillAt :: int
  autoServiceProgress :: "nat obj"
  runs :: "run list"
  activeMissionTimers :: "(int \<times> nat) list"
  engine :: arithmetic

definition addLog :: "string \<Rightarrow> log_message \<Rightarrow> int \<Rightarrow> state \<Rightarrow> state" where
  "addLog type msg now s =
     s\<lparr>logs := logs s @ [\<lparr>logType = type, message = msg, timestamp = now\<rparr>]\<rparr>"

text \<open>\<^verbatim>\<open>state.lamps.find((item) => item.id === lampId)\<close>, as the index of the lamp found.\<close>

fun findIndex :: "('a \<Rightarrow> bool) \<Rightarrow> 'a list \<Rightarrow> nat option" where
  "findIndex P [] = None"
| "findIndex P (x # xs) =
     (if P x then Some 0 else map_option Suc (findIndex P xs))"

definition findLamp :: "int \<Rightarrow> state \<Rightarrow> lamp option" where
  "findLamp lampIdArg s = find (\<lambda>item. lampId item = lampIdArg) (lamps s)"

definition markLampForReplacement :: "int \<Rightarrow> int \<Rightarrow> state \<Rightarrow> lamp option \<times> state" where
  "markLampForReplacement lampIdArg now s =
     (case findIndex (\<lambda>item. lampId item = lampIdArg) (lamps s) of
        None \<Rightarrow> (None, s)
      | Some i \<Rightarrow>
          let lamp' = (lamps s ! i)\<lparr>lampStatus := Replace, powerOn := False, energyW := 0\<rparr>
          in (Some lamp',
              addLog ''alarm'' (LampMarked lampIdArg) now (s\<lparr>lamps := (lamps s)[i := lamp']\<rparr>)))"

definition createMission ::
  "int list \<Rightarrow> int list obj \<Rightarrow> mission_source \<Rightarrow> int \<Rightarrow> state \<Rightarrow> state" where
  "createMission routeLampIdsArg droneRoutesArg sourceArg now s =
     (let newMission = \<lparr>missionId = now, createdAt = now, startedAt = None, finishedAt = None,
                       missionStatus = Planned, source = sourceArg,
                       droneRoutes = droneRoutesArg, routeLampIds = routeLampIdsArg,
                       completedLampIds = []\<rparr>
      in addLog ''mission'' (MissionCreated now) now (s\<lparr>missions := newMission # missions s\<rparr>))"

definition findMission :: "int \<Rightarrow> state \<Rightarrow> nat option" where
  "findMission missionIdArg s = findIndex (\<lambda>m. missionId m = missionIdArg) (missions s)"



section \<open>Joint optimizer (tsp.js)\<close>

text \<open>
  \<^verbatim>\<open>bestInsertionDelta\<close>: the pair \<^verbatim>\<open>{ index, delta }\<close>. \<^verbatim>\<open>prev\<close> is the start position
  or a stop of the route, so the two distances from it are written with the choice inside.
\<close>

definition bestInsertionDelta ::
  "arithmetic \<Rightarrow> 'a point_scheme list \<Rightarrow> 'a point_scheme \<Rightarrow> point \<Rightarrow> nat \<times> jsnum" where
  "bestInsertionDelta fp route lamp startPosition =
     (if length route = 0 then (0, geoDistance fp startPosition lamp)
      else fold (\<lambda>insertIndex (bestIndex, bestDelta).
             let fromPrev = (\<lambda>x. if insertIndex = 0 then geoDistance fp startPosition x
                                  else geoDistance fp (route ! (insertIndex - 1)) x);
                 hasNext = (insertIndex \<noteq> length route);
                 removed = (if hasNext then fromPrev (route ! insertIndex) else Num 0);
                 added = addNum fp (fromPrev lamp)
                           (if hasNext then geoDistance fp lamp (route ! insertIndex) else Num 0);
                 delta = subNum fp added removed
             in if lessNum delta bestDelta then (insertIndex, delta)
                else (bestIndex, bestDelta))
           [0..<Suc (length route)] (0, PosInf))"

text \<open>
  \<^verbatim>\<open>[...bestRoute.slice(0, i), ...bestRoute.slice(i, j + 1).reverse(),
  ...bestRoute.slice(j + 1)]\<close>
\<close>

definition reverseSegment :: "nat \<Rightarrow> nat \<Rightarrow> 'a list \<Rightarrow> 'a list" where
  "reverseSegment i j route =
     take i route @ rev (take (Suc j - i) (drop i route)) @ drop (Suc j) route"

text \<open>
  One run of the two nested \<^verbatim>\<open>for\<close> loops of \<^verbatim>\<open>twoOptRoute\<close>, from
  \<^verbatim>\<open>improved = false\<close>: the best route and distance after it, and \<^verbatim>\<open>improved\<close>.
  (Every candidate has the length of the route, so the loop bounds are constant.)
\<close>

definition twoOptPass ::
  "arithmetic \<Rightarrow> 'a point_scheme list \<Rightarrow> jsnum \<Rightarrow> point \<Rightarrow> 'a point_scheme list \<times> jsnum \<times> bool" where
  "twoOptPass fp route distance0 startPosition =
     fold (\<lambda>i acc.
        fold (\<lambda>j (bestRoute, bestDistance, improved).
           let candidate = reverseSegment i j bestRoute;
               candidateDistance = routeDistance fp candidate startPosition
           in if lessNum candidateDistance bestDistance then (candidate, candidateDistance, True)
              else (bestRoute, bestDistance, improved))
         [i + 1..<length route - 1] acc)
      [0..<length route - 2] (route, distance0, False)"

lemma fold_invariant:
  "P acc \<Longrightarrow> (\<And>x a. x \<in> set xs \<Longrightarrow> P a \<Longrightarrow> P (f x a)) \<Longrightarrow> P (fold f xs acc)"
  by (induction xs arbitrary: acc) auto

lemma mset_reverseSegment: "i \<le> Suc j \<Longrightarrow> mset (reverseSegment i j r) = mset r"
proof -
  assume le: "i \<le> Suc j"
  then have "drop (Suc j) r = drop (Suc j - i) (drop i r)" by simp
  then have "mset (take (Suc j - i) (drop i r)) + mset (drop (Suc j) r) = mset (drop i r)"
    by (metis append_take_drop_id mset_append)
  moreover have "mset (take i r) + mset (drop i r) = mset r"
    by (metis append_take_drop_id mset_append)
  ultimately show ?thesis
    by (simp add: reverseSegment_def add.assoc)
qed

text \<open>The comparison \<^verbatim>\<open><\<close> is a strict order on the numbers.\<close>

lemma lessNum_irrefl [simp]: "\<not> lessNum a a"
  by (cases a) simp_all

lemma lessNum_trans: "lessNum a b \<Longrightarrow> lessNum b c \<Longrightarrow> lessNum a c"
  by (cases a; cases b; cases c) simp_all

text \<open>
  What a pass guarantees: its route is a permutation of the one it was given, and either
  nothing changed or the recorded distance is the route's own and strictly smaller.
\<close>

definition passInv ::
  "arithmetic \<Rightarrow> 'a point_scheme list \<Rightarrow> jsnum \<Rightarrow> point \<Rightarrow> 'a point_scheme list \<times> jsnum \<times> bool \<Rightarrow> bool" where
  "passInv fp r0 d0 s acc = (case acc of (r, d, improved) \<Rightarrow>
      mset r = mset r0 \<and>
      (if improved then d = routeDistance fp r s \<and> lessNum d d0 else r = r0 \<and> d = d0))"

lemma twoOptPass_inv: "passInv fp route d0 s (twoOptPass fp route d0 s)"
  unfolding twoOptPass_def
proof (rule fold_invariant[where P = "passInv fp route d0 s"])
  show "passInv fp route d0 s (route, d0, False)" by (simp add: passInv_def)
next
  fix i acc
  assume "i \<in> set [0..<length route - 2]" and acc: "passInv fp route d0 s acc"
  show "passInv fp route d0 s
          (fold (\<lambda>j (bestRoute, bestDistance, improved).
             let candidate = reverseSegment i j bestRoute;
                 candidateDistance = routeDistance fp candidate s
             in if lessNum candidateDistance bestDistance then (candidate, candidateDistance, True)
                else (bestRoute, bestDistance, improved))
           [i + 1..<length route - 1] acc)"
  proof (rule fold_invariant[where P = "passInv fp route d0 s", OF acc])
    fix j a
    assume j: "j \<in> set [i + 1..<length route - 1]" and a: "passInv fp route d0 s a"
    obtain r d imp where [simp]: "a = (r, d, imp)" by (cases a)
    from j have "i \<le> Suc j" by simp
    from mset_reverseSegment[OF this, of r] a
    show "passInv fp route d0 s
            (case a of (bestRoute, bestDistance, improved) \<Rightarrow>
               let candidate = reverseSegment i j bestRoute;
                   candidateDistance = routeDistance fp candidate s
               in if lessNum candidateDistance bestDistance then (candidate, candidateDistance, True)
                  else (bestRoute, bestDistance, improved))"
      by (auto simp: passInv_def Let_def split: if_splits intro: lessNum_trans)
  qed
qed

lemma finite_perms: "finite {p. mset p = mset (r :: 'a list)}"
  using mset_eq_finite by blast

lemma twoOptPass_decreases:
  assumes "twoOptPass fp r d s = (r', d', True)"
  shows "card {p. mset p = mset r' \<and> lessNum (routeDistance fp p s) d'}
           < card {p. mset p = mset r \<and> lessNum (routeDistance fp p s) d}"
proof -
  from assms twoOptPass_inv[of fp r d s]
  have m: "mset r' = mset r" and d: "d' = routeDistance fp r' s" and lt: "lessNum d' d"
    by (auto simp: passInv_def)
  let ?A = "{p. mset p = mset r' \<and> lessNum (routeDistance fp p s) d'}"
  let ?B = "{p. mset p = mset r \<and> lessNum (routeDistance fp p s) d}"
  have "?A \<subseteq> ?B" using m lt lessNum_trans by auto
  moreover have "r' \<in> ?B" using m d lt by simp
  moreover have "r' \<notin> ?A" using d by simp
  ultimately have "?A \<subset> ?B" by blast
  moreover have "finite ?B" using finite_perms[of r] by simp
  ultimately show ?thesis by (rule psubset_card_mono[rotated])
qed

function twoOptLoop ::
  "arithmetic \<Rightarrow> 'a point_scheme list \<Rightarrow> jsnum \<Rightarrow> point \<Rightarrow> 'a point_scheme list" where
  "twoOptLoop fp bestRoute bestDistance startPosition =
     (case twoOptPass fp bestRoute bestDistance startPosition of
        (bestRoute', bestDistance', improved) \<Rightarrow>
          if improved then twoOptLoop fp bestRoute' bestDistance' startPosition else bestRoute')"
  by pat_completeness auto
termination
proof (relation "measure (\<lambda>(fp, r, d, s). card {p. mset p = mset r \<and> lessNum (routeDistance fp p s) d})",
    goal_cases)
  case 1
  show ?case by simp
next
  case (2 fp bestRoute bestDistance startPosition x y xa ya)
  then have "twoOptPass fp bestRoute bestDistance startPosition = (x, xa, True)" by simp
  from twoOptPass_decreases[OF this] show ?case by simp
qed


declare twoOptLoop.simps [simp del]

definition twoOptRoute :: "arithmetic \<Rightarrow> 'a point_scheme list \<Rightarrow> point \<Rightarrow> 'a point_scheme list" where
  "twoOptRoute fp route startPosition =
     (if length route < 4 then route
      else twoOptLoop fp route (routeDistance fp route startPosition) startPosition)"

text \<open>\<^verbatim>\<open>routesByDrone.get(id)\<close>; every id it is asked for was entered when the map was built.\<close>

definition routeOf :: "string \<Rightarrow> 'a list obj \<Rightarrow> 'a list" where
  "routeOf key routesByDrone = (case objGet key routesByDrone of Some r \<Rightarrow> r | None \<Rightarrow> [])"

text \<open>The two nested loops of the seeding phase: the indices of the closest (drone, lamp) pair.\<close>

definition seedBest :: "arithmetic \<Rightarrow> drone list \<Rightarrow> 'a point_scheme list \<Rightarrow> nat \<times> nat" where
  "seedBest fp seedDrones unassigned =
     (case fold (\<lambda>droneIndex acc.
             fold (\<lambda>lampIndex (bestDroneIndex, bestLampIndex, bestDistance).
                let distance = geoDistance fp (position (seedDrones ! droneIndex)) (unassigned ! lampIndex)
                in if lessNum distance bestDistance then (droneIndex, lampIndex, distance)
                   else (bestDroneIndex, bestLampIndex, bestDistance))
              [0..<length unassigned] acc)
           [0..<length seedDrones] (0, 0, PosInf)
      of (bestDroneIndex, bestLampIndex, _) \<Rightarrow> (bestDroneIndex, bestLampIndex))"

text \<open>The loops of the insertion phase: lamp index, drone id and insert index of the cheapest insertion.\<close>

definition insertBest ::
  "arithmetic \<Rightarrow> drone list \<Rightarrow> 'a point_scheme list \<Rightarrow> 'a point_scheme list obj \<Rightarrow> nat \<times> string \<times> nat" where
  "insertBest fp activeDrones unassigned routesByDrone =
     (case fold (\<lambda>lampIndex acc.
             fold (\<lambda>d (bestLampIndex, bestDroneId, bestInsertIndex, bestDelta).
                let route = routeOf (droneId d) routesByDrone;
                    insertion = bestInsertionDelta fp route (unassigned ! lampIndex) (position d)
                in if lessNum (snd insertion) bestDelta
                   then (lampIndex, droneId d, fst insertion, snd insertion)
                   else (bestLampIndex, bestDroneId, bestInsertIndex, bestDelta))
              activeDrones acc)
           [0..<length unassigned] (0, droneId (activeDrones ! 0), 0, PosInf)
      of (bestLampIndex, bestDroneId, bestInsertIndex, _) \<Rightarrow>
           (bestLampIndex, bestDroneId, bestInsertIndex))"

lemma seedBest_less:
  assumes "unassigned \<noteq> []"
  shows "snd (seedBest fp seedDrones unassigned) < length unassigned"
proof -
  let ?P = "\<lambda>acc :: nat \<times> nat \<times> jsnum. fst (snd acc) < length unassigned"
  have "?P (fold (\<lambda>droneIndex acc.
             fold (\<lambda>lampIndex (bestDroneIndex, bestLampIndex, bestDistance).
                let distance = geoDistance fp (position (seedDrones ! droneIndex)) (unassigned ! lampIndex)
                in if lessNum distance bestDistance then (droneIndex, lampIndex, distance)
                   else (bestDroneIndex, bestLampIndex, bestDistance))
              [0..<length unassigned] acc)
           [0..<length seedDrones] (0, 0, PosInf))"
  proof (rule fold_invariant[where P = ?P], goal_cases)
    case 1
    from assms show ?case by simp
  next
    case (2 x a)
    show ?case
      by (rule fold_invariant[where P = ?P, OF 2(2)]) (auto simp: Let_def split: prod.splits)
  qed
  then show ?thesis by (auto simp: seedBest_def split: prod.splits)
qed

lemma insertBest_less:
  assumes "unassigned \<noteq> []"
  shows "fst (insertBest fp activeDrones unassigned routesByDrone) < length unassigned"
proof -
  let ?P = "\<lambda>acc :: nat \<times> string \<times> nat \<times> jsnum. fst acc < length unassigned"
  have "?P (fold (\<lambda>lampIndex acc.
             fold (\<lambda>d (bestLampIndex, bestDroneId, bestInsertIndex, bestDelta).
                let route = routeOf (droneId d) routesByDrone;
                    insertion = bestInsertionDelta fp route (unassigned ! lampIndex) (position d)
                in if lessNum (snd insertion) bestDelta
                   then (lampIndex, droneId d, fst insertion, snd insertion)
                   else (bestLampIndex, bestDroneId, bestInsertIndex, bestDelta))
              activeDrones acc)
           [0..<length unassigned] (0, droneId (activeDrones ! 0), 0, PosInf))"
  proof (rule fold_invariant[where P = ?P], goal_cases)
    case 1
    from assms show ?case by simp
  next
    case (2 x a)
    show ?case
      by (rule fold_invariant[where P = ?P, OF 2(2)]) (use 2(1) in \<open>auto simp: Let_def split: prod.splits\<close>)
  qed
  then show ?thesis by (auto simp: insertBest_def split: prod.splits)
qed

function seedLoop ::
  "arithmetic \<Rightarrow> drone list \<Rightarrow> 'a point_scheme list \<Rightarrow> 'a point_scheme list obj
   \<Rightarrow> 'a point_scheme list \<times> 'a point_scheme list obj" where
  "seedLoop fp seedDrones unassigned routesByDrone =
     (if seedDrones \<noteq> [] \<and> unassigned \<noteq> []
      then let best = seedBest fp seedDrones unassigned;
               chosenDrone = seedDrones ! fst best;
               seedLamp = unassigned ! snd best
           in seedLoop fp (removeAt (fst best) seedDrones) (removeAt (snd best) unassigned)
                (objSet (droneId chosenDrone)
                   (routeOf (droneId chosenDrone) routesByDrone @ [seedLamp]) routesByDrone)
      else (unassigned, routesByDrone))"
  by pat_completeness auto
termination
  by (relation "measure (\<lambda>(fp, seedDrones, unassigned, routesByDrone). length unassigned)")
     (auto simp: seedBest_less Let_def)

function insertLoop ::
  "arithmetic \<Rightarrow> drone list \<Rightarrow> 'a point_scheme list \<Rightarrow> 'a point_scheme list obj \<Rightarrow> 'a point_scheme list obj" where
  "insertLoop fp activeDrones unassigned routesByDrone =
     (if unassigned \<noteq> []
      then let best = insertBest fp activeDrones unassigned routesByDrone;
               bestLampIndex = fst best;
               bestDroneId = fst (snd best);
               bestInsertIndex = snd (snd best);
               lampToAssign = unassigned ! bestLampIndex;
               targetRoute = routeOf bestDroneId routesByDrone
           in insertLoop fp activeDrones (removeAt bestLampIndex unassigned)
                (objSet bestDroneId
                   (take bestInsertIndex targetRoute @ [lampToAssign] @ drop bestInsertIndex targetRoute)
                   routesByDrone)
      else routesByDrone)"
  by pat_completeness auto
termination
  by (relation "measure (\<lambda>(fp, activeDrones, unassigned, routesByDrone). length unassigned)")
     (auto simp: insertBest_less Let_def)


declare seedLoop.simps [simp del] insertLoop.simps [simp del]

text \<open>
  \<^verbatim>\<open>optimizeMultiDroneRoutes\<close>. \<open>optimizedRoutes\<close> is the object \<^verbatim>\<open>droneRoutes\<close> before
  each route is mapped to its lamp ids: seeding, cheapest insertion, then 2-opt on every
  active drone's route.
\<close>

definition optimizedRoutes ::
  "arithmetic \<Rightarrow> 'a point_scheme list \<Rightarrow> drone list \<Rightarrow> 'a point_scheme list obj" where
  "optimizedRoutes fp lampsArg dronesArg =
     (let validLamps = lampsArg;
          activeDrones = filter isOperational dronesArg
      in if length validLamps = 0 \<or> length activeDrones = 0 then []
         else let routes0 = fold (\<lambda>d. objSet (droneId d) []) activeDrones [];
                  seeded = seedLoop fp activeDrones validLamps routes0;
                  routesByDrone = insertLoop fp activeDrones (fst seeded) (snd seeded)
              in fold (\<lambda>d. objSet (droneId d)
                               (twoOptRoute fp (routeOf (droneId d) routesByDrone) (position d)))
                   activeDrones [])"

record routePlan =
  planRouteLampIds :: "int list"
  planDroneRoutes :: "int list obj"

definition optimizeMultiDroneRoutes :: "arithmetic \<Rightarrow> lamp list \<Rightarrow> drone list \<Rightarrow> routePlan" where
  "optimizeMultiDroneRoutes fp lampsArg dronesArg =
     (let droneRoutesNew = map (\<lambda>(key, route). (key, map lampId route))
                             (optimizedRoutes fp lampsArg dronesArg)
      in \<lparr>planRouteLampIds = concat (map snd droneRoutesNew),
          planDroneRoutes = droneRoutesNew\<rparr>)"



section \<open>Dispatch controller (server)\<close>

definition CHARGE_RATE_PER_TICK :: int where "CHARGE_RATE_PER_TICK = 2"
definition DRONE_STEP_DEG :: real where "DRONE_STEP_DEG = 75 / 100000"
definition REPLACEMENT_DURATION_MS :: int where "REPLACEMENT_DURATION_MS = 1800"
definition DOCK_SERVICE_MS :: int where "DOCK_SERVICE_MS = 30000"
definition AUTO_DISPATCH_COOLDOWN_MS :: int where "AUTO_DISPATCH_COOLDOWN_MS = 4000"
definition MIN_BATTERY_FOR_FLIGHT :: int where "MIN_BATTERY_FOR_FLIGHT = 60"
definition RETURN_TO_DOCK_BATTERY_THRESHOLD :: int where "RETURN_TO_DOCK_BATTERY_THRESHOLD = 25"
definition LAMPS_PER_CONTAINER :: int where "LAMPS_PER_CONTAINER = 5"
definition DOCK_REFILL_INTERVAL_MS :: int where "DOCK_REFILL_INTERVAL_MS = 10000"
definition DOCK_REFILL_UNITS :: int where "DOCK_REFILL_UNITS = 1"
definition DOCK_REFILL_PAUSE_AFTER_SWAP_MS :: int where "DOCK_REFILL_PAUSE_AFTER_SWAP_MS = 60000"

definition AUTO_SERVICE_PLAN :: "int list obj" where
  "AUTO_SERVICE_PLAN =
     [(''drone-01'', [142, 112, 129, 132, 119, 141, 125, 115, 108, 117, 106, 134, 116, 104, 133]),
      (''drone-02'', [128, 130, 145, 124, 136]),
      (''drone-03'', [114, 100, 101, 107, 143, 139]),
      (''drone-04'', [110, 122, 118, 137, 148, 123, 126, 149, 102, 127, 138]),
      (''drone-05'', [109, 144, 120, 147, 146, 113, 121, 105, 140, 103, 131, 111, 135])]"

text \<open>Truthiness of an optional string (\<open>None\<close> is \<^verbatim>\<open>null\<close>) and of an optional number.\<close>

definition truthyStr :: "string option \<Rightarrow> bool" where
  "truthyStr x = (case x of None \<Rightarrow> False | Some str \<Rightarrow> str \<noteq> [])"

definition truthyNum :: "int option \<Rightarrow> bool" where
  "truthyNum x = (case x of None \<Rightarrow> False | Some n \<Rightarrow> n \<noteq> 0)"

definition boundDockId :: "drone \<Rightarrow> string option" where
  "boundDockId d = (case homeDockId d of Some h \<Rightarrow> Some h | None \<Rightarrow> activeDockId d)"

definition getActiveDockIndex :: "drone \<Rightarrow> state \<Rightarrow> nat option" where
  "getActiveDockIndex d s = findIndex (\<lambda>dk. Some (dockId dk) = boundDockId d) (docks s)"

definition getActiveDock :: "drone \<Rightarrow> state \<Rightarrow> dock option" where
  "getActiveDock d s = map_option (\<lambda>i. docks s ! i) (getActiveDockIndex d s)"

definition enforceDroneDockBinding :: "drone \<Rightarrow> drone" where
  "enforceDroneDockBinding d =
     (let d1 = (if \<not> truthyStr (homeDockId d) \<and> truthyStr (activeDockId d)
                then d\<lparr>homeDockId := activeDockId d\<rparr> else d)
      in if truthyStr (homeDockId d1) \<and> activeDockId d1 \<noteq> homeDockId d1
         then d1\<lparr>activeDockId := homeDockId d1\<rparr> else d1)"

definition moveDroneToDockIfAvailable :: "drone \<Rightarrow> state \<Rightarrow> drone" where
  "moveDroneToDockIfAvailable d s =
     (case getActiveDock d s of
        Some dk \<Rightarrow> d\<lparr>position := \<lparr>lat = lat dk, lng = lng dk\<rparr>\<rparr>
      | None \<Rightarrow> d)"

text \<open>\<^verbatim>\<open>moveDroneTowards\<close>: whether the drone arrived, and the drone moved.\<close>

definition moveDroneTowards :: "drone \<Rightarrow> point \<Rightarrow> bool \<times> drone" where
  "moveDroneTowards d target =
     (let current = position d;
          deltaLat = lat target - lat current;
          deltaLng = lng target - lng current;
          distance = sqrt (deltaLat * deltaLat + deltaLng * deltaLng)
      in if distance \<le> DRONE_STEP_DEG
         then (True, d\<lparr>position := \<lparr>lat = lat target, lng = lng target\<rparr>\<rparr>)
         else let ratio = DRONE_STEP_DEG / distance
              in (False, d\<lparr>position := \<lparr>lat = lat current + deltaLat * ratio,
                                         lng = lng current + deltaLng * ratio\<rparr>\<rparr>))"

definition isReadyForMission :: "drone \<Rightarrow> bool" where
  "isReadyForMission d =
     (isOperational d
      \<and> battery d \<ge> MIN_BATTERY_FOR_FLIGHT
      \<and> (droneStatus d = Idle \<or> droneStatus d = Charging)
      \<and> \<not> truthyNum (serviceEndsAt d))"

text \<open>\<^verbatim>\<open>getReadyDronesForMission\<close>, as the indices of the ready drones in \<^verbatim>\<open>state.drones\<close>.\<close>

definition getReadyDronesForMission :: "state \<Rightarrow> nat list" where
  "getReadyDronesForMission s =
     filter (\<lambda>k. isReadyForMission (drones s ! k)) [0..<length (drones s)]"

definition getDroneLampCapacity :: "drone \<Rightarrow> int" where
  "getDroneLampCapacity d =
     (let availableLamps = containerLampsRemaining d
      in max 0 (min LAMPS_PER_CONTAINER availableLamps))"

definition getOccupiedLampIds :: "int option \<Rightarrow> state \<Rightarrow> int set" where
  "getOccupiedLampIds excludeMissionId s =
     set (concat (map (\<lambda>m.
            if Some (missionId m) = excludeMissionId \<or> missionStatus m \<noteq> Running then []
            else filter (\<lambda>l. l \<notin> set (completedLampIds m)) (routeLampIds m))
          (missions s)))
     \<union> set (concat (map (\<lambda>d.
            if droneStatus d = Enroute \<or> droneStatus d = Replacing
            then (case targetLampId d of Some t \<Rightarrow> [t] | None \<Rightarrow> [])
            else [])
          (drones s)))"

text \<open>
  \<^verbatim>\<open>[...items].sort(comparator)\<close>. The sort reads the number that the comparator returns:
  negative puts the first argument before the second, and \<^verbatim>\<open>NaN\<close> counts as \<^verbatim>\<open>+0\<close>.
  With a comparator that orders the items consistently the result is the stable sort, which
  this insertion sort computes; with a comparator that \<^verbatim>\<open>NaN\<close> makes inconsistent the order
  is left to the engine, and the insertion sort gives one possible result.
\<close>

definition comesBefore :: "('a \<Rightarrow> 'a \<Rightarrow> jsnum) \<Rightarrow> 'a \<Rightarrow> 'a \<Rightarrow> bool" where
  "comesBefore comparator x y = lessNum (comparator x y) (Num 0)"

fun insertSorted :: "('a \<Rightarrow> 'a \<Rightarrow> jsnum) \<Rightarrow> 'a \<Rightarrow> 'a list \<Rightarrow> 'a list" where
  "insertSorted comparator x [] = [x]"
| "insertSorted comparator x (y # ys) =
     (if comesBefore comparator x y then x # y # ys else y # insertSorted comparator x ys)"

definition sortBy :: "('a \<Rightarrow> 'a \<Rightarrow> jsnum) \<Rightarrow> 'a list \<Rightarrow> 'a list" where
  "sortBy comparator items = fold (insertSorted comparator) items []"

text \<open>
  The body of \<^verbatim>\<open>validLamps.forEach\<close> in \<^verbatim>\<open>buildCapacityAwareRoutes\<close>, on the pair
  (\<^verbatim>\<open>assignedByDrone\<close>, \<^verbatim>\<open>capacityByDrone\<close>).
\<close>

definition capacityOf :: "string \<Rightarrow> int obj \<Rightarrow> int" where
  "capacityOf key capacityByDrone = (case objGet key capacityByDrone of Some c \<Rightarrow> c | None \<Rightarrow> 0)"

definition selectDrone :: "arithmetic \<Rightarrow> drone list \<Rightarrow> int obj \<Rightarrow> lamp \<Rightarrow> drone option" where
  "selectDrone fp activeDrones capacityByDrone lampArg =
     (let sortedDrones = sortBy (\<lambda>left right.
              subNum fp (geoDistance fp (position left) lampArg)
                        (geoDistance fp (position right) lampArg))
            activeDrones
      in find (\<lambda>d. capacityOf (droneId d) capacityByDrone > 0) sortedDrones)"

definition assignLamp ::
  "arithmetic \<Rightarrow> drone list \<Rightarrow> lamp \<Rightarrow> lamp list obj \<times> int obj \<Rightarrow> lamp list obj \<times> int obj" where
  "assignLamp fp activeDrones lampArg acc =
     (case selectDrone fp activeDrones (snd acc) lampArg of
        None \<Rightarrow> acc
      | Some selectedDrone \<Rightarrow>
          (objSet (droneId selectedDrone) (routeOf (droneId selectedDrone) (fst acc) @ [lampArg]) (fst acc),
           objSet (droneId selectedDrone) (capacityOf (droneId selectedDrone) (snd acc) - 1) (snd acc)))"

definition assignAll :: "arithmetic \<Rightarrow> lamp list \<Rightarrow> drone list \<Rightarrow> lamp list obj \<times> int obj" where
  "assignAll fp validLamps activeDrones =
     fold (assignLamp fp activeDrones) validLamps
       (fold (\<lambda>d. objSet (droneId d) []) activeDrones [],
        fold (\<lambda>d. objSet (droneId d) (getDroneLampCapacity d)) activeDrones [])"

definition buildCapacityAwareRoutes :: "arithmetic \<Rightarrow> lamp list \<Rightarrow> drone list \<Rightarrow> routePlan" where
  "buildCapacityAwareRoutes fp lampsArg dronesArg =
     (let validLamps = lampsArg;
          activeDrones = filter isOperational dronesArg
      in if length validLamps = 0 \<or> length activeDrones = 0
         then \<lparr>planRouteLampIds = [], planDroneRoutes = []\<rparr>
         else let assignedByDrone = fst (assignAll fp validLamps activeDrones);
                  droneRoutesNew = fold (\<lambda>d.
                      let assignedLamps = routeOf (droneId d) assignedByDrone;
                          orderedLamps = nearestNeighborRoute fp assignedLamps (position d)
                      in objSet (droneId d) (map lampId orderedLamps))
                    activeDrones []
              in \<lparr>planRouteLampIds = concat (map snd droneRoutesNew),
                  planDroneRoutes = droneRoutesNew\<rparr>)"


text \<open>
  The outcome of \<^verbatim>\<open>tryStartMission\<close>: \<open>None\<close> is \<^verbatim>\<open>{ ok: true }\<close>, an error is the
  failure object, named after its message, with its \<^verbatim>\<open>statusCode\<close>.
\<close>

datatype start_error =
    MissionNotFound
  | MissionAlreadyRunning
  | MissionAlreadyCompleted
  | NoReadyDrones
  | NoAvailableRoutes
  | NoAssignedDrones

fun statusCode :: "start_error \<Rightarrow> int" where
  "statusCode MissionNotFound = 404"
| "statusCode MissionAlreadyRunning = 400"
| "statusCode MissionAlreadyCompleted = 400"
| "statusCode NoReadyDrones = 409"
| "statusCode NoAvailableRoutes = 400"
| "statusCode NoAssignedDrones = 400"

text \<open>\<^verbatim>\<open>new Map(state.lamps.map((lamp) => [lamp.id, lamp]))\<close>: a later lamp of the same id wins.\<close>

definition lampById :: "state \<Rightarrow> int \<Rightarrow> lamp option" where
  "lampById s lampIdArg =
     (case filter (\<lambda>l. lampId l = lampIdArg) (lamps s) of
        [] \<Rightarrow> None
      | found \<Rightarrow> Some (last found))"

definition missionLampsOf :: "state \<Rightarrow> mission \<Rightarrow> lamp list" where
  "missionLampsOf s m = List.map_filter (lampById s) (routeLampIds m)"

text \<open>
  The \<^verbatim>\<open>filter\<close> callback over one drone's proposed route, threading
  \<^verbatim>\<open>assignedLampIds\<close>: the lamp ids kept and the set after them.
\<close>

definition filterRoute ::
  "state \<Rightarrow> int set \<Rightarrow> int list \<Rightarrow> int set \<Rightarrow> int list \<times> int set" where
  "filterRoute s occupiedLampIds route assignedLampIds =
     fold (\<lambda>lampIdArg (kept, assigned).
        if lampIdArg \<in> occupiedLampIds \<or> lampIdArg \<in> assigned then (kept, assigned)
        else (case lampById s lampIdArg of
                None \<Rightarrow> (kept, assigned)
              | Some l \<Rightarrow>
                  if lampStatus l \<noteq> Replace then (kept, assigned)
                  else (kept @ [lampIdArg], insert lampIdArg assigned)))
      route ([], assignedLampIds)"

text \<open>The body of \<^verbatim>\<open>readyDrones.forEach\<close>, on the pair (\<^verbatim>\<open>activeRoutes\<close>, \<^verbatim>\<open>assignedLampIds\<close>).\<close>

definition activateRoute ::
  "state \<Rightarrow> int set \<Rightarrow> int list obj \<Rightarrow> drone \<Rightarrow> int list obj \<times> int set \<Rightarrow> int list obj \<times> int set" where
  "activateRoute s occupiedLampIds missionRoutes d acc =
     (let filtered = (case objGet (droneId d) missionRoutes of
                        Some route \<Rightarrow> filterRoute s occupiedLampIds route (snd acc)
                      | None \<Rightarrow> ([], snd acc))
      in (if length (fst filtered) > 0 then objSet (droneId d) (fst filtered) (fst acc) else fst acc,
          snd filtered))"

definition hasRoute :: "int list obj \<Rightarrow> string \<Rightarrow> bool" where
  "hasRoute activeRoutes key =
     (case objGet key activeRoutes of Some route \<Rightarrow> length route > 0 | None \<Rightarrow> False)"

text \<open>
  \<^verbatim>\<open>runMission\<close> up to its \<^verbatim>\<open>setInterval\<close>: the workers are created and the interval
  is registered under the mission's id. The ticks of the interval are \<open>missionTick\<close> below.
\<close>

definition newWorker :: "int list obj \<Rightarrow> state \<Rightarrow> nat \<Rightarrow> worker" where
  "newWorker droneRoutesArg s k =
     \<lparr>workerDrone = k,
      queue = routeOf (droneId (drones s ! k)) droneRoutesArg,
      workerTarget = None, replaceStartedAt = 0, replacedCount = 0,
      returning = False, completed = False\<rparr>"

definition mapSet :: "int \<Rightarrow> nat \<Rightarrow> (int \<times> nat) list \<Rightarrow> (int \<times> nat) list" where
  "mapSet key v m =
     (if key \<in> fst ` set m
      then map (\<lambda>(k, old). if k = key then (k, v) else (k, old)) m
      else m @ [(key, v)])"

definition runMission :: "nat \<Rightarrow> int list obj \<Rightarrow> nat list \<Rightarrow> state \<Rightarrow> state" where
  "runMission missionRef droneRoutesArg missionDrones s =
     (let newRun = \<lparr>runMissionRef = missionRef,
                    workers = map (newWorker droneRoutesArg s) missionDrones,
                    intervalActive = True\<rparr>;
          missionNow = missions s ! (length (missions s) - 1 - missionRef)
      in s\<lparr>runs := runs s @ [newRun],
           activeMissionTimers := mapSet (missionId missionNow) (length (runs s)) (activeMissionTimers s)\<rparr>)"

text \<open>
  \<^verbatim>\<open>tryStartMission(mission)\<close>. The mission object is given by its position in
  \<^verbatim>\<open>state.missions\<close>; \<open>None\<close> is \<^verbatim>\<open>undefined\<close> (what \<^verbatim>\<open>findMission\<close> returns for an
  unknown id), and a position outside the list stands for no mission as well.
  \<^verbatim>\<open>broadcast()\<close> sends a snapshot and changes nothing the engine reads.

  After the precondition checks the function has three parts, written here one by one:
  the routes are recomputed (a manual mission always, another mission when it has none),
  they are filtered into \<^verbatim>\<open>activeRoutes\<close>, and the mission is committed.
\<close>

definition recomputeRoutes :: "state \<Rightarrow> drone list \<Rightarrow> mission \<Rightarrow> mission" where
  "recomputeRoutes s readyDrones mission0 =
     (let mission1 = (if source mission0 = Manual
                      then let optimized = buildCapacityAwareRoutes (engine s) (missionLampsOf s mission0) readyDrones
                           in mission0\<lparr>routeLampIds := planRouteLampIds optimized,
                                      droneRoutes := planDroneRoutes optimized\<rparr>
                      else mission0)
      in if source mission1 \<noteq> Manual \<and> length (droneRoutes mission1) = 0
         then mission1\<lparr>droneRoutes := planDroneRoutes
                (optimizeMultiDroneRoutes (engine s) (missionLampsOf s mission1) readyDrones)\<rparr>
         else mission1)"

definition activeRoutesFor :: "state \<Rightarrow> drone list \<Rightarrow> mission \<Rightarrow> int list obj" where
  "activeRoutesFor s readyDrones m =
     (let occupiedLampIds = getOccupiedLampIds (Some (missionId m)) s;
          missionRoutes = droneRoutes m
      in fst (fold (activateRoute s occupiedLampIds missionRoutes) readyDrones ([], {})))"

definition commitMission :: "nat \<Rightarrow> mission \<Rightarrow> int list obj \<Rightarrow> nat list \<Rightarrow> int \<Rightarrow> state \<Rightarrow> state" where
  "commitMission i mission3 activeRoutes assignedIdx now s =
     (let mission4 = mission3\<lparr>missionStatus := Running,
                              startedAt := Some now,
                              droneRoutes := activeRoutes\<rparr>;
          drones' = fold (\<lambda>k ds.
              ds[k := (moveDroneToDockIfAvailable (ds ! k) s)
                        \<lparr>droneStatus := Enroute, targetLampId := None\<rparr>])
            assignedIdx (drones s);
          s1 = s\<lparr>missions := (missions s)[i := mission4], drones := drones'\<rparr>;
          s2 = addLog ''mission'' (MissionStarted (missionId mission4)) now s1
      in runMission (length (missions s) - 1 - i) activeRoutes assignedIdx s2)"

definition tryStartMission :: "nat option \<Rightarrow> int \<Rightarrow> state \<Rightarrow> start_error option \<times> state" where
  "tryStartMission missionArg now s =
     (case missionArg of
        None \<Rightarrow> (Some MissionNotFound, s)
      | Some i \<Rightarrow>
          if i \<ge> length (missions s) then (Some MissionNotFound, s)
          else let mission0 = missions s ! i in
          if missionStatus mission0 = Running then (Some MissionAlreadyRunning, s)
          else if missionStatus mission0 = Completed then (Some MissionAlreadyCompleted, s)
          else let readyIdx = getReadyDronesForMission s in
          if length readyIdx = 0
          then (Some NoReadyDrones,
                s\<lparr>drones := map (\<lambda>d. if battery d < 100
                                      then moveDroneToDockIfAvailable (d\<lparr>droneStatus := Charging\<rparr>) s
                                      else d) (drones s)\<rparr>)
          else let readyDrones = map (\<lambda>k. drones s ! k) readyIdx;
                   mission2 = recomputeRoutes s readyDrones mission0;
                   activeRoutes = activeRoutesFor s readyDrones mission2;
                   mission3 = mission2\<lparr>routeLampIds := concat (map snd activeRoutes)\<rparr>;
                   hasAnyRoute = list_ex (\<lambda>route. length route > 0) (map snd activeRoutes)
               in if \<not> hasAnyRoute
                  then (Some NoAvailableRoutes, s\<lparr>missions := (missions s)[i := mission3]\<rparr>)
                  else let assignedIdx = filter (\<lambda>k. hasRoute activeRoutes (droneId (drones s ! k))) readyIdx
                       in if length assignedIdx = 0
                          then (Some NoAssignedDrones, s\<lparr>missions := (missions s)[i := mission3]\<rparr>)
                          else (None, commitMission i mission3 activeRoutes assignedIdx now s))"


section \<open>Mission execution engine (server)\<close>

definition setDrone :: "nat \<Rightarrow> drone \<Rightarrow> state \<Rightarrow> state" where
  "setDrone k d s = s\<lparr>drones := (drones s)[k := d]\<rparr>"

definition restingStatus :: "drone \<Rightarrow> drone_status" where
  "restingStatus d = (if battery d < 100 then Charging else Idle)"

text \<open>The position of a run's mission in \<^verbatim>\<open>state.missions\<close> now.\<close>

definition missionPos :: "nat \<Rightarrow> state \<Rightarrow> nat" where
  "missionPos missionRef s = length (missions s) - 1 - missionRef"

text \<open>
  The callback of \<^verbatim>\<open>workers.forEach\<close> in the interval of \<^verbatim>\<open>runMission\<close>, in the four
  parts it falls into. \<open>now\<close> is \<^verbatim>\<open>Date.now()\<close>; \<open>energyRnd\<close> and \<open>drainRnd\<close> are
  the values of \<^verbatim>\<open>Math.round(Math.random() * 12)\<close> and \<^verbatim>\<open>Math.round(Math.random() * 2)\<close>
  drawn in this call.

  First part: the low-battery interruption.
\<close>

definition interruptIfLowBattery :: "int \<Rightarrow> worker \<Rightarrow> state \<Rightarrow> worker \<times> state" where
  "interruptIfLowBattery now w s =
     (let d = drones s ! workerDrone w
      in if battery d \<le> RETURN_TO_DOCK_BATTERY_THRESHOLD
            \<and> workerTarget w \<noteq> None
            \<and> droneStatus d \<noteq> Replacing
         then (w\<lparr>queue := [], workerTarget := None\<rparr>,
               setDrone (workerDrone w) (d\<lparr>targetLampId := None, droneStatus := Enroute\<rparr>)
                 (addLog ''drone'' (ReturnForCharge (droneId d) (battery d)) now s))
         else (w, s))"

text \<open>A worker gives its target up: \<^verbatim>\<open>targetLampId = null\<close> on both objects, status \<^verbatim>\<open>enroute\<close>.\<close>

definition dropTarget :: "worker \<Rightarrow> state \<Rightarrow> worker \<times> state" where
  "dropTarget w s =
     (w\<lparr>workerTarget := None\<rparr>,
      setDrone (workerDrone w)
        ((drones s ! workerDrone w)\<lparr>targetLampId := None, droneStatus := Enroute\<rparr>) s)"

text \<open>Second part: the worker has a target lamp (\<^verbatim>\<open>worker.targetLampId !== null\<close>).\<close>

definition serveTarget ::
  "nat \<Rightarrow> int \<Rightarrow> int \<Rightarrow> int \<Rightarrow> int \<Rightarrow> worker \<Rightarrow> state \<Rightarrow> worker \<times> state" where
  "serveTarget missionRef now energyRnd drainRnd target w s =
     (let k = workerDrone w; d = drones s ! k
      in case findIndex (\<lambda>item. lampId item = target) (lamps s) of
           None \<Rightarrow> dropTarget w s
         | Some li \<Rightarrow>
             let lampNow = lamps s ! li
             in if droneStatus d \<noteq> Replacing \<and> lampStatus lampNow \<noteq> Replace
                then dropTarget w (addLog ''replace'' (LampSkipped (droneId d) (lampId lampNow)) now s)
                else if droneStatus d = Replacing
                then (if now - replaceStartedAt w < REPLACEMENT_DURATION_MS then (w, s)
                      else let lamp' = lampNow\<lparr>lampStatus := Ok, cassettePresent := True,
                                                powerOn := True, energyW := 100 + energyRnd\<rparr>;
                               mp = missionPos missionRef s;
                               m = missions s ! mp;
                               m' = m\<lparr>completedLampIds := completedLampIds m @ [lampId lampNow]\<rparr>;
                               d' = d\<lparr>battery := max 20 (battery d - (4 + drainRnd)),
                                      containerLampsRemaining := max 0 (containerLampsRemaining d - 1)\<rparr>;
                               s1 = s\<lparr>lamps := (lamps s)[li := lamp'],
                                      missions := (missions s)[mp := m']\<rparr>;
                               s2 = addLog ''replace'' (ReplacementDone (droneId d) (lampId lampNow)) now
                                      (setDrone k d' s1)
                           in dropTarget (w\<lparr>replacedCount := replacedCount w + 1\<rparr>) s2)
                else let moved = moveDroneTowards (d\<lparr>droneStatus := Enroute\<rparr>)
                                   \<lparr>lat = lat lampNow, lng = lng lampNow\<rparr>;
                         s1 = setDrone k (snd moved) s
                     in if fst moved
                        then (if lampStatus lampNow \<noteq> Replace then dropTarget w s1
                              else if containerLampsRemaining (snd moved) \<le> 0
                              then dropTarget (w\<lparr>queue := []\<rparr>)
                                     (addLog ''dock'' (ContainerEmpty (droneId d)) now s1)
                              else (w\<lparr>replaceStartedAt := now\<rparr>,
                                    addLog ''replace'' (ReplacementBegun (droneId d) (lampId lampNow)) now
                                      (setDrone k ((snd moved)\<lparr>droneStatus := Replacing\<rparr>)
                                         (s1\<lparr>lamps := (lamps s1)[li := lampNow\<lparr>lampStatus := InProgress\<rparr>]\<rparr>))))
                        else (w, s1))"

text \<open>Third part: no target and a non-empty queue.\<close>

definition takeNext :: "worker \<Rightarrow> state \<Rightarrow> worker \<times> state" where
  "takeNext w s =
     (case queue w of
        [] \<Rightarrow> (w, s)
      | nextLampId # rest \<Rightarrow>
          (w\<lparr>queue := rest, workerTarget := Some nextLampId\<rparr>,
           setDrone (workerDrone w)
             ((drones s ! workerDrone w)\<lparr>targetLampId := Some nextLampId, droneStatus := Enroute\<rparr>) s))"

text \<open>Fourth part: no target and an empty queue; the drone returns to its dock.\<close>

definition returnToDock :: "int \<Rightarrow> worker \<Rightarrow> state \<Rightarrow> worker \<times> state" where
  "returnToDock now w s =
     (let k = workerDrone w; d = drones s ! k
      in case getActiveDockIndex d s of
           None \<Rightarrow>
             (w\<lparr>completed := True\<rparr>,
              setDrone k (d\<lparr>targetLampId := None, droneStatus := restingStatus d\<rparr>) s)
         | Some di \<Rightarrow>
             let dk = docks s ! di;
                 moved = moveDroneTowards (d\<lparr>droneStatus := Enroute\<rparr>) \<lparr>lat = lat dk, lng = lng dk\<rparr>;
                 w1 = w\<lparr>returning := True\<rparr>
             in if fst moved
                then let d1 = (snd moved)\<lparr>targetLampId := None\<rparr>
                     in if containerLampsRemaining d1 \<le> 0
                        then let d2 = d1\<lparr>droneStatus := Servicing,
                                         pendingContainerOps := pendingContainerOps d1 + 1,
                                         serviceEndsAt := Some (now + DOCK_SERVICE_MS)\<rparr>;
                                 dk' = dk\<lparr>containerSwapStatus := SwapInProgress,
                                         containerSwapUpdatedAt := Some now\<rparr>
                             in (w1\<lparr>replacedCount := 0, completed := True\<rparr>,
                                 addLog ''dock'' (DockServiceBegun (droneId d)) now
                                   (setDrone k d2 (s\<lparr>docks := (docks s)[di := dk']\<rparr>)))
                        else (w1\<lparr>completed := True\<rparr>,
                              setDrone k (d1\<lparr>droneStatus := restingStatus d1\<rparr>) s)
                else (w1, setDrone k (snd moved) s))"

definition workerTick ::
  "nat \<Rightarrow> int \<Rightarrow> int \<Rightarrow> int \<Rightarrow> worker \<Rightarrow> state \<Rightarrow> worker \<times> state" where
  "workerTick missionRef now energyRnd drainRnd w s =
     (if completed w \<or> \<not> isOperational (drones s ! workerDrone w) then (w, s)
      else let interrupted = interruptIfLowBattery now w s;
               w1 = fst interrupted;
               s1 = snd interrupted
           in case workerTarget w1 of
                Some target \<Rightarrow> serveTarget missionRef now energyRnd drainRnd target w1 s1
              | None \<Rightarrow>
                  if length (queue w1) > 0 then takeNext w1 s1
                  else returnToDock now w1 s1)"

text \<open>
  \<^verbatim>\<open>workers.forEach\<close>: the workers in order, each on the state the previous one left.
  The random draws of the worker at index \<open>n\<close> are \<open>energyRnd n\<close> and \<open>drainRnd n\<close>.
\<close>

fun tickWorkers ::
  "nat \<Rightarrow> int \<Rightarrow> (nat \<Rightarrow> int) \<Rightarrow> (nat \<Rightarrow> int) \<Rightarrow> nat \<Rightarrow> worker list \<Rightarrow> state
   \<Rightarrow> worker list \<times> state" where
  "tickWorkers missionRef now energyRnd drainRnd n [] s = ([], s)"
| "tickWorkers missionRef now energyRnd drainRnd n (w # ws) s =
     (let first = workerTick missionRef now (energyRnd n) (drainRnd n) w s;
          others = tickWorkers missionRef now energyRnd drainRnd (Suc n) ws (snd first)
      in (fst first # fst others, snd others))"

text \<open>\<^verbatim>\<open>completeMission\<close> of the run at index \<open>r\<close>.\<close>

definition settleDrone :: "state \<Rightarrow> nat \<Rightarrow> drone list \<Rightarrow> drone list" where
  "settleDrone s k ds =
     (let d1 = (ds ! k)\<lparr>targetLampId := None\<rparr>
      in ds[k := (if droneStatus d1 \<noteq> Servicing
                  then let d2 = d1\<lparr>droneStatus := restingStatus d1\<rparr>
                       in if droneStatus d2 = Charging then moveDroneToDockIfAvailable d2 s else d2
                  else d1)])"

definition completeMission :: "nat \<Rightarrow> int \<Rightarrow> state \<Rightarrow> state" where
  "completeMission r now s =
     (let thisRun = runs s ! r;
          mp = missionPos (runMissionRef thisRun) s;
          m = missions s ! mp;
          s1 = (case map_of (activeMissionTimers s) (missionId m) of
                  Some timerId \<Rightarrow>
                    s\<lparr>runs := (runs s)[timerId := (runs s ! timerId)\<lparr>intervalActive := False\<rparr>],
                      activeMissionTimers := filter (\<lambda>(key, v). key \<noteq> missionId m) (activeMissionTimers s)\<rparr>
                | None \<Rightarrow> s);
          s2 = s1\<lparr>missions := (missions s1)[mp := m\<lparr>missionStatus := Completed, finishedAt := Some now\<rparr>]\<rparr>;
          s3 = s2\<lparr>drones := fold (settleDrone s2) (map workerDrone (workers thisRun)) (drones s2)\<rparr>
      in addLog ''mission'' (MissionFinished (missionId m)) now s3)"

text \<open>One firing of the interval of run \<open>r\<close>; an interval that was cleared (or never set) does not fire.\<close>

definition missionTick :: "nat \<Rightarrow> int \<Rightarrow> (nat \<Rightarrow> int) \<Rightarrow> (nat \<Rightarrow> int) \<Rightarrow> state \<Rightarrow> state" where
  "missionTick r now energyRnd drainRnd s =
     (if r \<ge> length (runs s) \<or> \<not> intervalActive (runs s ! r) then s
      else let thisRun = runs s ! r;
               ticked = tickWorkers (runMissionRef thisRun) now energyRnd drainRnd 0 (workers thisRun) s;
               s1 = (snd ticked)\<lparr>runs := (runs (snd ticked))[r := thisRun\<lparr>workers := fst ticked\<rparr>]\<rparr>;
               missionDone = list_all (\<lambda>w. completed w \<or> \<not> isOperational (drones s1 ! workerDrone w))
                               (fst ticked)
           in if missionDone then completeMission r now s1 else s1)"


section \<open>Auto-service scheduler and global tick (server)\<close>

text \<open>\<^verbatim>\<open>String(n)\<close> for a natural number, and \<^verbatim>\<open>padStart(2, '0')\<close>.\<close>

definition digitChar :: "nat \<Rightarrow> char" where
  "digitChar n = char_of (48 + n)"

function decimal :: "nat \<Rightarrow> string" where
  "decimal n = (if n < 10 then [digitChar n] else decimal (n div 10) @ [digitChar (n mod 10)])"
  by pat_completeness auto
termination
  by (relation "measure id") auto

declare decimal.simps [simp del]

definition padStart2 :: "string \<Rightarrow> string" where
  "padStart2 str = (if length str < 2 then replicate (2 - length str) CHR ''0'' @ str else str)"

definition createDroneForDock :: "dock \<Rightarrow> nat \<Rightarrow> drone" where
  "createDroneForDock dk index =
     \<lparr>droneId = ''drone-'' @ padStart2 (decimal (index + 1)),
      battery = 100,
      isOperational = True,
      droneStatus = Idle,
      targetLampId = None,
      pendingContainerOps = 0,
      containerLampsRemaining = LAMPS_PER_CONTAINER,
      serviceEndsAt = None,
      homeDockId = Some (dockId dk),
      activeDockId = Some (dockId dk),
      position = \<lparr>lat = lat dk, lng = lng dk\<rparr>\<rparr>"

text \<open>
  \<^verbatim>\<open>ensureDroneCoverageForAllDocks\<close>. (\<^verbatim>\<open>ensureDroneContainerState\<close> only replaces a
  container stock that is not a finite number, which an integer always is.)
\<close>

definition coverDock :: "int \<Rightarrow> nat \<Rightarrow> state \<Rightarrow> state" where
  "coverDock now index s =
     (let dk = docks s ! index
      in case find (\<lambda>d. boundDockId d = Some (dockId dk)) (drones s) of
           Some dockDrone \<Rightarrow> s
         | None \<Rightarrow>
             let newDrone = createDroneForDock dk index
             in addLog ''drone'' (DroneAdded (droneId newDrone)) now
                  (s\<lparr>drones := drones s @ [newDrone]\<rparr>))"

definition ensureDroneCoverageForAllDocks :: "int \<Rightarrow> state \<Rightarrow> state" where
  "ensureDroneCoverageForAllDocks now s =
     (let s1 = fold (coverDock now) [0..<length (docks s)] s
      in s1\<lparr>drones := map (\<lambda>d.
                let d1 = enforceDroneDockBinding d
                in if droneStatus d1 \<noteq> Enroute \<and> droneStatus d1 \<noteq> Replacing
                   then moveDroneToDockIfAvailable d1 s1 else d1)
              (drones s1)\<rparr>)"

definition refillDocks :: "int \<Rightarrow> state \<Rightarrow> state" where
  "refillDocks now s =
     (if now - lastDockRefillAt s \<ge> DOCK_REFILL_INTERVAL_MS
      then s\<lparr>docks := map (\<lambda>dk.
                  let lastSwap = (case lastSwapCompletedAt dk of Some t \<Rightarrow> t | None \<Rightarrow> 0)
                  in if now - lastSwap < DOCK_REFILL_PAUSE_AFTER_SWAP_MS then dk
                     else let refillUnits = min DOCK_REFILL_UNITS (emptyContainers dk)
                          in if refillUnits > 0
                             then dk\<lparr>emptyContainers := emptyContainers dk - refillUnits,
                                    fullContainers := fullContainers dk + refillUnits\<rparr>
                             else dk)
                (docks s),
             lastDockRefillAt := now\<rparr>
      else s)"

text \<open>The body of \<^verbatim>\<open>state.drones.forEach\<close> in the global tick, for the drone at index \<open>k\<close>.\<close>

definition tickDrone :: "int \<Rightarrow> nat \<Rightarrow> state \<Rightarrow> state" where
  "tickDrone now k s =
     (let d = drones s ! k
      in if droneStatus d = Servicing
         then (case serviceEndsAt d of
                 None \<Rightarrow> s
               | Some ends \<Rightarrow>
                   if ends \<noteq> 0 \<and> now \<ge> ends
                   then let serviced =
                              (case getActiveDockIndex d s of
                                 None \<Rightarrow> s
                               | Some di \<Rightarrow>
                                   if pendingContainerOps d > 0
                                   then let ops = pendingContainerOps d;
                                            dk = docks s ! di;
                                            dk' = dk\<lparr>fullContainers := max 0 (fullContainers dk - ops),
                                                    emptyContainers := emptyContainers dk + ops,
                                                    containerSwapStatus := Replaced,
                                                    lastSwapCompletedAt := Some now,
                                                    containerSwapUpdatedAt := Some now\<rparr>
                                        in addLog ''dock'' (DockServiceDone (droneId d)) now
                                             (setDrone k (d\<lparr>containerLampsRemaining := LAMPS_PER_CONTAINER * ops\<rparr>)
                                                (s\<lparr>docks := (docks s)[di := dk']\<rparr>))
                                   else s);
                            d1 = drones serviced ! k
                        in setDrone k (d1\<lparr>pendingContainerOps := 0, serviceEndsAt := None,
                                          droneStatus := restingStatus d1\<rparr>) serviced
                   else s)
         else if droneStatus d = Idle \<or> droneStatus d = Charging
         then (if battery d < 100
               then let d1 = moveDroneToDockIfAvailable (d\<lparr>droneStatus := Charging\<rparr>) s;
                        d2 = d1\<lparr>battery := min 100 (battery d1 + CHARGE_RATE_PER_TICK)\<rparr>
                    in if battery d2 \<ge> 100
                       then addLog ''drone'' (FullyCharged (droneId d)) now
                              (setDrone k (d2\<lparr>droneStatus := Idle\<rparr>) s)
                       else setDrone k d2 s
               else if droneStatus d = Charging then setDrone k (d\<lparr>droneStatus := Idle\<rparr>) s
               else s)
         else s)"

text \<open>
  \<^verbatim>\<open>findNextPlannedLampsForDrone\<close>, as the loop on (\<^verbatim>\<open>index\<close>, \<^verbatim>\<open>lampIds\<close>) with the
  plan of the drone fixed.
\<close>

function scanPlan :: "state \<Rightarrow> int list \<Rightarrow> int \<Rightarrow> nat \<Rightarrow> int list \<Rightarrow> int list \<times> nat" where
  "scanPlan s plan maxCount index lampIds =
     (if index < length plan \<and> int (length lampIds) < maxCount
      then let lampIdNow = plan ! index
           in scanPlan s plan maxCount (index + 1)
                (case findLamp lampIdNow s of
                   Some l \<Rightarrow> if lampStatus l = Replace then lampIds @ [lampIdNow] else lampIds
                 | None \<Rightarrow> lampIds)
      else (lampIds, index))"
  by pat_completeness auto
termination
  by (relation "measure (\<lambda>(s, plan, maxCount, index, lampIds). length plan - index)") auto

declare scanPlan.simps [simp del]

definition findNextPlannedLampsForDrone :: "state \<Rightarrow> string \<Rightarrow> nat \<Rightarrow> int \<Rightarrow> int list \<times> nat" where
  "findNextPlannedLampsForDrone s droneIdArg startIndex maxCount =
     (let plan = (case objGet droneIdArg AUTO_SERVICE_PLAN of Some p \<Rightarrow> p | None \<Rightarrow> [])
      in scanPlan s plan maxCount startIndex [])"

record dispatch =
  dispatchDroneRoutes :: "int list obj"
  dispatchRouteLampIds :: "int list"
  nextProgress :: "nat obj"

definition planForDrone :: "state \<Rightarrow> drone \<Rightarrow> dispatch \<Rightarrow> dispatch" where
  "planForDrone s d acc =
     (let currentProgress = (case objGet (droneId d) (autoServiceProgress s) of Some p \<Rightarrow> p | None \<Rightarrow> 0);
          lampsForDrone = max 1 (min LAMPS_PER_CONTAINER (containerLampsRemaining d));
          found = findNextPlannedLampsForDrone s (droneId d) currentProgress lampsForDrone;
          acc1 = acc\<lparr>nextProgress := objSet (droneId d) (snd found) (nextProgress acc)\<rparr>
      in if length (fst found) > 0
         then acc1\<lparr>dispatchDroneRoutes := objSet (droneId d) (fst found) (dispatchDroneRoutes acc1),
                   dispatchRouteLampIds := dispatchRouteLampIds acc1 @ fst found\<rparr>
         else acc1)"

definition buildAutoServiceDispatch :: "state \<Rightarrow> drone list \<Rightarrow> dispatch" where
  "buildAutoServiceDispatch s readyDrones =
     fold (planForDrone s) readyDrones
       \<lparr>dispatchDroneRoutes = [], dispatchRouteLampIds = [], nextProgress = []\<rparr>"

text \<open>
  \<^verbatim>\<open>tryAutoServiceDispatch\<close>, with the way it went beside the state it leaves: it
  returned before starting anything, it started a mission, or the start failed.
\<close>

datatype dispatch_outcome = NoDispatch | DispatchStarted | DispatchFailed start_error

definition autoServiceDispatch :: "int \<Rightarrow> state \<Rightarrow> dispatch_outcome \<times> state" where
  "autoServiceDispatch now s =
     (if \<not> autoServiceEnabled s \<or> now - lastAutoDispatchAt s < AUTO_DISPATCH_COOLDOWN_MS
      then (NoDispatch, s)
      else if list_ex (\<lambda>m. source m = Manual \<and> (missionStatus m = Planned \<or> missionStatus m = Running))
                (missions s) then (NoDispatch, s)
      else let readyIdx = getReadyDronesForMission s
           in if length readyIdx = 0 then (NoDispatch, s)
              else let plan = buildAutoServiceDispatch s (map (\<lambda>k. drones s ! k) readyIdx)
                   in if length (dispatchRouteLampIds plan) = 0 then (NoDispatch, s)
                      else let s1 = createMission (dispatchRouteLampIds plan) (dispatchDroneRoutes plan)
                                      AutoService now s;
                               started = tryStartMission (Some 0) now s1;
                               s2 = snd started;
                               newId = missionId (missions s1 ! 0)
                           in case fst started of
                                None \<Rightarrow>
                                  (DispatchStarted,
                                   addLog ''auto'' (AutoServiceStarted newId) now
                                     (s2\<lparr>autoServiceProgress :=
                                            fold (\<lambda>(key, progress). objSet key progress) (nextProgress plan)
                                              (autoServiceProgress s2),
                                         lastAutoDispatchAt := now\<rparr>))
                              | Some err \<Rightarrow>
                                  (DispatchFailed err,
                                   addLog ''error'' (AutoServiceFailed newId (statusCode err)) now s2))"

definition tryAutoServiceDispatch :: "int \<Rightarrow> state \<Rightarrow> state" where
  "tryAutoServiceDispatch now s = snd (autoServiceDispatch now s)"

text \<open>The callback of the global \<^verbatim>\<open>setInterval\<close>.\<close>

definition globalTick :: "int \<Rightarrow> state \<Rightarrow> state" where
  "globalTick now s =
     (let s1 = ensureDroneCoverageForAllDocks now s;
          s2 = refillDocks now s1;
          s3 = fold (tickDrone now) [0..<length (drones s2)] s2
      in tryAutoServiceDispatch now s3)"

section \<open>Commands (server)\<close>

text \<open>The request handlers, as the HTTP status they answer with and the state they leave.\<close>

definition failLamp :: "int \<Rightarrow> int \<Rightarrow> state \<Rightarrow> int \<times> state" where
  "failLamp lampIdArg now s =
     (case markLampForReplacement lampIdArg now s of
        (None, s1) \<Rightarrow> (404, s1)
      | (Some l, s1) \<Rightarrow>
          (200, if autoServiceEnabled s1 then tryAutoServiceDispatch now s1 else s1))"

definition planMission :: "int list \<Rightarrow> int \<Rightarrow> state \<Rightarrow> int \<times> state" where
  "planMission requestedLampIds now s =
     (let occupiedLampIds = getOccupiedLampIds None s;
          candidateLamps = filter (\<lambda>l. lampId l \<in> set requestedLampIds
                                       \<and> lampStatus l = Replace
                                       \<and> lampId l \<notin> occupiedLampIds) (lamps s)
      in if length candidateLamps = 0 then (400, addLog ''error'' PlanNoLamps now s)
         else let availableDrones = filter (\<lambda>d. isOperational d \<and> getDroneLampCapacity d > 0) (drones s);
                  optimized = buildCapacityAwareRoutes (engine s) candidateLamps availableDrones
              in if length (planRouteLampIds optimized) = 0
                 then (409, addLog ''error'' PlanNoDrones now s)
                 else (200, createMission (planRouteLampIds optimized) (planDroneRoutes optimized)
                              Manual now s))"

definition startMission :: "int \<Rightarrow> int \<Rightarrow> state \<Rightarrow> int \<times> state" where
  "startMission missionIdArg now s =
     (case tryStartMission (findMission missionIdArg s) now s of
        (Some err, s1) \<Rightarrow> (statusCode err, addLog ''error'' (StartFailed missionIdArg) now s1)
      | (None, s1) \<Rightarrow> (200, s1))"

definition setAutoService :: "bool \<Rightarrow> int \<Rightarrow> state \<Rightarrow> int \<times> state" where
  "setAutoService enabled now s =
     (200, addLog ''auto'' (AutoServiceToggled enabled) now (s\<lparr>autoServiceEnabled := enabled\<rparr>))"

definition replaceAllContainers :: "int \<Rightarrow> state \<Rightarrow> int \<times> state" where
  "replaceAllContainers now s =
     (200,
      addLog ''dock'' ContainersForced now
        (s\<lparr>drones := map (\<lambda>d.
               let d1 = d\<lparr>containerLampsRemaining := LAMPS_PER_CONTAINER,
                          pendingContainerOps := 0,
                          serviceEndsAt := None\<rparr>
               in if droneStatus d1 = Servicing then d1\<lparr>droneStatus := restingStatus d1\<rparr> else d1)
             (drones s),
           docks := map (\<lambda>dk. dk\<lparr>containerSwapStatus := Replaced,
                                  containerSwapUpdatedAt := Some now,
                                  lastSwapCompletedAt := Some now\<rparr>)
             (docks s)\<rparr>))"

text \<open>
  Everything that changes the state: a command, a firing of a mission's interval, or a
  firing of the global interval.
\<close>

datatype event =
    FailLamp int int
  | PlanMission "int list" int
  | StartMission int int
  | SetAutoService bool int
  | ReplaceAllContainers int
  | MissionTick nat int "nat \<Rightarrow> int" "nat \<Rightarrow> int"
  | GlobalTick int

fun step :: "event \<Rightarrow> state \<Rightarrow> state" where
  "step (FailLamp lampIdArg now) s = snd (failLamp lampIdArg now s)"
| "step (PlanMission requestedLampIds now) s = snd (planMission requestedLampIds now s)"
| "step (StartMission missionIdArg now) s = snd (startMission missionIdArg now s)"
| "step (SetAutoService enabled now) s = snd (setAutoService enabled now s)"
| "step (ReplaceAllContainers now) s = snd (replaceAllContainers now s)"
| "step (MissionTick r now energyRnd drainRnd) s = missionTick r now energyRnd drainRnd s"
| "step (GlobalTick now) s = globalTick now s"


section \<open>Small fleets for worked examples\<close>

text \<open>
  One dock at the origin, drones as \<^verbatim>\<open>buildDrones\<close> creates them (full battery, full
  container, idle at the dock), lamps on the meridian of the dock. The arithmetic is that
  of the real numbers.
\<close>

definition exDock :: dock where
  "exDock = \<lparr>lat = 0, lng = 0, dockId = ''D-1'', fullContainers = 14, emptyContainers = 4,
             containerSwapStatus = NotReplaced, containerSwapUpdatedAt = None,
             lastSwapCompletedAt = None\<rparr>"

definition exDrone :: "string \<Rightarrow> drone" where
  "exDrone name =
     \<lparr>droneId = name, battery = 100, isOperational = True, droneStatus = Idle,
      targetLampId = None, pendingContainerOps = 0, containerLampsRemaining = 5,
      serviceEndsAt = None, homeDockId = Some ''D-1'', activeDockId = Some ''D-1'',
      position = \<lparr>lat = 0, lng = 0\<rparr>\<rparr>"

definition exLamp :: "int \<Rightarrow> real \<Rightarrow> lamp_status \<Rightarrow> lamp" where
  "exLamp i la st =
     \<lparr>lat = la, lng = 0, lampId = i, lampStatus = st, powerOn = False,
      cassettePresent = True, energyW = 0\<rparr>"

definition exMission :: "int \<Rightarrow> mission_status \<Rightarrow> mission_source \<Rightarrow> int list obj \<Rightarrow> int list \<Rightarrow> int list \<Rightarrow> mission" where
  "exMission i st src routes route finished =
     \<lparr>missionId = i, createdAt = i, startedAt = (if st = Planned then None else Some i),
      finishedAt = None, missionStatus = st, source = src, droneRoutes = routes,
      routeLampIds = route, completedLampIds = finished\<rparr>"

definition exState :: "drone list \<Rightarrow> lamp list \<Rightarrow> mission list \<Rightarrow> state" where
  "exState ds ls ms =
     \<lparr>autoServiceEnabled = False, docks = [exDock], drones = ds, lamps = ls, missions = ms,
      logs = [], lastAutoDispatchAt = 0, lastDockRefillAt = 0,
      autoServiceProgress = map (\<lambda>(key, plan). (key, 0)) AUTO_SERVICE_PLAN,
      runs = [], activeMissionTimers = [], engine = exactArithmetic\<rparr>"


section \<open>Distances along a meridian\<close>

text \<open>
  In the arithmetic of the real numbers: between two points of the same longitude less than
  180 degrees of latitude apart, the haversine distance is the difference of the latitudes
  times the length of a degree; between two points on opposite meridians it is what is left
  of the half circle after the sum of the latitudes.
\<close>

definition kmPerDegree :: real where
  "kmPerDegree = 6371 * pi / 180"

lemma kmPerDegree_pos: "0 < kmPerDegree"
  by (simp add: kmPerDegree_def)

lemma roundTo_exact [simp]: "roundTo exactArithmetic x = x"
  by (simp add: exactArithmetic_def)

lemma atan2_sin_cos:
  assumes "0 \<le> x" and "x < pi / 2"
  shows "atan2 (sin x) (cos x) = x"
proof -
  from assms have c: "0 < cos x" by (intro cos_gt_zero_pi) auto
  have "arctan (tan x) = x" using assms by (intro arctan_tan) auto
  with c show ?thesis by (simp add: atan2_def tan_def)
qed

lemma atan2_one_zero: "atan2 1 0 = pi / 2"
  by (simp add: atan2_def)

text \<open>The haversine of the source on reals, from \<open>h\<close>.\<close>

lemma geoDistance_exact:
  "geoDistance exactArithmetic a b =
     (let h = sin ((lat b - lat a) * pi / 180 / 2) * sin ((lat b - lat a) * pi / 180 / 2)
              + cos (lat a * pi / 180) * cos (lat b * pi / 180)
                * sin ((lng b - lng a) * pi / 180 / 2) * sin ((lng b - lng a) * pi / 180 / 2)
      in if h < 0 \<or> 1 - h < 0 then NaN
         else Num (6371 * (2 * atan2 (sqrt h) (sqrt (1 - h)))))"
  by (simp add: geoDistance_def exactArithmetic_def toRad_def Let_def)

lemma geoDistance_meridian:
  assumes "lng a = lng b" and "\<bar>lat b - lat a\<bar> < 180"
  shows "geoDistance exactArithmetic a b = Num (kmPerDegree * \<bar>lat b - lat a\<bar>)"
proof -
  define t where "t = (lat b - lat a) * pi / 180 / 2"
  define x where "x = \<bar>t\<bar>"
  have x0: "0 \<le> x" by (simp add: x_def)
  define p where "p = pi / 360"
  have p: "0 < p" by (simp add: p_def)
  have xp: "x = \<bar>lat b - lat a\<bar> * p"
    by (simp add: x_def t_def abs_mult p_def)
  have "\<bar>lat b - lat a\<bar> * p < 180 * p"
    by (rule mult_strict_right_mono[OF assms(2) p])
  moreover have "180 * p = pi / 2" by (simp add: p_def)
  ultimately have x1: "x < pi / 2" using xp by linarith
  have xv: "x = \<bar>lat b - lat a\<bar> * pi / 360" using xp by (simp add: p_def)
  from x0 x1 have s0: "0 \<le> sin x" by (intro sin_ge_zero) auto
  from x0 x1 have c0: "0 < cos x" by (intro cos_gt_zero_pi) auto
  have "sin t = sin x \<or> sin t = - sin x"
    unfolding x_def by (cases "0 \<le> t") simp_all
  then have sq: "sin t * sin t = sin x * sin x" by auto
  have one: "1 - sin x * sin x = cos x * cos x"
    using sin_cos_squared_add[of x] by (simp add: power2_eq_square algebra_simps)
  have h0: "\<not> (sin x * sin x < 0 \<or> 1 - sin x * sin x < 0)"
    unfolding one by (simp add: not_less)
  have r1: "sqrt (sin x * sin x) = sin x" using s0 by simp
  have r2: "sqrt (1 - sin x * sin x) = cos x" unfolding one using c0 by simp
  have "geoDistance exactArithmetic a b =
          (let h = sin t * sin t + cos (lat a * pi / 180) * cos (lat b * pi / 180) * sin 0 * sin 0
           in if h < 0 \<or> 1 - h < 0 then NaN
              else Num (6371 * (2 * atan2 (sqrt h) (sqrt (1 - h)))))"
    unfolding geoDistance_exact t_def using assms(1) by simp
  also have "\<dots> = Num (6371 * (2 * atan2 (sin x) (cos x)))"
    using h0 r1 r2 by (simp add: Let_def sq)
  also have "\<dots> = Num (6371 * (2 * x))" using atan2_sin_cos[OF x0 x1] by simp
  also have "\<dots> = Num (kmPerDegree * \<bar>lat b - lat a\<bar>)" by (simp add: xv kmPerDegree_def)
  finally show ?thesis .
qed

lemma atan2_cos_sin:
  assumes "0 \<le> t" and "t \<le> pi / 2"
  shows "atan2 (cos t) (sin t) = pi / 2 - t"
proof (cases "t = 0")
  case True
  then show ?thesis by (simp add: atan2_one_zero)
next
  case False
  define u where "u = pi / 2 - t"
  from assms False have u0: "0 \<le> u" and u1: "u < pi / 2" by (simp_all add: u_def)
  have "cos t = sin u" and "sin t = cos u"
    by (simp_all add: u_def cos_diff sin_diff)
  with atan2_sin_cos[OF u0 u1] show ?thesis by (simp add: u_def)
qed

lemma haversine_opposite:
  fixes x y :: real
  shows "sin ((y - x) / 2) * sin ((y - x) / 2) + cos x * cos y
           = cos ((x + y) / 2) * cos ((x + y) / 2)"
proof -
  have "2 * ((y - x) / 2) = y - x" and "2 * ((x + y) / 2) = x + y" by simp_all
  with cos_double_sin[of "(y - x) / 2"] cos_double_cos[of "(x + y) / 2"]
  have c1: "cos (y - x) = 1 - 2 * (sin ((y - x) / 2))\<^sup>2"
    and c2: "cos (x + y) = 2 * (cos ((x + y) / 2))\<^sup>2 - 1"
    by (simp_all only:)
  have a: "sin ((y - x) / 2) * sin ((y - x) / 2) = (1 - cos (y - x)) / 2"
    unfolding c1 by (simp add: power2_eq_square)
  have b: "cos ((x + y) / 2) * cos ((x + y) / 2) = (1 + cos (x + y)) / 2"
    unfolding c2 by (simp add: power2_eq_square)
  show ?thesis unfolding a b by (simp add: cos_add cos_diff field_simps)
qed

lemma geoDistance_antimeridian:
  assumes "lng b - lng a = 180 \<or> lng b - lng a = - 180" and "\<bar>lat a + lat b\<bar> \<le> 180"
  shows "geoDistance exactArithmetic a b = Num (kmPerDegree * (180 - \<bar>lat a + lat b\<bar>))"
proof -
  define x where "x = lat a * pi / 180"
  define y where "y = lat b * pi / 180"
  define t where "t = \<bar>(x + y) / 2\<bar>"
  have t0: "0 \<le> t" by (simp add: t_def)
  define p where "p = pi / 360"
  have p: "0 < p" by (simp add: p_def)
  have "(x + y) / 2 = (lat a + lat b) * p"
    by (simp add: x_def y_def p_def field_simps)
  then have tp: "t = \<bar>lat a + lat b\<bar> * p"
    using p by (simp add: t_def abs_mult)
  have "\<bar>lat a + lat b\<bar> * p \<le> 180 * p"
    using assms(2) p by (intro mult_right_mono) simp_all
  moreover have "180 * p = pi / 2" by (simp add: p_def)
  ultimately have t1: "t \<le> pi / 2" using tp by linarith
  from t0 t1 have c0: "0 \<le> cos t" by (intro cos_ge_zero) auto
  from t0 t1 have s0: "0 \<le> sin t" by (intro sin_ge_zero) auto
  have "sin ((lng b - lng a) * pi / 180 / 2) = 1 \<or> sin ((lng b - lng a) * pi / 180 / 2) = - 1"
    using assms(1) by auto
  then have one: "sin ((lng b - lng a) * pi / 180 / 2) * sin ((lng b - lng a) * pi / 180 / 2) = 1"
    by auto
  have d: "(lat b - lat a) * pi / 180 / 2 = (y - x) / 2"
    by (simp add: x_def y_def field_simps)
  have "cos t = cos ((x + y) / 2)"
    unfolding t_def by (rule cos_abs_real)
  then have ct: "cos ((x + y) / 2) * cos ((x + y) / 2) = cos t * cos t" by simp
  have h: "sin ((lat b - lat a) * pi / 180 / 2) * sin ((lat b - lat a) * pi / 180 / 2)
             + cos (lat a * pi / 180) * cos (lat b * pi / 180)
               * sin ((lng b - lng a) * pi / 180 / 2) * sin ((lng b - lng a) * pi / 180 / 2)
           = cos t * cos t"
  proof -
    have "cos (lat a * pi / 180) * cos (lat b * pi / 180)
            * sin ((lng b - lng a) * pi / 180 / 2) * sin ((lng b - lng a) * pi / 180 / 2)
          = cos x * cos y * (sin ((lng b - lng a) * pi / 180 / 2) * sin ((lng b - lng a) * pi / 180 / 2))"
      by (simp add: x_def y_def)
    also have "\<dots> = cos x * cos y" by (simp only: one mult_1_right)
    finally show ?thesis
      unfolding d using haversine_opposite[of y x] ct by simp
  qed
  have one_h: "1 - cos t * cos t = sin t * sin t"
    using sin_cos_squared_add[of t] by (simp add: power2_eq_square algebra_simps)
  have ok: "\<not> (cos t * cos t < 0 \<or> 1 - cos t * cos t < 0)"
    unfolding one_h by (simp add: not_less)
  have r1: "sqrt (cos t * cos t) = cos t" using c0 by simp
  have r2: "sqrt (1 - cos t * cos t) = sin t" unfolding one_h using s0 by simp
  have "geoDistance exactArithmetic a b =
          (let h = cos t * cos t
           in if h < 0 \<or> 1 - h < 0 then NaN
              else Num (6371 * (2 * atan2 (sqrt h) (sqrt (1 - h)))))"
    unfolding geoDistance_exact by (simp only: h)
  also have "\<dots> = Num (6371 * (2 * atan2 (cos t) (sin t)))"
    using ok r1 r2 by (simp add: Let_def)
  also have "\<dots> = Num (6371 * (2 * (pi / 2 - t)))" using atan2_cos_sin[OF t0 t1] by simp
  also have "\<dots> = Num (kmPerDegree * (180 - \<bar>lat a + lat b\<bar>))"
    by (simp add: tp p_def kmPerDegree_def field_simps)
  finally show ?thesis .
qed

section \<open>Unfolding sets for the worked examples\<close>

lemmas evalDefs = exState_def exDrone_def exLamp_def exMission_def exDock_def
  getReadyDronesForMission_def isReadyForMission_def truthyNum_def MIN_BATTERY_FOR_FLIGHT_def
  buildCapacityAwareRoutes_def assignAll_def assignLamp_def selectDrone_def capacityOf_def
  getDroneLampCapacity_def LAMPS_PER_CONTAINER_def objGet_def objSet_def routeOf_def
  missionLampsOf_def lampById_def List.map_filter_def
  nearestNeighborRoute_def MAX_EXACT_POINTS_def bruteForceBestRoute_def bruteStep_def
  routeDistance_def removeAt_def sortBy_def comesBefore_def subNum_def

lemmas startDefs = tryStartMission_def recomputeRoutes_def activeRoutesFor_def commitMission_def getOccupiedLampIds_def activateRoute_def filterRoute_def
  hasRoute_def moveDroneToDockIfAvailable_def getActiveDock_def getActiveDockIndex_def
  boundDockId_def addLog_def runMission_def newWorker_def mapSet_def

lemmas tickDefs = workerTick_def interruptIfLowBattery_def serveTarget_def takeNext_def
  returnToDock_def dropTarget_def setDrone_def restingStatus_def moveDroneTowards_def
  missionPos_def RETURN_TO_DOCK_BATTERY_THRESHOLD_def DRONE_STEP_DEG_def
  REPLACEMENT_DURATION_MS_def DOCK_SERVICE_MS_def


section \<open>Facts about numbers\<close>

lemma addNum_NaN_left [simp]: "addNum fp NaN b = NaN"
  by (cases b) simp_all

lemma addNum_NaN_right [simp]: "addNum fp a NaN = NaN"
  by (cases a) simp_all

lemma lessNum_NaN_right [simp]: "\<not> lessNum a NaN"
  by (cases a) simp_all

lemma lessNum_PosInf_right: "lessNum a PosInf \<longleftrightarrow> a \<noteq> NaN \<and> a \<noteq> PosInf"
  by (cases a) simp_all

lemma subNum_NaN_left [simp]: "subNum fp NaN b = NaN"
  by (simp add: subNum_def)

lemma subNum_NaN_right [simp]: "subNum fp a NaN = NaN"
  by (cases a) (simp_all add: subNum_def)

lemma subNum_Num [simp]: "subNum fp (Num x) (Num y) = Num (roundTo fp (x - y))"
  by (simp add: subNum_def)

text \<open>A computed distance is a number or \<^verbatim>\<open>NaN\<close>, never an infinity.\<close>

definition isNum :: "jsnum \<Rightarrow> bool" where
  "isNum a = (case a of Num x \<Rightarrow> True | _ \<Rightarrow> False)"

lemma isNum_simps [simp]:
  "isNum (Num x)" "\<not> isNum NaN" "\<not> isNum PosInf" "\<not> isNum NegInf"
  by (simp_all add: isNum_def)

lemma geoDistance_cases: "geoDistance fp a b = NaN \<or> isNum (geoDistance fp a b)"
  by (simp add: geoDistance_def Let_def)

lemma addNum_cases: "a = NaN \<or> isNum a \<Longrightarrow> b = NaN \<or> isNum b \<Longrightarrow> addNum fp a b = NaN \<or> isNum (addNum fp a b)"
  by (cases a; cases b) simp_all

lemma addLegs_cases: "d = NaN \<or> isNum d \<Longrightarrow> addLegs fp d r = NaN \<or> isNum (addLegs fp d r)"
proof (induction r arbitrary: d)
  case Nil
  then show ?case by simp
next
  case (Cons p r)
  show ?case
  proof (cases r)
    case Nil
    with Cons.prems show ?thesis by simp
  next
    case (Cons q rest)
    from addNum_cases[OF Cons.prems geoDistance_cases[of fp p q]]
    have "addNum fp d (geoDistance fp p q) = NaN \<or> isNum (addNum fp d (geoDistance fp p q))" .
    from Cons.IH[OF this] Cons show ?thesis by simp
  qed
qed

lemma routeDistance_cases: "routeDistance fp r s = NaN \<or> isNum (routeDistance fp r s)"
proof (cases r)
  case Nil
  then show ?thesis by (simp add: routeDistance_def)
next
  case (Cons first rest)
  from addLegs_cases[OF geoDistance_cases[of fp s first], where r = r] Cons
  show ?thesis by (simp add: routeDistance_def)
qed

lemma isNum_iff: "isNum a \<longleftrightarrow> (\<exists>x. a = Num x)"
  by (cases a) simp_all

section \<open>Binary64 values at an antipodal pair\<close>

text \<open>
  The points (8, 0) and (-8, 180) are antipodal. \<open>binary64Sample\<close> is an arithmetic that
  has the binary64 values of every operation that \<^verbatim>\<open>geoDistance\<close> performs between these
  two points, in either direction: the roundings of the products, quotients and sums whose
  exact result is not a binary64 number, the values of \<^verbatim>\<open>Math.sin\<close> and \<^verbatim>\<open>Math.cos\<close> at
  the four half-angles and two latitudes, and \<^verbatim>\<open>Math.PI\<close>. Each is written as the
  rational that the binary64 number is. Every other operation is left exact. Between the
  two points \<open>h\<close> comes out as 1.0000000000000002, so \<^verbatim>\<open>Math.sqrt(1 - h)\<close> is \<^verbatim>\<open>NaN\<close>.
\<close>

definition binary64Sample :: arithmetic where
  "binary64Sample =
     \<lparr>roundTo = (\<lambda>x. if x = - (39792587355159975 / 70368744177664) then - (4974073419394997 / 8796093022208)
          else if x = - (4974073419394997 / 1583296743997440) then - (884279719003555 / 281474976710656)
          else if x = - (176855943800711 / 633318697598976) then - (5030569068109113 / 18014398509481984)
          else if x = - (176855943800711 / 1266637395197952) then - (5030569068109113 / 36028797018963968)
          else if x = 25142596810554238581887470460529 / 1298074214633706907132624082305024 then 1395694493897217 / 72057594037927936
          else if x = 176855943800711 / 1266637395197952 then 5030569068109113 / 36028797018963968
          else if x = 176855943800711 / 633318697598976 then 5030569068109113 / 18014398509481984
          else if x = 19889556528486762294526464184969 / 20282409603651670423947251286016 then 8832737443003841 / 9007199254740992
          else if x = 72057594037927945 / 72057594037927936 then 4503599627370497 / 4503599627370496
          else if x = 4974073419394997 / 1583296743997440 then 884279719003555 / 281474976710656
          else if x = 39792587355159975 / 70368744177664 then 4974073419394997 / 8796093022208
          else x),
      mathSin = (\<lambda>x. if x = - (884279719003555 / 562949953421312) then - 1
          else if x = - (5030569068109113 / 36028797018963968) then - (5014239404989977 / 36028797018963968)
          else if x = 5030569068109113 / 36028797018963968 then 5014239404989977 / 36028797018963968
          else if x = 884279719003555 / 562949953421312 then 1
          else sin x),
      mathCos = (\<lambda>x. if x = - (5030569068109113 / 36028797018963968) then 4459770905381437 / 4503599627370496
          else if x = 5030569068109113 / 36028797018963968 then 4459770905381437 / 4503599627370496
          else cos x),
      mathAtan2 = atan2,
      mathPI = 884279719003555 / 281474976710656\<rparr>"

lemma geoDistance_NaN_steps:
  assumes "toRad fp (roundTo fp (lat b - lat a)) = dLat"
    and "toRad fp (roundTo fp (lng b - lng a)) = dLng"
    and "toRad fp (lat a) = lat1"
    and "toRad fp (lat b) = lat2"
    and "mathSin fp (roundTo fp (dLat / 2)) = sinLat"
    and "mathSin fp (roundTo fp (dLng / 2)) = sinLng"
    and "roundTo fp (sinLat * sinLat) = t1"
    and "roundTo fp (mathCos fp lat1 * mathCos fp lat2) = t2"
    and "roundTo fp (t2 * sinLng) = t3"
    and "roundTo fp (t3 * sinLng) = t4"
    and "roundTo fp (t1 + t4) = h"
    and "roundTo fp (1 - h) < 0"
  shows "geoDistance fp a b = NaN"
  using assms by (simp add: geoDistance_def Let_def)

lemmas sampleDefs = binary64Sample_def toRad_def

lemma geoDistance_antipodal_NaN:
  assumes "lat a = 8" and "lng a = 0" and "lat b = - 8" and "lng b = 180"
  shows "geoDistance binary64Sample a b = NaN"
proof (rule geoDistance_NaN_steps)
  show "toRad binary64Sample (roundTo binary64Sample (lat b - lat a)) = - (5030569068109113 / 18014398509481984)"
    using assms by (simp add: sampleDefs)
  show "toRad binary64Sample (roundTo binary64Sample (lng b - lng a)) = 884279719003555 / 281474976710656"
    using assms by (simp add: sampleDefs)
  show "toRad binary64Sample (lat a) = 5030569068109113 / 36028797018963968"
    using assms by (simp add: sampleDefs)
  show "toRad binary64Sample (lat b) = - (5030569068109113 / 36028797018963968)"
    using assms by (simp add: sampleDefs)
  show "mathSin binary64Sample (roundTo binary64Sample (- (5030569068109113 / 18014398509481984) / 2))
        = - (5014239404989977 / 36028797018963968)"
    by (simp add: sampleDefs)
  show "mathSin binary64Sample (roundTo binary64Sample (884279719003555 / 281474976710656 / 2)) = 1"
    by (simp add: sampleDefs)
  show "roundTo binary64Sample (- (5014239404989977 / 36028797018963968) * - (5014239404989977 / 36028797018963968))
        = 1395694493897217 / 72057594037927936"
    by (simp add: sampleDefs)
  show "roundTo binary64Sample
          (mathCos binary64Sample (5030569068109113 / 36028797018963968)
           * mathCos binary64Sample (- (5030569068109113 / 36028797018963968)))
        = 8832737443003841 / 9007199254740992"
    by (simp add: sampleDefs)
  show "roundTo binary64Sample (8832737443003841 / 9007199254740992 * 1) = 8832737443003841 / 9007199254740992"
    by (simp add: sampleDefs)
  show "roundTo binary64Sample (8832737443003841 / 9007199254740992 * 1) = 8832737443003841 / 9007199254740992"
    by (simp add: sampleDefs)
  show "roundTo binary64Sample (1395694493897217 / 72057594037927936 + 8832737443003841 / 9007199254740992)
        = 4503599627370497 / 4503599627370496"
    by (simp add: sampleDefs)
  show "roundTo binary64Sample (1 - 4503599627370497 / 4503599627370496) < 0"
    by (simp add: sampleDefs)
qed

lemma geoDistance_antipodal_NaN_back:
  assumes "lat a = 8" and "lng a = 0" and "lat b = - 8" and "lng b = 180"
  shows "geoDistance binary64Sample b a = NaN"
proof (rule geoDistance_NaN_steps)
  show "toRad binary64Sample (roundTo binary64Sample (lat a - lat b)) = 5030569068109113 / 18014398509481984"
    using assms by (simp add: sampleDefs)
  show "toRad binary64Sample (roundTo binary64Sample (lng a - lng b)) = - (884279719003555 / 281474976710656)"
    using assms by (simp add: sampleDefs)
  show "toRad binary64Sample (lat b) = - (5030569068109113 / 36028797018963968)"
    using assms by (simp add: sampleDefs)
  show "toRad binary64Sample (lat a) = 5030569068109113 / 36028797018963968"
    using assms by (simp add: sampleDefs)
  show "mathSin binary64Sample (roundTo binary64Sample (5030569068109113 / 18014398509481984 / 2))
        = 5014239404989977 / 36028797018963968"
    by (simp add: sampleDefs)
  show "mathSin binary64Sample (roundTo binary64Sample (- (884279719003555 / 281474976710656) / 2)) = - 1"
    by (simp add: sampleDefs)
  show "roundTo binary64Sample (5014239404989977 / 36028797018963968 * (5014239404989977 / 36028797018963968))
        = 1395694493897217 / 72057594037927936"
    by (simp add: sampleDefs)
  show "roundTo binary64Sample
          (mathCos binary64Sample (- (5030569068109113 / 36028797018963968))
           * mathCos binary64Sample (5030569068109113 / 36028797018963968))
        = 8832737443003841 / 9007199254740992"
    by (simp add: sampleDefs)
  show "roundTo binary64Sample (8832737443003841 / 9007199254740992 * - 1) = - (8832737443003841 / 9007199254740992)"
    by (simp add: sampleDefs)
  show "roundTo binary64Sample (- (8832737443003841 / 9007199254740992) * - 1) = 8832737443003841 / 9007199254740992"
    by (simp add: sampleDefs)
  show "roundTo binary64Sample (1395694493897217 / 72057594037927936 + 8832737443003841 / 9007199254740992)
        = 4503599627370497 / 4503599627370496"
    by (simp add: sampleDefs)
  show "roundTo binary64Sample (1 - 4503599627370497 / 4503599627370496) < 0"
    by (simp add: sampleDefs)
qed

definition pointA :: point where
  "pointA = \<lparr>lat = 8, lng = 0\<rparr>"

definition pointB :: point where
  "pointB = \<lparr>lat = - 8, lng = 180\<rparr>"


section \<open>Exact ordering of small routes\<close>

lemma mset_removeAt:
  "index < length items \<Longrightarrow> mset items = add_mset (items ! index) (mset (removeAt index items))"
  unfolding removeAt_def
  by (metis append_take_drop_id Cons_nth_drop_Suc mset.simps(2) mset_append union_mset_add_mset_right)

lemma permutations_sound: "ys \<in> set (permutations xs) \<Longrightarrow> mset ys = mset xs"
proof (induction xs arbitrary: ys rule: permutations.induct)
  case (1 items)
  show ?case
  proof (cases "length items \<le> 1")
    case True
    with "1.prems" show ?thesis by (simp add: permutations.simps)
  next
    case False
    with "1.prems" obtain index tail where
      idx: "index < length items" and tl: "tail \<in> set (permutations (removeAt index items))"
      and ys: "ys = items ! index # tail"
      by (subst (asm) permutations.simps) auto
    from "1.IH"[OF False _ tl] idx have "mset tail = mset (removeAt index items)" by simp
    with mset_removeAt[OF idx] ys show ?thesis by simp
  qed
qed

lemma permutations_complete: "mset ys = mset xs \<Longrightarrow> ys \<in> set (permutations xs)"
proof (induction xs arbitrary: ys rule: permutations.induct)
  case (1 items)
  show ?case
  proof (cases "length items \<le> 1")
    case True
    then have "items = [] \<or> (\<exists>x. items = [x])"
      by (cases items) (auto simp: le_Suc_eq)
    with "1.prems" have "ys = items" by auto
    with True show ?thesis by (simp add: permutations.simps)
  next
    case False
    then have "items \<noteq> []" by auto
    with "1.prems" obtain y tail where ys: "ys = y # tail" by (cases ys) auto
    with "1.prems" have "y \<in> set items" by (metis list.set_intros(1) mset_eq_setD)
    then obtain index where idx: "index < length items" and y: "items ! index = y"
      by (auto simp: in_set_conv_nth)
    from mset_removeAt[OF idx] "1.prems" ys y
    have "mset tail = mset (removeAt index items)" by simp
    from "1.IH"[OF False _ this] idx have "tail \<in> set (permutations (removeAt index items))" by simp
    with idx y ys False show ?thesis
      by (subst permutations.simps) auto
  qed
qed

text \<open>
  The loop invariant of the exhaustive search over the routes seen so far: the best is
  still at infinity and every route seen has the distance \<^verbatim>\<open>NaN\<close>, or the best route is
  one of those seen, its distance is a number, and no route seen has a smaller number.
\<close>

definition bruteInv ::
  "arithmetic \<Rightarrow> 'b point_scheme \<Rightarrow> ('a point_scheme list) option \<times> jsnum \<Rightarrow>
   'a point_scheme list set \<Rightarrow> bool" where
  "bruteInv fp s acc X =
     ((acc = (None, PosInf) \<and> (\<forall>p \<in> X. routeDistance fp p s = NaN)) \<or>
      (\<exists>route x. acc = (Some route, Num x) \<and> routeDistance fp route s = Num x \<and> route \<in> X \<and>
         (\<forall>p \<in> X. \<forall>y. routeDistance fp p s = Num y \<longrightarrow> x \<le> y)))"

lemma bruteStep_inv:
  assumes "bruteInv fp s acc X"
  shows "bruteInv fp s (bruteStep fp s p acc) (insert p X)"
proof -
  from routeDistance_cases[of fp p s]
  consider (nan) "routeDistance fp p s = NaN" | (num) y where "routeDistance fp p s = Num y"
    by (auto simp: isNum_iff)
  then show ?thesis
  proof cases
    case nan
    with assms show ?thesis
      unfolding bruteInv_def bruteStep_def Let_def by auto
  next
    case num
    with assms show ?thesis
      unfolding bruteInv_def bruteStep_def Let_def by (auto simp: not_less)
  qed
qed

lemma fold_bruteStep_inv:
  "bruteInv fp s acc X \<Longrightarrow> bruteInv fp s (fold (bruteStep fp s) ps acc) (X \<union> set ps)"
proof (induction ps arbitrary: acc X)
  case Nil
  then show ?case by simp
next
  case (Cons p ps)
  from bruteStep_inv[OF Cons.prems] have "bruteInv fp s (bruteStep fp s p acc) (insert p X)" .
  from Cons.IH[OF this] show ?case by simp
qed

lemma bruteForceBestRoute_optimal:
  "mset (bruteForceBestRoute fp points s) = mset points \<and>
   (\<forall>ys x. mset ys = mset points \<and> routeDistance fp ys s = Num x \<longrightarrow>
      (\<exists>y. routeDistance fp (bruteForceBestRoute fp points s) s = Num y \<and> y \<le> x)) \<and>
   ((\<forall>ys. mset ys = mset points \<longrightarrow> routeDistance fp ys s = NaN) \<longrightarrow>
      bruteForceBestRoute fp points s = points)"
proof (cases "length points \<le> 1")
  case True
  then have "points = [] \<or> (\<exists>x. points = [x])"
    by (cases points) (auto simp: le_Suc_eq)
  then have "\<forall>ys. mset ys = mset points \<longrightarrow> ys = points" by auto
  with True show ?thesis by (auto simp: bruteForceBestRoute_def)
next
  case False
  let ?acc = "fold (bruteStep fp s) (permutations points) (None, PosInf)"
  have "bruteInv fp s (None, PosInf) {}" by (simp add: bruteInv_def)
  from fold_bruteStep_inv[OF this, of "permutations points"]
  have inv: "bruteInv fp s ?acc (set (permutations points))"
    by simp
  have perms: "\<And>ys. mset ys = mset points \<longleftrightarrow> ys \<in> set (permutations points)"
    using permutations_sound permutations_complete by blast
  from inv consider
    (none) "?acc = (None, PosInf)" "\<forall>p \<in> set (permutations points). routeDistance fp p s = NaN"
  | (some) route x where "?acc = (Some route, Num x)" "routeDistance fp route s = Num x"
      "route \<in> set (permutations points)"
      "\<forall>p \<in> set (permutations points). \<forall>y. routeDistance fp p s = Num y \<longrightarrow> x \<le> y"
    unfolding bruteInv_def by blast
  then show ?thesis
  proof cases
    case none
    with False have "bruteForceBestRoute fp points s = points"
      by (simp add: bruteForceBestRoute_def)
    with none(2) show ?thesis by (auto simp: perms)
  next
    case some
    with False have eq: "bruteForceBestRoute fp points s = route"
      by (simp add: bruteForceBestRoute_def)
    from some(2,3) have "\<not> (\<forall>ys. mset ys = mset points \<longrightarrow> routeDistance fp ys s = NaN)"
      by (auto simp: perms)
    with eq some(2,3,4) show ?thesis by (auto simp: perms)
  qed
qed

text \<open>
  Claim C4. For a non-empty list of at most 8 points and any start position,
  \<open>nearestNeighborRoute\<close> returns a permutation of its input. Whenever the total distance
  (start to first point, then point to point) that the program computes for some
  permutation of the input is a number, the distance it computes for the returned route is
  a number too, and not a larger one. When the distance it computes is \<^verbatim>\<open>NaN\<close> for every
  permutation, the returned route is the input in its given order.
\<close>

theorem nearestNeighborRoute_exact_among_numbers:
  assumes "points \<noteq> []" and "length points \<le> 8"
  shows "mset (nearestNeighborRoute fp points startPosition) = mset points \<and>
         (\<forall>ys x. mset ys = mset points \<and> routeDistance fp ys startPosition = Num x \<longrightarrow>
            (\<exists>y. routeDistance fp (nearestNeighborRoute fp points startPosition) startPosition = Num y
                  \<and> y \<le> x)) \<and>
         ((\<forall>ys. mset ys = mset points \<longrightarrow> routeDistance fp ys startPosition = NaN) \<longrightarrow>
            nearestNeighborRoute fp points startPosition = points)"
proof -
  from assms
  have "nearestNeighborRoute fp points startPosition = bruteForceBestRoute fp points startPosition"
    by (simp add: nearestNeighborRoute_def MAX_EXACT_POINTS_def)
  with bruteForceBestRoute_optimal[of fp points startPosition] show ?thesis by simp
qed

text \<open>
  An instance, in the arithmetic of the real numbers: three points on the prime meridian
  and the start on the equator. The order south, north, further north has the distance
  of 4 degrees of latitude; the returned route is a permutation that is not longer.
\<close>

lemma exMeridianPerm_distance:
  "routeDistance exactArithmetic
     [\<lparr>lat = - 1, lng = 0\<rparr>, \<lparr>lat = 1, lng = 0\<rparr>, \<lparr>lat = 2, lng = 0 :: real\<rparr>] \<lparr>lat = 0, lng = 0 :: real\<rparr>
   = Num (kmPerDegree * 4)"
  by (simp add: routeDistance_def geoDistance_meridian algebra_simps)

theorem nearestNeighborRoute_exact_among_numbers_witness:
  "[\<lparr>lat = 1, lng = 0\<rparr>, \<lparr>lat = 2, lng = 0\<rparr>, \<lparr>lat = - 1, lng = 0\<rparr>] \<noteq> ([] :: point list) \<and>
   length [\<lparr>lat = 1, lng = 0\<rparr>, \<lparr>lat = 2, lng = 0\<rparr>, \<lparr>lat = - 1, lng = 0 :: real\<rparr>] \<le> 8 \<and>
   mset (nearestNeighborRoute exactArithmetic
           [\<lparr>lat = 1, lng = 0\<rparr>, \<lparr>lat = 2, lng = 0\<rparr>, \<lparr>lat = - 1, lng = 0\<rparr>] \<lparr>lat = 0, lng = 0 :: real\<rparr>)
     = mset [\<lparr>lat = 1, lng = 0\<rparr>, \<lparr>lat = 2, lng = 0\<rparr>, \<lparr>lat = - 1, lng = 0\<rparr>] \<and>
   routeDistance exactArithmetic
     [\<lparr>lat = - 1, lng = 0\<rparr>, \<lparr>lat = 1, lng = 0\<rparr>, \<lparr>lat = 2, lng = 0 :: real\<rparr>] \<lparr>lat = 0, lng = 0 :: real\<rparr>
     = Num (kmPerDegree * 4) \<and>
   (\<exists>y. routeDistance exactArithmetic
          (nearestNeighborRoute exactArithmetic
             [\<lparr>lat = 1, lng = 0\<rparr>, \<lparr>lat = 2, lng = 0\<rparr>, \<lparr>lat = - 1, lng = 0\<rparr>] \<lparr>lat = 0, lng = 0 :: real\<rparr>)
          \<lparr>lat = 0, lng = 0 :: real\<rparr> = Num y \<and> y \<le> kmPerDegree * 4)"
proof -
  let ?points = "[\<lparr>lat = 1, lng = 0\<rparr>, \<lparr>lat = 2, lng = 0\<rparr>, \<lparr>lat = - 1, lng = 0\<rparr>] :: point list"
  let ?perm = "[\<lparr>lat = - 1, lng = 0\<rparr>, \<lparr>lat = 1, lng = 0\<rparr>, \<lparr>lat = 2, lng = 0\<rparr>] :: point list"
  let ?s = "\<lparr>lat = 0, lng = 0\<rparr> :: point"
  have ne: "?points \<noteq> []" and le: "length ?points \<le> 8" by simp_all
  have perm: "mset ?perm = mset ?points" by simp
  note d = exMeridianPerm_distance
  from nearestNeighborRoute_exact_among_numbers[OF ne le, of exactArithmetic ?s] perm d ne le
  show ?thesis by blast
qed

text \<open>
  The claim as the specification words it, minimal among all permutations, fails at the
  antipodal pair \<open>pointA\<close>, \<open>pointB\<close> with the start one degree south of \<open>pointB\<close>. With the
  binary64 values the leg between the two points is \<^verbatim>\<open>NaN\<close>, so the distance of both
  orders is \<^verbatim>\<open>NaN\<close>, no \<^verbatim>\<open>distance < bestDistance\<close> holds, \<^verbatim>\<open>bestRoute\<close> stays
  \<^verbatim>\<open>null\<close> and the input order comes back. By the haversine formula on the reals the
  returned order measures 359 degrees of a great circle and the other order 181.
\<close>

definition startNearB :: point where
  "startNearB = \<lparr>lat = - 9, lng = 180\<rparr>"

theorem nearestNeighborRoute_antipodal_pair:
  "nearestNeighborRoute binary64Sample [pointA, pointB] startNearB = [pointA, pointB] \<and>
   routeDistance binary64Sample [pointA, pointB] startNearB = NaN \<and>
   routeDistance binary64Sample [pointB, pointA] startNearB = NaN \<and>
   routeDistance exactArithmetic [pointA, pointB] startNearB = Num (kmPerDegree * 359) \<and>
   routeDistance exactArithmetic [pointB, pointA] startNearB = Num (kmPerDegree * 181)"
proof -
  have ab: "geoDistance binary64Sample pointA pointB = NaN"
    by (rule geoDistance_antipodal_NaN) (simp_all add: pointA_def pointB_def)
  have ba: "geoDistance binary64Sample pointB pointA = NaN"
    by (rule geoDistance_antipodal_NaN_back) (simp_all add: pointA_def pointB_def)
  have d1: "routeDistance binary64Sample [pointA, pointB] startNearB = NaN"
    by (simp add: routeDistance_def ab)
  have d2: "routeDistance binary64Sample [pointB, pointA] startNearB = NaN"
    by (simp add: routeDistance_def ba)
  have perms: "permutations [pointA, pointB] = [[pointA, pointB], [pointB, pointA]]"
    by (simp add: permutations.simps removeAt_def upt_rec)
  have r: "nearestNeighborRoute binary64Sample [pointA, pointB] startNearB = [pointA, pointB]"
    by (simp add: nearestNeighborRoute_def MAX_EXACT_POINTS_def bruteForceBestRoute_def perms
        bruteStep_def d1 d2)
  have sa: "geoDistance exactArithmetic startNearB pointA = Num (kmPerDegree * 179)"
    by (subst geoDistance_antimeridian) (simp_all add: startNearB_def pointA_def)
  have sb: "geoDistance exactArithmetic startNearB pointB = Num (kmPerDegree * 1)"
    by (subst geoDistance_meridian) (simp_all add: startNearB_def pointB_def)
  have eab: "geoDistance exactArithmetic pointA pointB = Num (kmPerDegree * 180)"
    by (subst geoDistance_antimeridian) (simp_all add: pointA_def pointB_def)
  have eba: "geoDistance exactArithmetic pointB pointA = Num (kmPerDegree * 180)"
    by (subst geoDistance_antimeridian) (simp_all add: pointA_def pointB_def)
  have e1: "routeDistance exactArithmetic [pointA, pointB] startNearB = Num (kmPerDegree * 359)"
    by (simp add: routeDistance_def sa eab algebra_simps)
  have e2: "routeDistance exactArithmetic [pointB, pointA] startNearB = Num (kmPerDegree * 181)"
    by (simp add: routeDistance_def sb eba algebra_simps)
  from r d1 d2 e1 e2 show ?thesis by simp
qed


section \<open>Marking a lamp for replacement\<close>

lemma findIndex_None: "findIndex P xs = None \<longleftrightarrow> (\<forall>x \<in> set xs. \<not> P x)"
  by (induction xs) auto

lemma findIndex_Some:
  "findIndex P xs = Some i \<Longrightarrow>
   i < length xs \<and> P (xs ! i) \<and> (\<forall>j < i. \<not> P (xs ! j)) \<and> find P xs = Some (xs ! i)"
proof (induction xs arbitrary: i)
  case Nil
  then show ?case by simp
next
  case (Cons x xs)
  show ?case
  proof (cases "P x")
    case True
    with Cons.prems show ?thesis by simp
  next
    case False
    with Cons.prems obtain k where k: "findIndex P xs = Some k" and i: "i = Suc k" by auto
    from Cons.IH[OF k] False i show ?thesis by (auto simp: less_Suc_eq_0_disj)
  qed
qed

lemma find_None_findIndex: "find P xs = None \<longleftrightarrow> findIndex P xs = None"
  by (induction xs) auto

lemma find_update_first:
  "findIndex P xs = Some i \<Longrightarrow> P y \<Longrightarrow> find P (xs[i := y]) = Some y"
proof (induction xs arbitrary: i)
  case Nil
  then show ?case by simp
next
  case (Cons x xs)
  then show ?case by (cases "P x") (auto split: if_splits)
qed

text \<open>
  Claim C10. \<open>markLampForReplacement\<close> returns \<^verbatim>\<open>null\<close> exactly when no lamp has the id,
  and then leaves the state as it was. Otherwise the lamp found (the first with that id)
  is returned and stored with status \<^verbatim>\<open>replace\<close>, power off and energy 0, whatever its
  status was before.
\<close>

theorem markLampForReplacement_spec:
  "(fst (markLampForReplacement lampIdArg now s) = None \<longleftrightarrow> findLamp lampIdArg s = None) \<and>
   (findLamp lampIdArg s = None \<longrightarrow> snd (markLampForReplacement lampIdArg now s) = s) \<and>
   (\<forall>l. findLamp lampIdArg s = Some l \<longrightarrow>
      fst (markLampForReplacement lampIdArg now s)
        = Some (l\<lparr>lampStatus := Replace, powerOn := False, energyW := 0\<rparr>) \<and>
      findLamp lampIdArg (snd (markLampForReplacement lampIdArg now s))
        = Some (l\<lparr>lampStatus := Replace, powerOn := False, energyW := 0\<rparr>))"
proof (cases "findIndex (\<lambda>item. lampId item = lampIdArg) (lamps s)")
  case None
  then have "findLamp lampIdArg s = None"
    by (simp add: findLamp_def find_None_findIndex)
  with None show ?thesis by (simp add: markLampForReplacement_def)
next
  case (Some i)
  from findIndex_Some[OF Some] have f: "findLamp lampIdArg s = Some (lamps s ! i)"
    and id: "lampId (lamps s ! i) = lampIdArg"
    by (simp_all add: findLamp_def)
  let ?l' = "(lamps s ! i)\<lparr>lampStatus := Replace, powerOn := False, energyW := 0\<rparr>"
  have "find (\<lambda>item. lampId item = lampIdArg) ((lamps s)[i := ?l']) = Some ?l'"
    by (rule find_update_first[OF Some]) (simp add: id)
  with Some f show ?thesis
    by (simp add: markLampForReplacement_def Let_def findLamp_def addLog_def)
qed

text \<open>
  A lamp that a drone is replacing right now (status \<^verbatim>\<open>in_progress\<close>, the drone
  \<^verbatim>\<open>replacing\<close> with the lamp as its target) is put back to \<^verbatim>\<open>replace\<close>; an unknown
  id changes nothing.
\<close>

definition exReplacingState :: state where
  "exReplacingState =
     exState [(exDrone ''drone-01'')\<lparr>droneStatus := Replacing, targetLampId := Some 142\<rparr>]
       [(exLamp 142 1 InProgress)\<lparr>powerOn := True, energyW := 7\<rparr>, exLamp 112 2 Replace]
       [exMission 1000 Running Manual [(''drone-01'', [142, 112])] [142, 112] []]"

theorem markLampForReplacement_spec_witness:
  "findLamp 142 exReplacingState = Some ((exLamp 142 1 InProgress)\<lparr>powerOn := True, energyW := 7\<rparr>) \<and>
   fst (markLampForReplacement 142 5000 exReplacingState) = Some (exLamp 142 1 Replace) \<and>
   findLamp 142 (snd (markLampForReplacement 142 5000 exReplacingState)) = Some (exLamp 142 1 Replace) \<and>
   findLamp 999 exReplacingState = None \<and>
   fst (markLampForReplacement 999 5000 exReplacingState) = None \<and>
   snd (markLampForReplacement 999 5000 exReplacingState) = exReplacingState"
proof -
  have a: "findLamp 142 exReplacingState = Some ((exLamp 142 1 InProgress)\<lparr>powerOn := True, energyW := 7\<rparr>)"
    by (simp add: findLamp_def exReplacingState_def exState_def exLamp_def)
  have b: "findLamp 999 exReplacingState = None"
    by (simp add: findLamp_def exReplacingState_def exState_def exLamp_def)
  have c: "(exLamp 142 1 InProgress)\<lparr>powerOn := True, energyW := 7, lampStatus := Replace,
             powerOn := False, energyW := 0\<rparr> = exLamp 142 1 Replace"
    by (simp add: exLamp_def)
  from markLampForReplacement_spec[of 142 5000 exReplacingState]
       markLampForReplacement_spec[of 999 5000 exReplacingState] a b c
  show ?thesis by simp
qed


section \<open>A start that finds no route\<close>

lemma concat_no_route: "\<not> list_ex (\<lambda>route. length route > 0) rs \<Longrightarrow> concat rs = []"
  by (induction rs) auto

text \<open>
  Claim C9. When \<open>tryStartMission\<close> answers a planned manual mission with "no available
  drone routes", the mission is still \<^verbatim>\<open>planned\<close>, but it has been written to: its
  \<^verbatim>\<open>droneRoutes\<close> are the capacity-aware assignment just recomputed for the ready drones
  and its \<^verbatim>\<open>routeLampIds\<close> are empty. Nothing else of the state changes, and the routes
  the mission had before the call are gone.
\<close>

theorem tryStartMission_no_route_not_atomic:
  assumes "i < length (missions s)"
    and "source (missions s ! i) = Manual"
    and "fst (tryStartMission (Some i) now s) = Some NoAvailableRoutes"
  shows "missionStatus (missions s ! i) = Planned \<and>
         snd (tryStartMission (Some i) now s)
           = s\<lparr>missions := (missions s)[i := (missions s ! i)
                 \<lparr>droneRoutes := planDroneRoutes
                    (buildCapacityAwareRoutes (engine s) (missionLampsOf s (missions s ! i))
                       (map (\<lambda>k. drones s ! k) (getReadyDronesForMission s))),
                  routeLampIds := []\<rparr>]\<rparr>"
proof -
  let ?m = "missions s ! i"
  let ?ready = "map (\<lambda>k. drones s ! k) (getReadyDronesForMission s)"
  let ?m2 = "recomputeRoutes s ?ready ?m"
  let ?act = "activeRoutesFor s ?ready ?m2"
  from assms(3) assms(1) have st: "missionStatus ?m \<noteq> Running" "missionStatus ?m \<noteq> Completed"
    by (auto simp: tryStartMission_def Let_def split: if_splits)
  then have planned: "missionStatus ?m = Planned" by (cases "missionStatus ?m") auto
  from assms(3) assms(1) st have rdy: "length (getReadyDronesForMission s) \<noteq> 0"
    by (auto simp: tryStartMission_def Let_def split: if_splits)
  from assms st rdy have nr: "\<not> list_ex (\<lambda>route. length route > 0) (map snd ?act)"
    by (auto simp: tryStartMission_def Let_def split: if_splits)
  have m2: "?m2 = ?m\<lparr>routeLampIds := planRouteLampIds (buildCapacityAwareRoutes (engine s) (missionLampsOf s ?m) ?ready),
                      droneRoutes := planDroneRoutes (buildCapacityAwareRoutes (engine s) (missionLampsOf s ?m) ?ready)\<rparr>"
    using assms(2) by (simp add: recomputeRoutes_def Let_def)
  from assms(1,2) st rdy nr planned show ?thesis
    by (simp add: tryStartMission_def Let_def concat_no_route m2)
qed

text \<open>
  A planned manual mission for two lamps that were already replaced by the time it is
  started: the start fails, the mission's route list is emptied and its per-drone routes
  are replaced by the recomputed ones (here in the other order).
\<close>

definition exStaleState :: state where
  "exStaleState =
     exState [exDrone ''drone-01''] [exLamp 142 1 Ok, exLamp 112 2 Ok]
       [exMission 1000 Planned Manual [(''drone-01'', [112, 142])] [112, 142] []]"

lemma exStale_routes:
  "planDroneRoutes (buildCapacityAwareRoutes (engine exStaleState) (missionLampsOf exStaleState (missions exStaleState ! 0))
     (map (\<lambda>k. drones exStaleState ! k) (getReadyDronesForMission exStaleState)))
   = [(''drone-01'', [142, 112])]"
  using kmPerDegree_pos
  by (simp add: exStaleState_def evalDefs Let_def permutations.simps geoDistance_meridian)

lemma exStale_fails: "fst (tryStartMission (Some 0) 5000 exStaleState) = Some NoAvailableRoutes"
  using kmPerDegree_pos
  by (simp add: exStaleState_def evalDefs startDefs Let_def permutations.simps geoDistance_meridian)

theorem tryStartMission_no_route_not_atomic_witness:
  "0 < length (missions exStaleState) \<and>
   source (missions exStaleState ! 0) = Manual \<and>
   droneRoutes (missions exStaleState ! 0) = [(''drone-01'', [112, 142])] \<and>
   routeLampIds (missions exStaleState ! 0) = [112, 142] \<and>
   fst (tryStartMission (Some 0) 5000 exStaleState) = Some NoAvailableRoutes \<and>
   missions (snd (tryStartMission (Some 0) 5000 exStaleState))
     = [exMission 1000 Planned Manual [(''drone-01'', [142, 112])] [] []]"
proof -
  have a: "0 < length (missions exStaleState)" and b: "source (missions exStaleState ! 0) = Manual"
    and c: "droneRoutes (missions exStaleState ! 0) = [(''drone-01'', [112, 142])]"
    and d: "routeLampIds (missions exStaleState ! 0) = [112, 142]"
    by (simp_all add: exStaleState_def exState_def exMission_def)
  have e: "(missions exStaleState)[0 := (missions exStaleState ! 0)
             \<lparr>droneRoutes := [(''drone-01'', [142, 112])], routeLampIds := []\<rparr>]
           = [exMission 1000 Planned Manual [(''drone-01'', [142, 112])] [] []]"
    by (simp add: exStaleState_def exState_def exMission_def)
  from tryStartMission_no_route_not_atomic[OF a b exStale_fails]
  have "missions (snd (tryStartMission (Some 0) 5000 exStaleState))
          = [exMission 1000 Planned Manual [(''drone-01'', [142, 112])] [] []]"
    by (simp add: exStale_routes e)
  with a b c d exStale_fails show ?thesis by simp
qed


section \<open>The precondition checks of a start\<close>

text \<open>
  The checks come in the order of the source: no mission (404), a mission that is
  \<^verbatim>\<open>running\<close> or \<^verbatim>\<open>completed\<close> (400), and no ready drone (409). The first two
  leave the state alone. The third sets to \<^verbatim>\<open>charging\<close>, and moves to its dock, every
  drone whose battery is below 100, whatever the drone is doing.
\<close>

lemma tryStartMission_not_found: "tryStartMission None now s = (Some MissionNotFound, s)"
  by (simp add: tryStartMission_def)

lemma tryStartMission_invalid_state:
  "i < length (missions s) \<Longrightarrow> missionStatus (missions s ! i) \<noteq> Planned \<Longrightarrow>
   (\<exists>e. tryStartMission (Some i) now s = (Some e, s) \<and> statusCode e = 400)"
  by (cases "missionStatus (missions s ! i)") (simp_all add: tryStartMission_def Let_def)

lemma tryStartMission_no_ready:
  "i < length (missions s) \<Longrightarrow> missionStatus (missions s ! i) = Planned \<Longrightarrow>
   getReadyDronesForMission s = [] \<Longrightarrow>
   tryStartMission (Some i) now s =
     (Some NoReadyDrones,
      s\<lparr>drones := map (\<lambda>d. if battery d < 100
                            then moveDroneToDockIfAvailable (d\<lparr>droneStatus := Charging\<rparr>) s
                            else d) (drones s)\<rparr>)"
  by (simp add: tryStartMission_def Let_def)


text \<open>A drone in flight for a running mission, and a second mission that is planned.\<close>

definition exBusyState :: state where
  "exBusyState =
     (exState
        [(exDrone ''drone-01'')\<lparr>battery := 95, droneStatus := Enroute, targetLampId := Some 112,
                                 containerLampsRemaining := 4, position := \<lparr>lat = 1, lng = 0\<rparr>\<rparr>]
        [exLamp 142 1 Ok, exLamp 112 2 Replace, exLamp 129 3 Replace]
        [exMission 2000 Planned Manual [(''drone-01'', [129])] [129] [],
         exMission 1000 Running Manual [(''drone-01'', [142, 112])] [142, 112] [142]])
       \<lparr>runs := [\<lparr>runMissionRef = 0,
                   workers = [\<lparr>workerDrone = 0, queue = [], workerTarget = Some 112,
                                replaceStartedAt = 3000, replacedCount = 1,
                                returning = False, completed = False\<rparr>],
                   intervalActive = True\<rparr>],
         activeMissionTimers := [(1000, 0)]\<rparr>"

text \<open>
  Claim C2 says that without a ready drone only the under-charged idle drones are set to
  \<^verbatim>\<open>charging\<close> and every other drone keeps its status. Here the only drone is in the
  air for a running mission (\<^verbatim>\<open>enroute\<close> to lamp 112, battery 95 after one replacement)
  when a second, planned mission is started: the start fails with 409, and the flying
  drone is now \<^verbatim>\<open>charging\<close> at its dock, its target still set.
\<close>

theorem tryStartMission_flips_busy_drone:
  "map droneStatus (drones exBusyState) = [Enroute] \<and>
   map position (drones exBusyState) = [\<lparr>lat = 1, lng = 0\<rparr>] \<and>
   fst (tryStartMission (Some 0) 6000 exBusyState) = Some NoReadyDrones \<and>
   statusCode NoReadyDrones = 409 \<and>
   map droneStatus (drones (snd (tryStartMission (Some 0) 6000 exBusyState))) = [Charging] \<and>
   map position (drones (snd (tryStartMission (Some 0) 6000 exBusyState))) = [\<lparr>lat = 0, lng = 0\<rparr>] \<and>
   map targetLampId (drones (snd (tryStartMission (Some 0) 6000 exBusyState))) = [Some 112]"
  by (simp add: exBusyState_def evalDefs startDefs Let_def)


section \<open>The low-battery interruption\<close>

lemma getActiveDockIndex_cong:
  "boundDockId d' = boundDockId d \<Longrightarrow> docks s' = docks s \<Longrightarrow>
   getActiveDockIndex d' s' = getActiveDockIndex d s"
  by (simp add: getActiveDockIndex_def)

text \<open>
  Claim C7. On a tick of a worker that is not done, whose drone is operational, has a
  battery at or below the return threshold, has a target and is not replacing: the queue
  is emptied, the target is cleared on the worker and on the drone, and no lamp is
  touched. In the same tick the drone takes one step toward its dock. When the step does
  not reach the dock, the drone ends the tick \<^verbatim>\<open>enroute\<close>; when it does (or the drone has
  no dock), the worker is done and the drone ends the tick \<^verbatim>\<open>servicing\<close> (empty
  container, at a dock) or \<^verbatim>\<open>charging\<close>.
\<close>

theorem low_battery_interruption:
  assumes "workerDrone w < length (drones s)"
    and "\<not> completed w"
    and "isOperational (drones s ! workerDrone w)"
    and "battery (drones s ! workerDrone w) \<le> RETURN_TO_DOCK_BATTERY_THRESHOLD"
    and "workerTarget w \<noteq> None"
    and "droneStatus (drones s ! workerDrone w) \<noteq> Replacing"
  shows "let d = drones s ! workerDrone w;
             res = workerTick missionRef now energyRnd drainRnd w s;
             w' = fst res;
             d' = drones (snd res) ! workerDrone w
         in queue w' = [] \<and> workerTarget w' = None \<and> targetLampId d' = None \<and>
            lamps (snd res) = lamps s \<and>
            (case getActiveDock d s of
               None \<Rightarrow> completed w' \<and> droneStatus d' = Charging
             | Some dk \<Rightarrow>
                 if fst (moveDroneTowards d \<lparr>lat = lat dk, lng = lng dk\<rparr>)
                 then completed w' \<and>
                      droneStatus d' = (if containerLampsRemaining d \<le> 0 then Servicing else Charging)
                 else \<not> completed w' \<and> returning w' \<and> droneStatus d' = Enroute \<and>
                      position d' = position (snd (moveDroneTowards d \<lparr>lat = lat dk, lng = lng dk\<rparr>)))"
proof -
  let ?k = "workerDrone w"
  let ?d = "drones s ! ?k"
  let ?d1 = "?d\<lparr>targetLampId := None, droneStatus := Enroute\<rparr>"
  let ?s1 = "setDrone ?k ?d1 (addLog ''drone'' (ReturnForCharge (droneId ?d) (battery ?d)) now s)"
  let ?w1 = "w\<lparr>queue := [], workerTarget := None\<rparr>"
  from assms have i: "interruptIfLowBattery now w s = (?w1, ?s1)"
    by (simp add: interruptIfLowBattery_def Let_def)
  from assms i have t: "workerTick missionRef now energyRnd drainRnd w s = returnToDock now ?w1 ?s1"
    by (simp add: workerTick_def Let_def)
  have dk: "getActiveDockIndex ?d1 ?s1 = getActiveDockIndex ?d s"
    by (rule getActiveDockIndex_cong) (simp_all add: boundDockId_def setDrone_def addLog_def split: option.splits)
  have b: "battery ?d < 100" using assms(4) by (simp add: RETURN_TO_DOCK_BATTERY_THRESHOLD_def)
  show ?thesis
  proof (cases "getActiveDockIndex ?d s")
    case None
    with assms(1,2) dk b show ?thesis unfolding t
      by (simp add: returnToDock_def Let_def getActiveDock_def setDrone_def addLog_def restingStatus_def)
  next
    case (Some di)
    with assms(1,2) dk b show ?thesis unfolding t
      by (simp add: returnToDock_def Let_def getActiveDock_def setDrone_def addLog_def
            restingStatus_def moveDroneTowards_def)
  qed
qed


text \<open>
  A drone at 24% on its way to lamp 112, one lamp (129) still queued. One degree from the
  dock it turns back and is \<^verbatim>\<open>enroute\<close> after the tick. At the lamp it has just replaced,
  0.0005 degrees from the dock and so within one step of it, the same tick brings it home:
  it ends the tick \<^verbatim>\<open>charging\<close>, not \<^verbatim>\<open>enroute\<close>.
\<close>

definition exTiredDrone :: "real \<Rightarrow> drone" where
  "exTiredDrone la =
     (exDrone ''drone-01'')\<lparr>battery := 24, droneStatus := Enroute, targetLampId := Some 112,
                             containerLampsRemaining := 4, position := \<lparr>lat = la, lng = 0\<rparr>\<rparr>"

definition exTiredState :: "real \<Rightarrow> state" where
  "exTiredState la =
     exState [exTiredDrone la]
       [exLamp 142 (1 / 2000) Ok, exLamp 112 2 Replace, exLamp 129 3 Replace]
       [exMission 1000 Running Manual [(''drone-01'', [142, 112, 129])] [142, 112, 129] [142]]"

definition exTiredWorker :: worker where
  "exTiredWorker =
     \<lparr>workerDrone = 0, queue = [129], workerTarget = Some 112, replaceStartedAt = 3000,
      replacedCount = 1, returning = False, completed = False\<rparr>"

lemmas tiredDefs = exTiredState_def exTiredDrone_def exTiredWorker_def exState_def exDrone_def
  exLamp_def exMission_def exDock_def

theorem low_battery_interruption_witness:
  "workerDrone exTiredWorker < length (drones (exTiredState 1)) \<and>
   \<not> completed exTiredWorker \<and>
   isOperational (drones (exTiredState 1) ! workerDrone exTiredWorker) \<and>
   battery (drones (exTiredState 1) ! workerDrone exTiredWorker) \<le> RETURN_TO_DOCK_BATTERY_THRESHOLD \<and>
   workerTarget exTiredWorker \<noteq> None \<and>
   droneStatus (drones (exTiredState 1) ! workerDrone exTiredWorker) \<noteq> Replacing \<and>
   queue (fst (workerTick 0 9000 0 0 exTiredWorker (exTiredState 1))) = [] \<and>
   workerTarget (fst (workerTick 0 9000 0 0 exTiredWorker (exTiredState 1))) = None \<and>
   targetLampId (drones (snd (workerTick 0 9000 0 0 exTiredWorker (exTiredState 1))) ! 0) = None \<and>
   lamps (snd (workerTick 0 9000 0 0 exTiredWorker (exTiredState 1))) = lamps (exTiredState 1) \<and>
   \<not> completed (fst (workerTick 0 9000 0 0 exTiredWorker (exTiredState 1))) \<and>
   droneStatus (drones (snd (workerTick 0 9000 0 0 exTiredWorker (exTiredState 1))) ! 0) = Enroute"
proof -
  have h1: "workerDrone exTiredWorker < length (drones (exTiredState 1))"
    and h2: "\<not> completed exTiredWorker"
    and h3: "isOperational (drones (exTiredState 1) ! workerDrone exTiredWorker)"
    and h4: "battery (drones (exTiredState 1) ! workerDrone exTiredWorker) \<le> RETURN_TO_DOCK_BATTERY_THRESHOLD"
    and h5: "workerTarget exTiredWorker \<noteq> None"
    and h6: "droneStatus (drones (exTiredState 1) ! workerDrone exTiredWorker) \<noteq> Replacing"
    by (simp_all add: tiredDefs RETURN_TO_DOCK_BATTERY_THRESHOLD_def)
  have dk: "getActiveDock (drones (exTiredState 1) ! workerDrone exTiredWorker) (exTiredState 1) = Some exDock"
    by (simp add: tiredDefs getActiveDock_def getActiveDockIndex_def boundDockId_def)
  have mv: "\<not> fst (moveDroneTowards (drones (exTiredState 1) ! workerDrone exTiredWorker)
                     \<lparr>lat = lat exDock, lng = lng exDock\<rparr>)"
    by (simp add: tiredDefs moveDroneTowards_def DRONE_STEP_DEG_def Let_def)
  have k: "workerDrone exTiredWorker = 0" by (simp add: exTiredWorker_def)
  from low_battery_interruption[OF h1 h2 h3 h4 h5 h6, of 0 9000 0 0] dk mv k h1 h2 h3 h4 h5 h6
  show ?thesis by (simp add: Let_def)
qed

lemma sqrt_near: "sqrt (1 / 4000000) = 1 / 2000"
proof -
  have "sqrt ((1 / 2000)\<^sup>2) = \<bar>1 / 2000 :: real\<bar>" by (rule real_sqrt_abs)
  moreover have "(1 / 2000)\<^sup>2 = (1 / 4000000 :: real)" by (simp add: power2_eq_square)
  ultimately show ?thesis by simp
qed

theorem low_battery_interruption_at_dock:
  "workerDrone exTiredWorker < length (drones (exTiredState (1 / 2000))) \<and>
   \<not> completed exTiredWorker \<and>
   isOperational (drones (exTiredState (1 / 2000)) ! workerDrone exTiredWorker) \<and>
   battery (drones (exTiredState (1 / 2000)) ! workerDrone exTiredWorker) \<le> RETURN_TO_DOCK_BATTERY_THRESHOLD \<and>
   workerTarget exTiredWorker \<noteq> None \<and>
   droneStatus (drones (exTiredState (1 / 2000)) ! workerDrone exTiredWorker) \<noteq> Replacing \<and>
   droneStatus (drones (snd (workerTick 0 9000 0 0 exTiredWorker (exTiredState (1 / 2000)))) ! 0) = Charging \<and>
   droneStatus (drones (snd (workerTick 0 9000 0 0 exTiredWorker (exTiredState (1 / 2000)))) ! 0) \<noteq> Enroute \<and>
   completed (fst (workerTick 0 9000 0 0 exTiredWorker (exTiredState (1 / 2000))))"
  by (simp add: tiredDefs tickDefs Let_def getActiveDockIndex_def boundDockId_def addLog_def sqrt_near)


section \<open>A failed auto-service dispatch\<close>

lemma scanPlan_cong:
  "lamps s' = lamps s \<Longrightarrow> scanPlan s' plan maxCount index lampIds = scanPlan s plan maxCount index lampIds"
proof (induction s plan maxCount index lampIds rule: scanPlan.induct)
  case (1 s plan maxCount index lampIds)
  have f: "\<And>x. findLamp x s' = findLamp x s" using "1.prems" by (simp add: findLamp_def)
  show ?case
  proof (cases "index < length plan \<and> int (length lampIds) < maxCount")
    case True
    let ?next = "case findLamp (plan ! index) s of
                   Some l \<Rightarrow> if lampStatus l = Replace then lampIds @ [plan ! index] else lampIds
                 | None \<Rightarrow> lampIds"
    have a: "scanPlan s' plan maxCount index lampIds = scanPlan s' plan maxCount (index + 1) ?next"
      using True by (subst scanPlan.simps) (simp add: Let_def f)
    have b: "scanPlan s plan maxCount index lampIds = scanPlan s plan maxCount (index + 1) ?next"
      using True by (subst scanPlan.simps) (simp add: Let_def)
    from "1.IH"[OF True refl "1.prems"] a b show ?thesis by simp
  next
    case False
    have a: "scanPlan s' plan maxCount index lampIds = (lampIds, index)"
      using False by (subst scanPlan.simps) auto
    have b: "scanPlan s plan maxCount index lampIds = (lampIds, index)"
      using False by (subst scanPlan.simps) auto
    from a b show ?thesis by simp
  qed
qed

lemma buildAutoServiceDispatch_cong:
  assumes "lamps s' = lamps s" and "autoServiceProgress s' = autoServiceProgress s"
  shows "buildAutoServiceDispatch s' ds = buildAutoServiceDispatch s ds"
proof -
  have "planForDrone s' = planForDrone s"
    using assms(2) by (intro ext) (simp add: planForDrone_def findNextPlannedLampsForDrone_def scanPlan_cong[OF assms(1)])
  then show ?thesis by (simp add: buildAutoServiceDispatch_def)
qed

lemma getReadyDronesForMission_cong:
  "drones s' = drones s \<Longrightarrow> getReadyDronesForMission s' = getReadyDronesForMission s"
  by (simp add: getReadyDronesForMission_def)


lemma recomputeRoutes_keeps [simp]:
  "source (recomputeRoutes s ds m) = source m"
  "missionStatus (recomputeRoutes s ds m) = missionStatus m"
  "missionId (recomputeRoutes s ds m) = missionId m"
  "completedLampIds (recomputeRoutes s ds m) = completedLampIds m"
  by (simp_all add: recomputeRoutes_def Let_def)

text \<open>A start that fails although a drone is ready changes nothing but the mission it was given.\<close>

lemma tryStartMission_failed_frame:
  assumes "fst (tryStartMission (Some i) now s) = Some err"
    and "getReadyDronesForMission s \<noteq> []"
    and "i < length (missions s)"
    and "missionStatus (missions s ! i) = Planned"
  shows "snd (tryStartMission (Some i) now s) =
           s\<lparr>missions := (missions s)[i :=
               (recomputeRoutes s (map (\<lambda>k. drones s ! k) (getReadyDronesForMission s)) (missions s ! i))
                 \<lparr>routeLampIds := concat (map snd
                    (activeRoutesFor s (map (\<lambda>k. drones s ! k) (getReadyDronesForMission s))
                       (recomputeRoutes s (map (\<lambda>k. drones s ! k) (getReadyDronesForMission s))
                          (missions s ! i))))\<rparr>]\<rparr>"
  using assms by (simp add: tryStartMission_def Let_def split: if_splits)

text \<open>
  What a failed start leaves behind, on any state: the plan cursors and the cooldown clock
  \<^verbatim>\<open>lastAutoDispatchAt\<close> are the ones from before the dispatch (both are written in the
  success branch only), and the last log entry is the error; the gates of the dispatcher
  are then open for the next call.
\<close>

lemma autoServiceDispatch_failed:
  assumes "fst (autoServiceDispatch now s) = DispatchFailed err"
  shows "autoServiceProgress (tryAutoServiceDispatch now s) = autoServiceProgress s \<and>
         lastAutoDispatchAt (tryAutoServiceDispatch now s) = lastAutoDispatchAt s \<and>
         last (logs (tryAutoServiceDispatch now s))
           = \<lparr>logType = ''error'', message = AutoServiceFailed now (statusCode err), timestamp = now\<rparr> \<and>
         (\<forall>later \<ge> now. fst (autoServiceDispatch later (tryAutoServiceDispatch now s)) \<noteq> NoDispatch)"
proof -
  let ?ready = "map (\<lambda>k. drones s ! k) (getReadyDronesForMission s)"
  let ?plan = "buildAutoServiceDispatch s ?ready"
  let ?s1 = "createMission (dispatchRouteLampIds ?plan) (dispatchDroneRoutes ?plan) AutoService now s"
  from assms have en: "autoServiceEnabled s" and cool: "\<not> now - lastAutoDispatchAt s < AUTO_DISPATCH_COOLDOWN_MS"
    and man: "\<not> list_ex (\<lambda>m. source m = Manual \<and> (missionStatus m = Planned \<or> missionStatus m = Running)) (missions s)"
    and rdy: "getReadyDronesForMission s \<noteq> []"
    and pl: "dispatchRouteLampIds ?plan \<noteq> []"
    by (auto simp: autoServiceDispatch_def Let_def split: if_splits)
  from assms en cool man rdy pl have f: "fst (tryStartMission (Some 0) now ?s1) = Some err"
    by (auto simp: autoServiceDispatch_def Let_def split: if_splits option.splits)
  have s1: "missions ?s1 ! 0 = \<lparr>missionId = now, createdAt = now, startedAt = None, finishedAt = None,
                       missionStatus = Planned, source = AutoService,
                       droneRoutes = dispatchDroneRoutes ?plan, routeLampIds = dispatchRouteLampIds ?plan,
                       completedLampIds = []\<rparr>"
    and s1d: "drones ?s1 = drones s" and s1l: "0 < length (missions ?s1)"
    and s1m: "tl (missions ?s1) = missions s"
    by (simp_all add: createMission_def addLog_def Let_def)
  have r1: "getReadyDronesForMission ?s1 \<noteq> []"
    using rdy getReadyDronesForMission_cong[OF s1d] by simp
  have p1: "missionStatus (missions ?s1 ! 0) = Planned" by (simp add: s1)
  note frame = tryStartMission_failed_frame[OF f r1 s1l p1]
  have res: "tryAutoServiceDispatch now s
               = addLog ''error'' (AutoServiceFailed now (statusCode err)) now (snd (tryStartMission (Some 0) now ?s1))"
    using en cool man rdy pl f
    by (simp add: tryAutoServiceDispatch_def autoServiceDispatch_def Let_def s1)
  let ?s' = "tryAutoServiceDispatch now s"
  have a: "autoServiceProgress ?s' = autoServiceProgress s"
    and b: "lastAutoDispatchAt ?s' = lastAutoDispatchAt s"
    and c: "last (logs ?s') = \<lparr>logType = ''error'', message = AutoServiceFailed now (statusCode err), timestamp = now\<rparr>"
    and d: "drones ?s' = drones s" and l: "lamps ?s' = lamps s" and e: "autoServiceEnabled ?s' = autoServiceEnabled s"
    unfolding res frame by (simp_all add: addLog_def createMission_def Let_def)
  have ms: "\<exists>m'. missions ?s' = m' # missions s \<and> source m' = AutoService"
    unfolding res frame using s1
    by (cases "missions ?s1") (simp_all add: addLog_def createMission_def Let_def)
  have again: "fst (autoServiceDispatch later ?s') \<noteq> NoDispatch" if "later \<ge> now" for later
  proof -
    from that cool b have cool': "\<not> later - lastAutoDispatchAt ?s' < AUTO_DISPATCH_COOLDOWN_MS" by simp
    from ms man have man': "\<not> list_ex (\<lambda>m. source m = Manual \<and> (missionStatus m = Planned \<or> missionStatus m = Running)) (missions ?s')"
      by auto
    have rdy': "getReadyDronesForMission ?s' = getReadyDronesForMission s"
      by (rule getReadyDronesForMission_cong[OF d])
    have pl': "buildAutoServiceDispatch ?s' (map (\<lambda>k. drones ?s' ! k) (getReadyDronesForMission ?s')) = ?plan"
      unfolding rdy' d by (rule buildAutoServiceDispatch_cong[OF l a])
    show ?thesis
      using en e cool' man' rdy rdy' pl pl'
      by (simp add: autoServiceDispatch_def Let_def split: option.splits)
  qed
  from a b c again show ?thesis by blast
qed


section \<open>Capacity-aware assignment\<close>




lemma keys_objSet: "fst ` set (objSet key v m) = insert key (fst ` set m)"
  by (auto simp: objSet_def image_iff split: if_splits prod.splits) force+


text \<open>The sort keeps the elements, whatever the comparator answers.\<close>

lemma set_insertSorted [simp]: "set (insertSorted c x xs) = insert x (set xs)"
  by (induction xs) auto















lemma assignLamp_cases:
  "(selectDrone fp ds (snd acc) l = None \<and> assignLamp fp ds l acc = acc) \<or>
   (\<exists>d. selectDrone fp ds (snd acc) l = Some d \<and>
        assignLamp fp ds l acc =
          (objSet (droneId d) (routeOf (droneId d) (fst acc) @ [l]) (fst acc),
           objSet (droneId d) (capacityOf (droneId d) (snd acc) - 1) (snd acc)))"
  by (cases "selectDrone fp ds (snd acc) l") (simp_all add: assignLamp_def)







lemma mset_greedyRoute: "mset (greedyRoute fp remaining route current) = mset remaining + mset route"
proof (induction fp remaining route current rule: greedyRoute.induct)
  case (1 fp remaining route current)
  show ?case
  proof (cases "remaining = []")
    case True
    then show ?thesis by (subst greedyRoute.simps) simp
  next
    case False
    let ?i = "nearestIndex fp current remaining"
    from False have i: "?i < length remaining" by (rule nearestIndex_less)
    have "greedyRoute fp remaining route current =
            greedyRoute fp (removeAt ?i remaining) (route @ [remaining ! ?i])
              \<lparr>lat = lat (remaining ! ?i), lng = lng (remaining ! ?i)\<rparr>"
      using False by (subst greedyRoute.simps) (simp add: Let_def)
    with "1.IH"[OF False refl refl] mset_removeAt[OF i] show ?thesis by simp
  qed
qed

lemma mset_nearestNeighborRoute: "mset (nearestNeighborRoute fp points start) = mset points"
  using bruteForceBestRoute_optimal[where fp = fp and points = points and s = start]
  by (simp add: nearestNeighborRoute_def mset_greedyRoute)






























section \<open>2-opt against nearest neighbour\<close>

lemma twoOptLoop_improves:
  "mset (twoOptLoop fp r d s) = mset r \<and>
   (d = routeDistance fp r s \<longrightarrow>
      twoOptLoop fp r d s = r \<or> lessNum (routeDistance fp (twoOptLoop fp r d s) s) d)"
proof (induction fp r d s rule: twoOptLoop.induct)
  case (1 fp r d s)
  obtain r' d' improved where pass: "twoOptPass fp r d s = (r', d', improved)"
    by (cases "twoOptPass fp r d s") auto
  from twoOptPass_inv[of fp r d s] pass
  have m: "mset r' = mset r"
    and i: "improved \<Longrightarrow> d' = routeDistance fp r' s \<and> lessNum d' d"
    and n: "\<not> improved \<Longrightarrow> r' = r \<and> d' = d"
    by (auto simp: passInv_def)
  show ?case
  proof (cases improved)
    case True
    then have eq: "twoOptLoop fp r d s = twoOptLoop fp r' d' s"
      using pass by (subst twoOptLoop.simps) simp
    from "1.IH"[OF pass[symmetric] refl True] i[OF True] m show ?thesis
      unfolding eq by (auto intro: lessNum_trans)
  next
    case False
    then have eq: "twoOptLoop fp r d s = r'"
      using pass by (subst twoOptLoop.simps) simp
    from n[OF False] show ?thesis unfolding eq by simp
  qed
qed

text \<open>
  Claim C6, as far as it holds. The joint optimizer ends by replacing each drone's route
  (built by seeding and cheapest insertion) by \<open>twoOptRoute\<close> of it. That route is a
  permutation of the one it was given and is never longer, for any route and start
  position: it is the route given, or the distance computed for it is smaller; when the
  distance of the route given is a number, that of the result is a number not larger,
  and otherwise the result is the route given. It is compared with the route 2-opt
  started from, not with the nearest-neighbour route.
\<close>

theorem twoOptRoute_never_longer:
  "mset (twoOptRoute fp route startPosition) = mset route \<and>
   (twoOptRoute fp route startPosition = route \<or>
    lessNum (routeDistance fp (twoOptRoute fp route startPosition) startPosition)
            (routeDistance fp route startPosition)) \<and>
   (case routeDistance fp route startPosition of
      Num x \<Rightarrow> (\<exists>y. routeDistance fp (twoOptRoute fp route startPosition) startPosition = Num y \<and> y \<le> x)
    | _ \<Rightarrow> twoOptRoute fp route startPosition = route)"
proof -
  let ?r = "twoOptRoute fp route startPosition"
  let ?d = "routeDistance fp route startPosition"
  let ?d' = "routeDistance fp ?r startPosition"
  from twoOptLoop_improves[of fp route ?d startPosition]
  have m: "mset ?r = mset route" and c: "?r = route \<or> lessNum ?d' ?d"
    by (simp_all add: twoOptRoute_def)
  from routeDistance_cases[of fp route startPosition]
  consider (nan) "?d = NaN" | (num) x where "?d = Num x"
    by (auto simp: isNum_iff)
  then have "case ?d of Num x \<Rightarrow> (\<exists>y. ?d' = Num y \<and> y \<le> x) | _ \<Rightarrow> ?r = route"
  proof cases
    case nan
    with c show ?thesis by simp
  next
    case num
    from routeDistance_cases[of fp ?r startPosition]
    consider (nan') "?d' = NaN" | (num') y where "?d' = Num y"
      by (auto simp: isNum_iff)
    then show ?thesis
    proof cases
      case nan'
      with c num show ?thesis by auto
    next
      case num'
      with c num show ?thesis by auto
    qed
  qed
  with m c show ?thesis by simp
qed

text \<open>
  Four lamps on the meridian of a drone at latitude 0, at latitudes 1, -1, -2 and -3.
  Seeding takes the lamp at 1, cheapest insertion puts -1, -2 and -3 in front of it, and
  2-opt, which never moves the last stop, finds nothing to reverse: the optimized route
  -3, -2, -1, 1 is 7 degrees long. \<open>nearestNeighborRoute\<close> (exact for four points) and
  the greedy nearest-neighbour order both give 1, -1, -2, -3, which is 5 degrees long.
\<close>

definition exFourLamps :: "lamp list" where
  "exFourLamps = [exLamp 101 1 Replace, exLamp 102 (- 1) Replace,
                  exLamp 103 (- 2) Replace, exLamp 104 (- 3) Replace]"

lemmas jointDefs = optimizedRoutes_def seedBest_def insertBest_def bestInsertionDelta_def
  twoOptRoute_def twoOptPass_def reverseSegment_def subNum_def routeOf_def
  objGet_def objSet_def removeAt_def routeDistance_def

lemma exFour_seed:
  "seedLoop exactArithmetic [exDrone ''drone-01''] exFourLamps [(''drone-01'', [])] =
     ([exLamp 102 (- 1) Replace, exLamp 103 (- 2) Replace, exLamp 104 (- 3) Replace],
      [(''drone-01'', [exLamp 101 1 Replace])])"
  using kmPerDegree_pos
  by (simp add: exFourLamps_def exDrone_def exLamp_def jointDefs seedLoop.simps Let_def
        geoDistance_meridian)


lemma exFour_insert:
  "insertLoop exactArithmetic [exDrone ''drone-01'']
     [exLamp 102 (- 1) Replace, exLamp 103 (- 2) Replace, exLamp 104 (- 3) Replace]
     [(''drone-01'', [exLamp 101 1 Replace])] =
     [(''drone-01'', [exLamp 104 (- 3) Replace, exLamp 103 (- 2) Replace,
                      exLamp 102 (- 1) Replace, exLamp 101 1 Replace])]"
  using kmPerDegree_pos
  by (simp add: exDrone_def exLamp_def jointDefs insertLoop.simps Let_def geoDistance_meridian)

lemma exFour_twoOpt:
  "twoOptRoute exactArithmetic [exLamp 104 (- 3) Replace, exLamp 103 (- 2) Replace,
                exLamp 102 (- 1) Replace, exLamp 101 1 Replace] \<lparr>lat = 0, lng = 0\<rparr> =
     [exLamp 104 (- 3) Replace, exLamp 103 (- 2) Replace,
      exLamp 102 (- 1) Replace, exLamp 101 1 Replace]"
  using kmPerDegree_pos
  by (simp add: exLamp_def jointDefs twoOptLoop.simps Let_def geoDistance_meridian)

lemma exFour_optimized:
  "optimizedRoutes exactArithmetic exFourLamps [exDrone ''drone-01''] =
     [(''drone-01'', [exLamp 104 (- 3) Replace, exLamp 103 (- 2) Replace,
                      exLamp 102 (- 1) Replace, exLamp 101 1 Replace])]"
proof -
  have a: "filter isOperational [exDrone ''drone-01''] = [exDrone ''drone-01'']"
    and b: "droneId (exDrone ''drone-01'') = ''drone-01''"
    and c: "position (exDrone ''drone-01'') = \<lparr>lat = 0, lng = 0\<rparr>"
    and d: "exFourLamps \<noteq> []"
    by (simp_all add: exDrone_def exFourLamps_def)
  show ?thesis
    unfolding optimizedRoutes_def Let_def a
    by (simp add: b c d objSet_def routeOf_def objGet_def exFour_seed exFour_insert exFour_twoOpt)
qed


lemma exFour_greedy:
  "greedyRoute exactArithmetic exFourLamps [] \<lparr>lat = 0, lng = 0\<rparr> = exFourLamps"
  using kmPerDegree_pos
  by (simp add: exFourLamps_def exLamp_def greedyRoute.simps nearestIndex_def removeAt_def
        Let_def geoDistance_meridian)

theorem joint_optimizer_longer_than_nearest_neighbor:
  "4 \<le> length exFourLamps \<and>
   greedyRoute exactArithmetic exFourLamps [] \<lparr>lat = 0, lng = 0\<rparr> = exFourLamps \<and>
   routeDistance exactArithmetic exFourLamps (position (exDrone ''drone-01'')) = Num (kmPerDegree * 5) \<and>
   planDroneRoutes (optimizeMultiDroneRoutes exactArithmetic exFourLamps [exDrone ''drone-01''])
     = [(''drone-01'', [104, 103, 102, 101])] \<and>
   routeDistance exactArithmetic (routeOf ''drone-01'' (optimizedRoutes exactArithmetic exFourLamps [exDrone ''drone-01'']))
       (position (exDrone ''drone-01'')) = Num (kmPerDegree * 7) \<and>
   (\<exists>y. routeDistance exactArithmetic
          (nearestNeighborRoute exactArithmetic exFourLamps (position (exDrone ''drone-01'')))
          (position (exDrone ''drone-01'')) = Num y \<and> y \<le> kmPerDegree * 5) \<and>
   lessNum
     (routeDistance exactArithmetic
        (nearestNeighborRoute exactArithmetic exFourLamps (position (exDrone ''drone-01'')))
        (position (exDrone ''drone-01'')))
     (routeDistance exactArithmetic
        (routeOf ''drone-01'' (optimizedRoutes exactArithmetic exFourLamps [exDrone ''drone-01'']))
        (position (exDrone ''drone-01'')))"
proof -
  let ?p = "position (exDrone ''drone-01'')"
  have p: "?p = \<lparr>lat = 0, lng = 0\<rparr>" by (simp add: exDrone_def)
  have len: "4 \<le> length exFourLamps" by (simp add: exFourLamps_def)
  have ids: "planDroneRoutes (optimizeMultiDroneRoutes exactArithmetic exFourLamps [exDrone ''drone-01''])
               = [(''drone-01'', [104, 103, 102, 101])]"
    by (simp add: optimizeMultiDroneRoutes_def exFour_optimized exLamp_def)
  have opt: "routeDistance exactArithmetic
               (routeOf ''drone-01'' (optimizedRoutes exactArithmetic exFourLamps [exDrone ''drone-01''])) ?p
               = Num (kmPerDegree * 7)"
    unfolding exFour_optimized p
    by (simp add: routeOf_def objGet_def routeDistance_def exLamp_def geoDistance_meridian algebra_simps)
  have inp: "routeDistance exactArithmetic exFourLamps ?p = Num (kmPerDegree * 5)"
    unfolding p
    by (simp add: exFourLamps_def routeDistance_def exLamp_def geoDistance_meridian algebra_simps)
  have "nearestNeighborRoute exactArithmetic exFourLamps ?p = bruteForceBestRoute exactArithmetic exFourLamps ?p"
    by (simp add: nearestNeighborRoute_def MAX_EXACT_POINTS_def exFourLamps_def)
  with bruteForceBestRoute_optimal[of exactArithmetic exFourLamps ?p] inp
  obtain y where nn: "routeDistance exactArithmetic (nearestNeighborRoute exactArithmetic exFourLamps ?p) ?p = Num y"
    and le: "y \<le> kmPerDegree * 5"
    by (metis (no_types, lifting))
  from le kmPerDegree_pos have "y < kmPerDegree * 7" by simp
  then have "lessNum (routeDistance exactArithmetic (nearestNeighborRoute exactArithmetic exFourLamps ?p) ?p)
          (routeDistance exactArithmetic
             (routeOf ''drone-01'' (optimizedRoutes exactArithmetic exFourLamps [exDrone ''drone-01''])) ?p)"
    by (simp only: nn opt lessNum.simps)
  with len ids opt nn le inp exFour_greedy show ?thesis by blast
qed



section \<open>No lamp is pending in two running missions\<close>

text \<open>
  Lamps that a running mission still has to replace: its route without the lamps it has
  completed, as \<^verbatim>\<open>getOccupiedLampIds\<close> reads them.
\<close>

definition pendingLampIds :: "mission \<Rightarrow> int list" where
  "pendingLampIds m = filter (\<lambda>l. l \<notin> set (completedLampIds m)) (routeLampIds m)"

definition noSharedPendingIn :: "mission list \<Rightarrow> bool" where
  "noSharedPendingIn ms =
     (\<forall>i < length ms. \<forall>j < length ms. i \<noteq> j \<longrightarrow>
        missionStatus (ms ! i) = Running \<longrightarrow> missionStatus (ms ! j) = Running \<longrightarrow>
        set (pendingLampIds (ms ! i)) \<inter> set (pendingLampIds (ms ! j)) = {})"

definition noSharedPending :: "state \<Rightarrow> bool" where
  "noSharedPending s = noSharedPendingIn (missions s)"

definition distinctMissionIds :: "state \<Rightarrow> bool" where
  "distinctMissionIds s = distinct (map missionId (missions s))"

text \<open>How a tick may change the missions: none appears, starts or changes its id or route; lamps are only added to the completed ones.\<close>

definition evolve :: "mission list \<Rightarrow> mission list \<Rightarrow> bool" where
  "evolve ms ms' =
     (length ms' = length ms \<and>
      (\<forall>p < length ms. missionId (ms' ! p) = missionId (ms ! p) \<and>
          routeLampIds (ms' ! p) = routeLampIds (ms ! p) \<and>
          set (completedLampIds (ms ! p)) \<subseteq> set (completedLampIds (ms' ! p)) \<and>
          (missionStatus (ms' ! p) = Running \<longrightarrow> missionStatus (ms ! p) = Running)))"

lemma evolve_refl [simp]: "evolve ms ms"
  by (simp add: evolve_def)

lemma evolve_trans: "evolve a b \<Longrightarrow> evolve b c \<Longrightarrow> evolve a c"
  unfolding evolve_def by (auto; blast)

lemma evolve_update:
  assumes "missionId m' = missionId (ms ! p)" and "routeLampIds m' = routeLampIds (ms ! p)"
    and "set (completedLampIds (ms ! p)) \<subseteq> set (completedLampIds m')"
    and "missionStatus m' = Running \<longrightarrow> missionStatus (ms ! p) = Running"
  shows "evolve ms (ms[p := m'])"
  unfolding evolve_def
proof (intro conjI allI impI)
  show "length (ms[p := m']) = length ms" by simp
next
  fix q assume "q < length ms"
  then show "missionId (ms[p := m'] ! q) = missionId (ms ! q)"
    using assms(1) by (cases "q = p") simp_all
next
  fix q assume "q < length ms"
  then show "routeLampIds (ms[p := m'] ! q) = routeLampIds (ms ! q)"
    using assms(2) by (cases "q = p") simp_all
next
  fix q assume "q < length ms"
  then show "set (completedLampIds (ms ! q)) \<subseteq> set (completedLampIds (ms[p := m'] ! q))"
    using assms(3) by (cases "q = p") simp_all
next
  fix q assume "q < length ms" and "missionStatus (ms[p := m'] ! q) = Running"
  then show "missionStatus (ms ! q) = Running"
    using assms(4) by (cases "q = p") simp_all
qed

lemma evolve_noShared:
  assumes "evolve ms ms'" and "noSharedPendingIn ms"
  shows "noSharedPendingIn ms'"
proof -
  have sub: "set (pendingLampIds (ms' ! p)) \<subseteq> set (pendingLampIds (ms ! p))" if "p < length ms" for p
    using assms(1) that unfolding evolve_def pendingLampIds_def by auto
  show ?thesis
    unfolding noSharedPendingIn_def
  proof (intro allI impI)
    fix i j
    assume i: "i < length ms'" and j: "j < length ms'" and ne: "i \<noteq> j"
      and ri: "missionStatus (ms' ! i) = Running" and rj: "missionStatus (ms' ! j) = Running"
    from assms(1) i j have i': "i < length ms" and j': "j < length ms" by (simp_all add: evolve_def)
    from assms(1) i' j' ri rj have "missionStatus (ms ! i) = Running" "missionStatus (ms ! j) = Running"
      by (simp_all add: evolve_def)
    with assms(2) i' j' ne have "set (pendingLampIds (ms ! i)) \<inter> set (pendingLampIds (ms ! j)) = {}"
      by (simp add: noSharedPendingIn_def)
    with sub[OF i'] sub[OF j'] show "set (pendingLampIds (ms' ! i)) \<inter> set (pendingLampIds (ms' ! j)) = {}"
      by blast
  qed
qed

lemma evolve_ids: "evolve ms ms' \<Longrightarrow> map missionId ms' = map missionId ms"
  by (auto simp: evolve_def list_eq_iff_nth_eq)


lemma missions_setDrone [simp]: "missions (setDrone k d s) = missions s"
  by (simp add: setDrone_def)

lemma missions_addLog [simp]: "missions (addLog t m now s) = missions s"
  by (simp add: addLog_def)

lemma missions_dropTarget [simp]: "missions (snd (dropTarget w s)) = missions s"
  by (simp add: dropTarget_def)

lemma missions_interrupt [simp]: "missions (snd (interruptIfLowBattery now w s)) = missions s"
  by (simp add: interruptIfLowBattery_def Let_def)

lemma missions_takeNext [simp]: "missions (snd (takeNext w s)) = missions s"
  by (simp add: takeNext_def split: list.splits)

lemma missions_returnToDock [simp]: "missions (snd (returnToDock now w s)) = missions s"
  by (simp add: returnToDock_def Let_def split: option.splits)

lemma evolve_serveTarget:
  "evolve (missions s) (missions (snd (serveTarget missionRef now energyRnd drainRnd target w s)))"
proof -
  let ?mp = "missionPos missionRef s"
  let ?ms = "missions s"
  have "missions (snd (serveTarget missionRef now energyRnd drainRnd target w s)) = ?ms \<or>
        (\<exists>l. missions (snd (serveTarget missionRef now energyRnd drainRnd target w s))
               = ?ms[?mp := (?ms ! ?mp)\<lparr>completedLampIds := completedLampIds (?ms ! ?mp) @ [l]\<rparr>])"
    by (auto simp: serveTarget_def Let_def split: option.splits)
  then show ?thesis
  proof
    assume "missions (snd (serveTarget missionRef now energyRnd drainRnd target w s)) = ?ms"
    then show ?thesis by simp
  next
    assume "\<exists>l. missions (snd (serveTarget missionRef now energyRnd drainRnd target w s))
               = ?ms[?mp := (?ms ! ?mp)\<lparr>completedLampIds := completedLampIds (?ms ! ?mp) @ [l]\<rparr>]"
    then obtain l where "missions (snd (serveTarget missionRef now energyRnd drainRnd target w s))
               = ?ms[?mp := (?ms ! ?mp)\<lparr>completedLampIds := completedLampIds (?ms ! ?mp) @ [l]\<rparr>]" ..
    then show ?thesis by (simp only:) (rule evolve_update, auto)
  qed
qed

lemma evolve_workerTick:
  "evolve (missions s) (missions (snd (workerTick missionRef now energyRnd drainRnd w s)))"
proof -
  have "evolve (missions (snd (interruptIfLowBattery now w s)))
          (missions (snd (serveTarget missionRef now energyRnd drainRnd target
             (fst (interruptIfLowBattery now w s)) (snd (interruptIfLowBattery now w s)))))" for target
    by (rule evolve_serveTarget)
  then show ?thesis
    by (simp add: workerTick_def Let_def split: option.splits)
qed

lemma evolve_tickWorkers:
  "evolve (missions s) (missions (snd (tickWorkers missionRef now energyRnd drainRnd n ws s)))"
proof (induction ws arbitrary: n s)
  case Nil
  then show ?case by simp
next
  case (Cons w ws)
  show ?case
    using evolve_trans[OF evolve_workerTick Cons.IH]
    by (simp add: Let_def)
qed

lemma evolve_completeMission: "evolve (missions s) (missions (completeMission r now s))"
proof -
  let ?mp = "missionPos (runMissionRef (runs s ! r)) s"
  let ?m = "missions s ! ?mp"
  have "missions (completeMission r now s)
          = (missions s)[?mp := ?m\<lparr>missionStatus := Completed, finishedAt := Some now\<rparr>]"
    by (simp add: completeMission_def Let_def split: option.splits)
  then show ?thesis by (simp only:) (rule evolve_update, auto)
qed

lemma evolve_missionTick: "evolve (missions s) (missions (missionTick r now energyRnd drainRnd s))"
proof (cases "r \<ge> length (runs s) \<or> \<not> intervalActive (runs s ! r)")
  case True
  then show ?thesis by (simp add: missionTick_def)
next
  case False
  let ?run = "runs s ! r"
  let ?t = "tickWorkers (runMissionRef ?run) now energyRnd drainRnd 0 (workers ?run) s"
  let ?s1 = "(snd ?t)\<lparr>runs := (runs (snd ?t))[r := ?run\<lparr>workers := fst ?t\<rparr>]\<rparr>"
  have a: "evolve (missions s) (missions ?s1)" using evolve_tickWorkers[of s] by simp
  have b: "evolve (missions ?s1) (missions (completeMission r now ?s1))" by (rule evolve_completeMission)
  from False a evolve_trans[OF a b] show ?thesis
    by (simp add: missionTick_def Let_def)
qed

text \<open>What \<^verbatim>\<open>tryStartMission\<close> lets onto a route: a lamp that is not occupied and is in status \<^verbatim>\<open>replace\<close>.\<close>

definition admissible :: "state \<Rightarrow> int set \<Rightarrow> int \<Rightarrow> bool" where
  "admissible s occupiedLampIds l =
     (l \<notin> occupiedLampIds \<and> (\<exists>lp. lampById s l = Some lp \<and> lampStatus lp = Replace))"

lemma filterRoute_props:
  "distinct (fst (filterRoute s occ route A)) \<and>
   set (fst (filterRoute s occ route A)) \<inter> A = {} \<and>
   snd (filterRoute s occ route A) = A \<union> set (fst (filterRoute s occ route A)) \<and>
   (\<forall>l \<in> set (fst (filterRoute s occ route A)). admissible s occ l)"
proof -
  let ?P = "\<lambda>acc :: int list \<times> int set.
              distinct (fst acc) \<and> set (fst acc) \<inter> A = {} \<and> snd acc = A \<union> set (fst acc) \<and>
              (\<forall>l \<in> set (fst acc). admissible s occ l)"
  have "?P (filterRoute s occ route A)"
    unfolding filterRoute_def
  proof (rule fold_invariant[where P = ?P], goal_cases)
    case 1
    show ?case by simp
  next
    case (2 x acc)
    obtain kept assigned where acc: "acc = (kept, assigned)" by (cases acc)
    with 2(2) show ?case
      by (auto simp: admissible_def split: option.splits)
  qed
  then show ?thesis .
qed

lemma concat_upd_subset:
  "set (concat (map snd (map (\<lambda>(k, old). if k = key then (k, v) else (k, old)) m)))
     \<subseteq> set v \<union> set (concat (map snd m))"
  by (induction m) (auto split: if_splits)

lemma upd_absent:
  "key \<notin> fst ` set m \<Longrightarrow> map (\<lambda>(k, old). if k = key then (k, v) else (k, old)) m = m"
  by (induction m) auto

lemma concat_upd_distinct:
  assumes "distinct (map fst m)" and "distinct (concat (map snd m))" and "distinct v"
    and "set v \<inter> set (concat (map snd m)) = {}"
  shows "distinct (concat (map snd (map (\<lambda>(k, old). if k = key then (k, v) else (k, old)) m)))"
  using assms
proof (induction m)
  case Nil
  then show ?case by simp
next
  case (Cons a m)
  obtain k0 v0 where a: "a = (k0, v0)" by (cases a)
  show ?case
  proof (cases "k0 = key")
    case True
    with Cons.prems a have "key \<notin> fst ` set m" by auto
    from upd_absent[OF this] True a Cons.prems show ?thesis by auto
  next
    case False
    from Cons.prems a have "distinct (map fst m)" "distinct (concat (map snd m))"
      "set v \<inter> set (concat (map snd m)) = {}" by auto
    from Cons.IH[OF this(1,2) Cons.prems(3) this(3)]
    have ih: "distinct (concat (map snd (map (\<lambda>(k, old). if k = key then (k, v) else (k, old)) m)))" .
    from Cons.prems a have "set v0 \<inter> set v = {}" "set v0 \<inter> set (concat (map snd m)) = {}"
      by auto
    with concat_upd_subset[of key v m]
    have "set v0 \<inter> set (concat (map snd (map (\<lambda>(k, old). if k = key then (k, v) else (k, old)) m))) = {}"
      by blast
    moreover from Cons.prems a have "distinct v0" by simp
    ultimately show ?thesis using ih False a by simp
  qed
qed

lemma keys_upd:
  "map (fst \<circ> (\<lambda>(k, old). if k = key then (k, v) else (k, old))) m = map fst m"
  by (induction m) auto

lemma objSet_routes:
  assumes "distinct (map fst m)" and "distinct (concat (map snd m))" and "distinct v"
    and "set v \<inter> set (concat (map snd m)) = {}"
  shows "distinct (map fst (objSet key v m))"
    and "distinct (concat (map snd (objSet key v m)))"
    and "set (concat (map snd (objSet key v m))) \<subseteq> set v \<union> set (concat (map snd m))"
proof -
  show "distinct (map fst (objSet key v m))"
    using assms(1) by (auto simp: objSet_def keys_upd)
  show "distinct (concat (map snd (objSet key v m)))"
    using concat_upd_distinct[OF assms] assms by (auto simp: objSet_def)
  show "set (concat (map snd (objSet key v m))) \<subseteq> set v \<union> set (concat (map snd m))"
    using concat_upd_subset[of key v m] by (auto simp: objSet_def)
qed

text \<open>The routes that pass the filter: no lamp twice, every lamp admissible.\<close>

definition activeInv :: "state \<Rightarrow> int set \<Rightarrow> int list obj \<times> int set \<Rightarrow> bool" where
  "activeInv s occ acc =
     (distinct (map fst (fst acc)) \<and> distinct (concat (map snd (fst acc))) \<and>
      set (concat (map snd (fst acc))) \<subseteq> snd acc \<and>
      (\<forall>l \<in> set (concat (map snd (fst acc))). admissible s occ l))"

lemma activateRoute_inv:
  assumes "activeInv s occ acc"
  shows "activeInv s occ (activateRoute s occ routes d acc)"
proof -
  obtain active assigned where acc: "acc = (active, assigned)" by (cases acc)
  let ?f = "case objGet (droneId d) routes of
              Some route \<Rightarrow> filterRoute s occ route assigned
            | None \<Rightarrow> ([], assigned)"
  have f: "distinct (fst ?f) \<and> set (fst ?f) \<inter> assigned = {} \<and> snd ?f = assigned \<union> set (fst ?f) \<and>
           (\<forall>l \<in> set (fst ?f). admissible s occ l)"
    using filterRoute_props[of s occ _ assigned] by (auto split: option.splits)
  from assms acc have inv: "distinct (map fst active)" "distinct (concat (map snd active))"
    "set (concat (map snd active)) \<subseteq> assigned"
    "\<forall>l \<in> set (concat (map snd active)). admissible s occ l"
    by (simp_all add: activeInv_def)
  from f inv(3) have disj: "set (fst ?f) \<inter> set (concat (map snd active)) = {}" by auto
  from f have df: "distinct (fst ?f)" by simp
  note os = objSet_routes[OF inv(1,2) df disj, of "droneId d"]
  have res: "activateRoute s occ routes d acc =
               (if length (fst ?f) > 0 then objSet (droneId d) (fst ?f) active else active, snd ?f)"
    by (simp add: activateRoute_def acc Let_def split: option.splits)
  show ?thesis
  proof (cases "length (fst ?f) > 0")
    case True
    with res have r: "activateRoute s occ routes d acc = (objSet (droneId d) (fst ?f) active, snd ?f)"
      by simp
    from os f inv show ?thesis unfolding r activeInv_def by auto
  next
    case False
    with res have r: "activateRoute s occ routes d acc = (active, snd ?f)" by simp
    from f inv show ?thesis unfolding r activeInv_def by auto
  qed
qed

lemma activeRoutesFor_props:
  "distinct (concat (map snd (activeRoutesFor s ready m))) \<and>
   (\<forall>l \<in> set (concat (map snd (activeRoutesFor s ready m))).
      admissible s (getOccupiedLampIds (Some (missionId m)) s) l)"
proof -
  have "activeInv s (getOccupiedLampIds (Some (missionId m)) s)
          (fold (activateRoute s (getOccupiedLampIds (Some (missionId m)) s) (droneRoutes m)) ready ([], {}))"
    by (rule fold_invariant[where P = "activeInv s (getOccupiedLampIds (Some (missionId m)) s)"])
       (simp_all add: activeInv_def[of _ _ "([], {})"] activateRoute_inv)
  then show ?thesis by (simp add: activeRoutesFor_def Let_def activeInv_def)
qed

lemma missions_runMission [simp]: "missions (runMission ref routes idx s) = missions s"
  by (simp add: runMission_def Let_def)

lemma missions_commitMission:
  "missions (commitMission i m3 active idx now s)
     = (missions s)[i := m3\<lparr>missionStatus := Running, startedAt := Some now, droneRoutes := active\<rparr>]"
  by (simp add: commitMission_def Let_def)

text \<open>The three ways a call of \<^verbatim>\<open>tryStartMission\<close> can leave the list of missions.\<close>

lemma tryStartMission_outcome:
  assumes "i < length (missions s)"
  defines "m \<equiv> missions s ! i"
    and "ready \<equiv> map (\<lambda>k. drones s ! k) (getReadyDronesForMission s)"
  defines "m2 \<equiv> recomputeRoutes s ready m"
  defines "K \<equiv> concat (map snd (activeRoutesFor s ready m2))"
  shows "(fst (tryStartMission (Some i) now s) \<noteq> None \<and>
            missions (snd (tryStartMission (Some i) now s)) = missions s) \<or>
         (fst (tryStartMission (Some i) now s) \<noteq> None \<and> missionStatus m = Planned \<and>
            missions (snd (tryStartMission (Some i) now s)) = (missions s)[i := m2\<lparr>routeLampIds := K\<rparr>]) \<or>
         (fst (tryStartMission (Some i) now s) = None \<and> missionStatus m = Planned \<and>
            missions (snd (tryStartMission (Some i) now s))
              = (missions s)[i := m2\<lparr>routeLampIds := K, missionStatus := Running, startedAt := Some now,
                                       droneRoutes := activeRoutesFor s ready m2\<rparr>])"
proof (cases "missionStatus m")
  case Planned
  show ?thesis
  proof (cases "getReadyDronesForMission s = []")
    case True
    with assms(1) Planned show ?thesis
      by (simp add: tryStartMission_def Let_def m_def)
  next
    case False
    with assms(1) Planned show ?thesis
      unfolding K_def m2_def ready_def m_def
      by (simp add: tryStartMission_def Let_def missions_commitMission)
  qed
next
  case Running
  with assms(1) show ?thesis by (simp add: tryStartMission_def Let_def m_def)
next
  case Completed
  with assms(1) show ?thesis by (simp add: tryStartMission_def Let_def m_def)
qed

lemma tryStartMission_out_of_range:
  "\<not> i < length (missions s) \<Longrightarrow> tryStartMission (Some i) now s = (Some MissionNotFound, s)"
  by (simp add: tryStartMission_def)

lemma pending_occupied:
  assumes "j < length (missions s)" and "missionStatus (missions s ! j) = Running"
    and "missionId (missions s ! j) \<noteq> ident"
  shows "set (pendingLampIds (missions s ! j)) \<subseteq> getOccupiedLampIds (Some ident) s"
proof -
  let ?f = "\<lambda>m. if Some (missionId m) = Some ident \<or> missionStatus m \<noteq> Running then []
                 else filter (\<lambda>l. l \<notin> set (completedLampIds m)) (routeLampIds m)"
  from assms(1) have "missions s ! j \<in> set (missions s)" by simp
  then have "set (?f (missions s ! j)) \<subseteq> set (concat (map ?f (missions s)))" by auto
  moreover from assms(2,3) have "?f (missions s ! j) = pendingLampIds (missions s ! j)"
    by (simp add: pendingLampIds_def)
  ultimately show ?thesis by (auto simp: getOccupiedLampIds_def)
qed

lemma noShared_start:
  assumes inv: "noSharedPendingIn (missions s)" and ids: "distinct (map missionId (missions s))"
    and i: "i < length (missions s)"
    and id: "missionId m' = missionId (missions s ! i)"
    and run: "missionStatus m' = Running \<longrightarrow>
                (\<forall>l \<in> set (routeLampIds m'). l \<notin> getOccupiedLampIds (Some (missionId (missions s ! i))) s)"
  shows "noSharedPendingIn ((missions s)[i := m'])"
  unfolding noSharedPendingIn_def
proof (intro allI impI)
  let ?ms = "missions s" and ?ms' = "(missions s)[i := m']"
  fix a b
  assume a: "a < length ?ms'" and b: "b < length ?ms'" and ne: "a \<noteq> b"
    and ra: "missionStatus (?ms' ! a) = Running" and rb: "missionStatus (?ms' ! b) = Running"
  have other: "set (pendingLampIds m') \<inter> set (pendingLampIds (?ms ! j)) = {}"
    if j: "j < length ?ms" and ji: "j \<noteq> i" and rj: "missionStatus (?ms ! j) = Running"
      and rm: "missionStatus m' = Running" for j
  proof -
    from ids j i ji have "missionId (?ms ! j) \<noteq> missionId (?ms ! i)"
      by (simp add: distinct_conv_nth)
    from pending_occupied[OF j rj this]
    have "set (pendingLampIds (?ms ! j)) \<subseteq> getOccupiedLampIds (Some (missionId (?ms ! i))) s" .
    moreover have "set (pendingLampIds m') \<subseteq> set (routeLampIds m')" by (auto simp: pendingLampIds_def)
    ultimately show ?thesis using run rm by blast
  qed
  show "set (pendingLampIds (?ms' ! a)) \<inter> set (pendingLampIds (?ms' ! b)) = {}"
  proof (cases "a = i")
    case True
    with ne have bi: "b \<noteq> i" by simp
    from True a ra have rm: "missionStatus m' = Running" by simp
    from other[of b] b bi rb rm True a show ?thesis by simp
  next
    case False
    show ?thesis
    proof (cases "b = i")
      case True
      from True b rb have rm: "missionStatus m' = Running" by simp
      from other[of a] a False ra rm True b show ?thesis by (simp add: Int_commute)
    next
      case bf: False
      with False a b ra rb ne inv show ?thesis by (simp add: noSharedPendingIn_def)
    qed
  qed
qed

lemma ids_update: "missionId m' = missionId (ms ! i) \<Longrightarrow> map missionId (ms[i := m']) = map missionId ms"
  by (cases "i < length ms") (simp_all add: map_update list_update_same_conv list_update_beyond)

text \<open>A start, failed or not, keeps the two invariants.\<close>

lemma tryStartMission_invariant:
  assumes "noSharedPending s" and "distinctMissionIds s"
  shows "noSharedPending (snd (tryStartMission arg now s)) \<and>
         distinctMissionIds (snd (tryStartMission arg now s))"
proof (cases arg)
  case None
  with assms show ?thesis by (simp add: tryStartMission_def)
next
  case (Some i)
  show ?thesis
  proof (cases "i < length (missions s)")
    case False
    with assms Some show ?thesis by (simp add: tryStartMission_out_of_range)
  next
    case True
    let ?m = "missions s ! i"
    let ?ready = "map (\<lambda>k. drones s ! k) (getReadyDronesForMission s)"
    let ?m2 = "recomputeRoutes s ?ready ?m"
    let ?K = "concat (map snd (activeRoutesFor s ?ready ?m2))"
    let ?res = "snd (tryStartMission (Some i) now s)"
    from assms have inv: "noSharedPendingIn (missions s)" and ids: "distinct (map missionId (missions s))"
      by (simp_all add: noSharedPending_def distinctMissionIds_def)
    have adm: "\<forall>l \<in> set ?K. l \<notin> getOccupiedLampIds (Some (missionId ?m)) s"
      using activeRoutesFor_props[of s ?ready ?m2] by (simp add: admissible_def)
    have upd: "noSharedPendingIn ((missions s)[i := m']) \<and> distinct (map missionId ((missions s)[i := m']))"
      if "missionId m' = missionId ?m"
        and "missionStatus m' = Running \<longrightarrow> routeLampIds m' = ?K" for m'
      using noShared_start[OF inv ids True that(1)] that adm ids ids_update[OF that(1)] by simp
    from tryStartMission_outcome[OF True, of now]
    consider "missions ?res = missions s"
      | "missionStatus ?m = Planned" "missions ?res = (missions s)[i := ?m2\<lparr>routeLampIds := ?K\<rparr>]"
      | "missions ?res = (missions s)[i := ?m2\<lparr>routeLampIds := ?K, missionStatus := Running,
                                   startedAt := Some now, droneRoutes := activeRoutesFor s ?ready ?m2\<rparr>]"
      by blast
    then have "noSharedPendingIn (missions ?res) \<and> distinct (map missionId (missions ?res))"
    proof cases
      case 1
      with inv ids show ?thesis by simp
    next
      case 2
      from upd[of "?m2\<lparr>routeLampIds := ?K\<rparr>"] 2 show ?thesis by simp
    next
      case 3
      from upd[of "?m2\<lparr>routeLampIds := ?K, missionStatus := Running,
                       startedAt := Some now, droneRoutes := activeRoutesFor s ?ready ?m2\<rparr>"] 3
      show ?thesis by simp
    qed
    with Some show ?thesis by (simp add: noSharedPending_def distinctMissionIds_def)
  qed
qed

lemma noShared_Cons:
  assumes "missionStatus m \<noteq> Running" and "noSharedPendingIn ms"
  shows "noSharedPendingIn (m # ms)"
  unfolding noSharedPendingIn_def
proof (intro allI impI)
  fix i j
  assume i: "i < length (m # ms)" and j: "j < length (m # ms)" and ne: "i \<noteq> j"
    and ri: "missionStatus ((m # ms) ! i) = Running" and rj: "missionStatus ((m # ms) ! j) = Running"
  from ri assms(1) obtain i' where i': "i = Suc i'" by (cases i) auto
  from rj assms(1) obtain j' where j': "j = Suc j'" by (cases j) auto
  from i j ne ri rj i' j' assms(2)
  show "set (pendingLampIds ((m # ms) ! i)) \<inter> set (pendingLampIds ((m # ms) ! j)) = {}"
    by (simp add: noSharedPendingIn_def)
qed

lemma createMission_invariant:
  assumes "noSharedPending s" and "distinctMissionIds s" and "now \<notin> missionId ` set (missions s)"
  shows "noSharedPending (createMission route routes src now s) \<and>
         distinctMissionIds (createMission route routes src now s)"
  using assms noShared_Cons[of _ "missions s"]
  by (simp add: createMission_def Let_def noSharedPending_def distinctMissionIds_def)

lemma autoServiceDispatch_invariant:
  assumes "noSharedPending s" and "distinctMissionIds s" and "now \<notin> missionId ` set (missions s)"
  shows "noSharedPending (tryAutoServiceDispatch now s) \<and> distinctMissionIds (tryAutoServiceDispatch now s)"
proof -
  let ?ready = "map (\<lambda>k. drones s ! k) (getReadyDronesForMission s)"
  let ?plan = "buildAutoServiceDispatch s ?ready"
  let ?s1 = "createMission (dispatchRouteLampIds ?plan) (dispatchDroneRoutes ?plan) AutoService now s"
  let ?s2 = "snd (tryStartMission (Some 0) now ?s1)"
  from createMission_invariant[OF assms]
  have "noSharedPending ?s1 \<and> distinctMissionIds ?s1" .
  then have inv2: "noSharedPending ?s2 \<and> distinctMissionIds ?s2"
    using tryStartMission_invariant by blast
  have "missions (tryAutoServiceDispatch now s) = missions s \<or>
        missions (tryAutoServiceDispatch now s) = missions ?s2"
    by (simp add: tryAutoServiceDispatch_def autoServiceDispatch_def Let_def split: option.splits)
  with assms(1,2) inv2 show ?thesis
    by (auto simp: noSharedPending_def distinctMissionIds_def)
qed

lemma missions_markLamp [simp]: "missions (snd (markLampForReplacement l now s)) = missions s"
  by (simp add: markLampForReplacement_def Let_def split: option.splits)

lemma missions_coverDock [simp]: "missions (coverDock now index s) = missions s"
  by (simp add: coverDock_def Let_def split: option.splits)

lemma missions_fold_coverDock [simp]: "missions (fold (coverDock now) idx s) = missions s"
  by (induction idx arbitrary: s) simp_all

lemma missions_ensure [simp]: "missions (ensureDroneCoverageForAllDocks now s) = missions s"
  by (simp add: ensureDroneCoverageForAllDocks_def Let_def)

lemma missions_refill [simp]: "missions (refillDocks now s) = missions s"
  by (simp add: refillDocks_def)

lemma missions_tickDrone [simp]: "missions (tickDrone now k s) = missions s"
  by (simp add: tickDrone_def Let_def split: option.splits)

lemma missions_fold_tickDrone [simp]: "missions (fold (tickDrone now) idx s) = missions s"
  by (induction idx arbitrary: s) simp_all

lemma missions_replaceAll [simp]: "missions (snd (replaceAllContainers now s)) = missions s"
  by (simp add: replaceAllContainers_def)

lemma missions_setAutoService [simp]: "missions (snd (setAutoService b now s)) = missions s"
  by (simp add: setAutoService_def)

text \<open>The time of an event that can create a mission (whose id is made from that time).\<close>

fun creationTime :: "event \<Rightarrow> int option" where
  "creationTime (FailLamp lampIdArg now) = Some now"
| "creationTime (PlanMission requestedLampIds now) = Some now"
| "creationTime (GlobalTick now) = Some now"
| "creationTime (StartMission missionIdArg now) = None"
| "creationTime (SetAutoService enabled now) = None"
| "creationTime (ReplaceAllContainers now) = None"
| "creationTime (MissionTick r now energyRnd drainRnd) = None"

definition freshEventTime :: "event \<Rightarrow> state \<Rightarrow> bool" where
  "freshEventTime e s =
     (case creationTime e of None \<Rightarrow> True | Some now \<Rightarrow> now \<notin> missionId ` set (missions s))"

lemma inv_cong:
  "missions s' = missions s \<Longrightarrow> noSharedPending s' = noSharedPending s \<and> distinctMissionIds s' = distinctMissionIds s"
  by (simp add: noSharedPending_def distinctMissionIds_def)

lemma step_invariant:
  assumes inv: "noSharedPending s" and ids: "distinctMissionIds s" and fresh: "freshEventTime e s"
  shows "noSharedPending (step e s) \<and> distinctMissionIds (step e s)"
proof (cases e)
  case (FailLamp l now)
  let ?s1 = "snd (markLampForReplacement l now s)"
  have m: "missions ?s1 = missions s" by simp
  from inv ids inv_cong[OF m] have i1: "noSharedPending ?s1" "distinctMissionIds ?s1" by simp_all
  from fresh FailLamp m have f1: "now \<notin> missionId ` set (missions ?s1)" by (simp add: freshEventTime_def)
  have "step e s = ?s1 \<or> step e s = tryAutoServiceDispatch now ?s1"
    by (simp add: FailLamp failLamp_def split: prod.splits option.splits)
  with i1 autoServiceDispatch_invariant[OF i1 f1] show ?thesis by auto
next
  case (PlanMission req now)
  from fresh PlanMission have f: "now \<notin> missionId ` set (missions s)" by (simp add: freshEventTime_def)
  have "missions (step e s) = missions s \<or>
        (\<exists>route routes. step e s = createMission route routes Manual now s)"
    by (auto simp: PlanMission planMission_def Let_def)
  with inv ids createMission_invariant[OF inv ids f] inv_cong show ?thesis by metis
next
  case (StartMission mid now)
  let ?r = "tryStartMission (findMission mid s) now s"
  have "missions (step e s) = missions (snd ?r)"
    by (simp add: StartMission startMission_def split: prod.splits option.splits)
  with tryStartMission_invariant[OF inv ids, of "findMission mid s" now] inv_cong show ?thesis by metis
next
  case (SetAutoService b now)
  then have "missions (step e s) = missions s" by simp
  with inv ids inv_cong show ?thesis by metis
next
  case (ReplaceAllContainers now)
  then have "missions (step e s) = missions s" by simp
  with inv ids inv_cong show ?thesis by metis
next
  case (MissionTick r now energyRnd drainRnd)
  have ev: "evolve (missions s) (missions (step e s))"
    by (simp add: MissionTick evolve_missionTick)
  from evolve_noShared[OF ev] evolve_ids[OF ev] inv ids show ?thesis
    by (simp add: noSharedPending_def distinctMissionIds_def)
next
  case (GlobalTick now)
  let ?s3 = "fold (tickDrone now) [0..<length (drones (refillDocks now (ensureDroneCoverageForAllDocks now s)))]
               (refillDocks now (ensureDroneCoverageForAllDocks now s))"
  have m: "missions ?s3 = missions s" by simp
  from inv ids inv_cong[OF m] have i3: "noSharedPending ?s3" "distinctMissionIds ?s3" by simp_all
  from fresh GlobalTick m have f3: "now \<notin> missionId ` set (missions ?s3)" by (simp add: freshEventTime_def)
  have "step e s = tryAutoServiceDispatch now ?s3" by (simp add: GlobalTick globalTick_def Let_def)
  with autoServiceDispatch_invariant[OF i3 f3] show ?thesis by simp
qed

lemma values_objSet:
  "set (concat (map snd (objSet key v m))) \<subseteq> set v \<union> set (concat (map snd m))"
  using concat_upd_subset[of key v m] by (auto simp: objSet_def)

lemma values_routeOf: "set (routeOf key m) \<subseteq> set (concat (map snd m))"
proof (cases "map_of m key")
  case None
  then show ?thesis by (simp add: routeOf_def objGet_def)
next
  case (Some r)
  then have "(key, r) \<in> set m" by (rule map_of_SomeD)
  then have "set r \<subseteq> set (concat (map snd m))" by force
  with Some show ?thesis by (simp add: routeOf_def objGet_def)
qed

lemma values_fold_objSet:
  "set (concat (map snd (fold (\<lambda>d. objSet (f d) (g d)) ds acc)))
     \<subseteq> (\<Union>d \<in> set ds. set (g d)) \<union> set (concat (map snd acc))"
proof (induction ds arbitrary: acc)
  case Nil
  then show ?case by simp
next
  case (Cons d ds)
  from Cons.IH[of "objSet (f d) (g d) acc"] values_objSet[of "f d" "g d" acc]
  show ?case by auto
qed

lemma values_assignLamp:
  "set (concat (map snd (fst (assignLamp fp ds l acc)))) \<subseteq> insert l (set (concat (map snd (fst acc))))"
proof -
  from assignLamp_cases[of fp ds acc l] show ?thesis
  proof
    assume "selectDrone fp ds (snd acc) l = None \<and> assignLamp fp ds l acc = acc"
    then show ?thesis by auto
  next
    assume "\<exists>d. selectDrone fp ds (snd acc) l = Some d \<and>
        assignLamp fp ds l acc =
          (objSet (droneId d) (routeOf (droneId d) (fst acc) @ [l]) (fst acc),
           objSet (droneId d) (capacityOf (droneId d) (snd acc) - 1) (snd acc))"
    then obtain d :: drone where a: "fst (assignLamp fp ds l acc) =
        objSet (droneId d) (routeOf (droneId d) (fst acc) @ [l]) (fst acc)" by fastforce
    from values_objSet[of "droneId d" "routeOf (droneId d) (fst acc) @ [l]" "fst acc"]
      values_routeOf[of "droneId d" "fst acc"]
    show ?thesis unfolding a by auto
  qed
qed

lemma values_assignAll:
  "set (concat (map snd (fst (assignAll fp ls ds)))) \<subseteq> set ls"
proof -
  have init: "set (concat (map snd (fold (\<lambda>d. objSet (droneId d) ([] :: lamp list)) ds []))) = {}"
    using values_fold_objSet[of droneId "\<lambda>d. [] :: lamp list" ds "[]"] by simp
  have "set (concat (map snd (fst (fold (assignLamp fp ds) xs acc))))
          \<subseteq> set xs \<union> set (concat (map snd (fst acc)))" for xs acc
  proof (induction xs arbitrary: acc)
    case Nil
    then show ?case by simp
  next
    case (Cons x xs)
    from Cons.IH[of "assignLamp fp ds x acc"] values_assignLamp[of fp ds x acc]
    show ?case by auto
  qed
  from this[of ls "(fold (\<lambda>d. objSet (droneId d) []) ds [],
                    fold (\<lambda>d. objSet (droneId d) (getDroneLampCapacity d)) ds [])"] init
  show ?thesis by (simp add: assignAll_def)
qed

lemma buildCapacityAwareRoutes_subset:
  "set (planRouteLampIds (buildCapacityAwareRoutes fp ls ds)) \<subseteq> lampId ` set ls"
proof (cases "length ls = 0 \<or> length (filter isOperational ds) = 0")
  case True
  then show ?thesis by (auto simp: buildCapacityAwareRoutes_def Let_def)
next
  case False
  let ?act = "filter isOperational ds"
  let ?g = "\<lambda>d. map lampId (nearestNeighborRoute fp (routeOf (droneId d) (fst (assignAll fp ls ?act))) (position d))"
  have g: "set (?g d) \<subseteq> lampId ` set ls" for d :: drone
  proof -
    have "set (nearestNeighborRoute fp (routeOf (droneId d) (fst (assignAll fp ls ?act))) (position d))
            = set (routeOf (droneId d) (fst (assignAll fp ls ?act)))"
      using mset_nearestNeighborRoute[of fp "routeOf (droneId d) (fst (assignAll fp ls ?act))" "position d"]
      by (rule mset_eq_setD)
    moreover have "set (routeOf (droneId d) (fst (assignAll fp ls ?act))) \<subseteq> set ls"
      using values_routeOf[of "droneId d" "fst (assignAll fp ls ?act)"] values_assignAll[of fp ls ?act]
      by (rule subset_trans)
    ultimately show ?thesis by (simp only: set_map image_mono)
  qed
  from False have eq: "planRouteLampIds (buildCapacityAwareRoutes fp ls ds)
                     = concat (map snd (fold (\<lambda>d. objSet (droneId d) (?g d)) ?act []))"
    by (simp add: buildCapacityAwareRoutes_def Let_def)
  have un: "(\<Union>d \<in> set ?act. set (?g d)) \<subseteq> lampId ` set ls"
    using g by (rule UN_least)
  have "set (concat (map snd (fold (\<lambda>d. objSet (droneId d) (?g d)) ?act [])))
          \<subseteq> (\<Union>d \<in> set ?act. set (?g d))"
    using values_fold_objSet[of droneId ?g ?act "[]"] by simp
  from this un show ?thesis unfolding eq by (rule subset_trans)
qed

text \<open>A plan holds only requested lamps that need replacement and are not occupied.\<close>

lemma planMission_ok:
  assumes "fst (planMission requestedLampIds now s) = 200"
  defines "cand \<equiv> filter (\<lambda>l. lampId l \<in> set requestedLampIds \<and> lampStatus l = Replace
                           \<and> lampId l \<notin> getOccupiedLampIds None s) (lamps s)"
  defines "av \<equiv> filter (\<lambda>d. isOperational d \<and> getDroneLampCapacity d > 0) (drones s)"
  shows "snd (planMission requestedLampIds now s)
      = createMission (planRouteLampIds (buildCapacityAwareRoutes (engine s) cand av))
          (planDroneRoutes (buildCapacityAwareRoutes (engine s) cand av)) Manual now s"
proof -
  have pm: "planMission requestedLampIds now s =
     (if length cand = 0 then (400, addLog ''error'' PlanNoLamps now s)
      else if length (planRouteLampIds (buildCapacityAwareRoutes (engine s) cand av)) = 0
           then (409, addLog ''error'' PlanNoDrones now s)
           else (200, createMission (planRouteLampIds (buildCapacityAwareRoutes (engine s) cand av))
                         (planDroneRoutes (buildCapacityAwareRoutes (engine s) cand av)) Manual now s))"
    unfolding planMission_def Let_def cand_def av_def by (rule refl)
  show ?thesis
  proof (cases "length cand = 0")
    case True
    with assms(1) show ?thesis unfolding pm by simp
  next
    case False
    note nc = this
    show ?thesis
    proof (cases "length (planRouteLampIds (buildCapacityAwareRoutes (engine s) cand av)) = 0")
      case True
      with nc assms(1) show ?thesis unfolding pm by simp
    next
      case False
      with nc show ?thesis unfolding pm by simp
    qed
  qed
qed

lemma planMission_route:
  assumes "fst (planMission requestedLampIds now s) = 200"
  shows "missions (snd (planMission requestedLampIds now s)) \<noteq> [] \<and>
         (\<forall>l \<in> set (routeLampIds (hd (missions (snd (planMission requestedLampIds now s))))).
            l \<in> set requestedLampIds \<and> l \<notin> getOccupiedLampIds None s \<and>
            (\<exists>x \<in> set (lamps s). lampId x = l \<and> lampStatus x = Replace))"
proof -
  define cand where "cand = filter (\<lambda>l. lampId l \<in> set requestedLampIds \<and> lampStatus l = Replace
                           \<and> lampId l \<notin> getOccupiedLampIds None s) (lamps s)"
  define av where "av = filter (\<lambda>d. isOperational d \<and> getDroneLampCapacity d > 0) (drones s)"
  define opt where "opt = buildCapacityAwareRoutes (engine s) cand av"
  have res: "snd (planMission requestedLampIds now s)
      = createMission (planRouteLampIds opt) (planDroneRoutes opt) Manual now s"
    unfolding opt_def cand_def av_def by (rule planMission_ok[OF assms])
  have hd: "routeLampIds (hd (missions (createMission (planRouteLampIds opt) (planDroneRoutes opt) Manual now s)))
              = planRouteLampIds opt"
    and ne: "missions (createMission (planRouteLampIds opt) (planDroneRoutes opt) Manual now s) \<noteq> []"
    by (simp_all add: createMission_def Let_def)
  have c: "l \<in> set requestedLampIds \<and> l \<notin> getOccupiedLampIds None s \<and>
          (\<exists>x \<in> set (lamps s). lampId x = l \<and> lampStatus x = Replace)"
    if "l \<in> lampId ` set cand" for l
  proof -
    from that obtain x where "x \<in> set cand" "l = lampId x" by blast
    then show ?thesis unfolding cand_def by (simp only: set_filter mem_Collect_eq) blast
  qed
  have sub: "set (planRouteLampIds opt) \<subseteq> lampId ` set cand"
    unfolding opt_def by (rule buildCapacityAwareRoutes_subset)
  have "\<forall>l \<in> set (planRouteLampIds opt).
          l \<in> set requestedLampIds \<and> l \<notin> getOccupiedLampIds None s \<and>
          (\<exists>x \<in> set (lamps s). lampId x = l \<and> lampStatus x = Replace)"
    using sub c by (meson subsetD)
  with ne show ?thesis unfolding res hd by (rule conjI)
qed

text \<open>The route of a mission that has just started: no lamp twice, every lamp admissible.\<close>

lemma tryStartMission_started_route:
  assumes "fst (tryStartMission (Some i) now s) = None"
  shows "i < length (missions s) \<and>
         missionStatus (missions (snd (tryStartMission (Some i) now s)) ! i) = Running \<and>
         distinct (routeLampIds (missions (snd (tryStartMission (Some i) now s)) ! i)) \<and>
         (\<forall>l \<in> set (routeLampIds (missions (snd (tryStartMission (Some i) now s)) ! i)).
            admissible s (getOccupiedLampIds (Some (missionId (missions s ! i))) s) l)"
proof -
  have i: "i < length (missions s)"
    using assms tryStartMission_out_of_range[of i s now] by (cases "i < length (missions s)") auto
  let ?m = "missions s ! i"
  let ?ready = "map (\<lambda>k. drones s ! k) (getReadyDronesForMission s)"
  let ?m2 = "recomputeRoutes s ?ready ?m"
  let ?K = "concat (map snd (activeRoutesFor s ?ready ?m2))"
  from tryStartMission_outcome[OF i, of now]
  have ms: "missions (snd (tryStartMission (Some i) now s))
              = (missions s)[i := ?m2\<lparr>routeLampIds := ?K, missionStatus := Running, startedAt := Some now,
                                       droneRoutes := activeRoutesFor s ?ready ?m2\<rparr>]"
    unfolding assms by (elim disjE conjE) simp_all
  from activeRoutesFor_props[of s ?ready ?m2]
  have "distinct ?K \<and> (\<forall>l \<in> set ?K. admissible s (getOccupiedLampIds (Some (missionId ?m)) s) l)"
    by simp
  with i show ?thesis unfolding ms by simp
qed

text \<open>
  Two docks with a drone each and one failed lamp at the first dock. The lamp is planned,
  started and replaced by the first drone; before that drone is back (its mission is still
  running) the lamp fails again and is planned and started a second time.
\<close>

definition exDockNorth :: dock where
  "exDockNorth = exDock\<lparr>lat := 10, dockId := ''D-2''\<rparr>"

definition exTwoDockState :: state where
  "exTwoDockState =
     (exState
        [exDrone ''drone-01'',
         (exDrone ''drone-02'')\<lparr>homeDockId := Some ''D-2'', activeDockId := Some ''D-2'',
                                 position := \<lparr>lat = 10, lng = 0\<rparr>\<rparr>]
        [exLamp 142 0 Replace]
        [])
       \<lparr>docks := [exDock, exDockNorth]\<rparr>"

definition exRefailPrefix :: "event list" where
  "exRefailPrefix =
     [PlanMission [142] 1000,
      StartMission 1000 1100,
      MissionTick 0 1250 (\<lambda>n. 6) (\<lambda>n. 1),
      MissionTick 0 1500 (\<lambda>n. 6) (\<lambda>n. 1),
      MissionTick 0 3500 (\<lambda>n. 6) (\<lambda>n. 1),
      FailLamp 142 3600,
      PlanMission [142] 3700]"

definition exRefailTrace :: "event list" where
  "exRefailTrace = exRefailPrefix @ [StartMission 3700 3800]"

definition exBeforeRestart :: state where
  "exBeforeRestart = fold step exRefailPrefix exTwoDockState"

text \<open>The claim as the specification words it, on the routes of the running missions.\<close>

definition noDoubleAssignment :: "state \<Rightarrow> bool" where
  "noDoubleAssignment s =
     (\<forall>l \<in> set (lamps s). lampStatus l = Replace \<longrightarrow>
        length (filter (\<lambda>m. missionStatus m = Running \<and> lampId l \<in> set (routeLampIds m)) (missions s)) \<le> 1)"

lemmas cmdDefs = planMission_def startMission_def failLamp_def findMission_def
  markLampForReplacement_def createMission_def missionTick_def completeMission_def settleDrone_def

lemma exBeforeRestart_state:
  "exBeforeRestart =
     \<lparr>autoServiceEnabled = False,
      docks = [exDock, exDockNorth],
      drones =
        [(exDrone ''drone-01'')\<lparr>battery := 95, droneStatus := Enroute, containerLampsRemaining := 4\<rparr>,
         (exDrone ''drone-02'')\<lparr>homeDockId := Some ''D-2'', activeDockId := Some ''D-2'',
                                 position := \<lparr>lat = 10, lng = 0\<rparr>\<rparr>],
      lamps = [exLamp 142 0 Replace],
      missions =
        [\<lparr>missionId = 3700, createdAt = 3700, startedAt = None, finishedAt = None,
          missionStatus = Planned, source = Manual,
          droneRoutes = [(''drone-01'', [142]), (''drone-02'', [])],
          routeLampIds = [142], completedLampIds = []\<rparr>,
         \<lparr>missionId = 1000, createdAt = 1000, startedAt = Some 1100, finishedAt = None,
          missionStatus = Running, source = Manual,
          droneRoutes = [(''drone-01'', [142])],
          routeLampIds = [142], completedLampIds = [142]\<rparr>],
      logs =
        [\<lparr>logType = ''mission'', message = MissionCreated 1000, timestamp = 1000\<rparr>,
         \<lparr>logType = ''mission'', message = MissionStarted 1000, timestamp = 1100\<rparr>,
         \<lparr>logType = ''replace'', message = ReplacementBegun ''drone-01'' 142, timestamp = 1500\<rparr>,
         \<lparr>logType = ''replace'', message = ReplacementDone ''drone-01'' 142, timestamp = 3500\<rparr>,
         \<lparr>logType = ''alarm'', message = LampMarked 142, timestamp = 3600\<rparr>,
         \<lparr>logType = ''mission'', message = MissionCreated 3700, timestamp = 3700\<rparr>],
      lastAutoDispatchAt = 0, lastDockRefillAt = 0,
      autoServiceProgress = map (\<lambda>(key, plan). (key, 0)) AUTO_SERVICE_PLAN,
      runs =
        [\<lparr>runMissionRef = 0,
          workers = [\<lparr>workerDrone = 0, queue = [], workerTarget = None, replaceStartedAt = 1500,
                      replacedCount = 1, returning = False, completed = False\<rparr>],
          intervalActive = True\<rparr>],
      activeMissionTimers = [(1000, 0)], engine = exactArithmetic\<rparr>"
  using kmPerDegree_pos
  by (simp add: exBeforeRestart_def exRefailPrefix_def exTwoDockState_def exDockNorth_def
        evalDefs startDefs tickDefs cmdDefs Let_def permutations.simps geoDistance_meridian)

lemma exAfterRestart_missions:
  "fst (tryStartMission (Some 0) 3800 exBeforeRestart) = None \<and>
   missions (snd (tryStartMission (Some 0) 3800 exBeforeRestart)) =
     [\<lparr>missionId = 3700, createdAt = 3700, startedAt = Some 3800, finishedAt = None,
       missionStatus = Running, source = Manual,
       droneRoutes = [(''drone-02'', [142])],
       routeLampIds = [142], completedLampIds = []\<rparr>,
      \<lparr>missionId = 1000, createdAt = 1000, startedAt = Some 1100, finishedAt = None,
       missionStatus = Running, source = Manual,
       droneRoutes = [(''drone-01'', [142])],
       routeLampIds = [142], completedLampIds = [142]\<rparr>] \<and>
   lamps (snd (tryStartMission (Some 0) 3800 exBeforeRestart)) = [exLamp 142 0 Replace]"
  unfolding exBeforeRestart_state
  using kmPerDegree_pos
  by (simp add: exDockNorth_def evalDefs startDefs Let_def permutations.simps geoDistance_meridian)

lemma exAfterRestart_step:
  "step (StartMission 3700 3800) exBeforeRestart = snd (tryStartMission (Some 0) 3800 exBeforeRestart)"
proof -
  have "findMission 3700 exBeforeRestart = Some 0"
    unfolding exBeforeRestart_state by (simp add: findMission_def)
  moreover obtain r s1 where p: "tryStartMission (Some 0) 3800 exBeforeRestart = (r, s1)"
    by (cases "tryStartMission (Some 0) 3800 exBeforeRestart")
  moreover from exAfterRestart_missions p have "r = None" by simp
  ultimately show ?thesis by (simp add: startMission_def)
qed

lemma exReplan:
  "fst (planMission [142] 3900 exBeforeRestart) = 200 \<and>
   routeLampIds (hd (missions (snd (planMission [142] 3900 exBeforeRestart)))) = [142]"
  unfolding exBeforeRestart_state
  using kmPerDegree_pos
  by (simp add: exDockNorth_def evalDefs startDefs cmdDefs Let_def permutations.simps
        geoDistance_meridian)

text \<open>
  The lamp that failed again is on the routes of two running missions: the one that has
  replaced it and is not over yet, and the one that has just started for it.
\<close>

lemma refailed_lamp_on_two_running_routes:
  "noDoubleAssignment exTwoDockState \<and>
   noDoubleAssignment exBeforeRestart \<and>
   \<not> noDoubleAssignment (fold step exRefailTrace exTwoDockState) \<and>
   map missionStatus (missions (fold step exRefailTrace exTwoDockState)) = [Running, Running] \<and>
   map routeLampIds (missions (fold step exRefailTrace exTwoDockState)) = [[142], [142]] \<and>
   map lampStatus (lamps (fold step exRefailTrace exTwoDockState)) = [Replace]"
proof -
  have f: "fold step exRefailTrace exTwoDockState = snd (tryStartMission (Some 0) 3800 exBeforeRestart)"
    unfolding exRefailTrace_def fold_append comp_apply exBeforeRestart_def[symmetric]
    by (simp only: fold_simps id_apply comp_apply exAfterRestart_step)
  have a: "noDoubleAssignment exTwoDockState"
    by (simp add: noDoubleAssignment_def exTwoDockState_def exState_def)
  have b: "noDoubleAssignment exBeforeRestart"
    unfolding exBeforeRestart_state by (simp add: noDoubleAssignment_def exLamp_def)
  from exAfterRestart_missions a b show ?thesis
    unfolding f by (simp add: noDoubleAssignment_def exLamp_def)
qed


section \<open>The container stock of a drone\<close>

text \<open>
  What does hold of the container stock on every state. The stock of the drones, in the
  order of \<^verbatim>\<open>state.drones\<close>:
\<close>

definition containerStock :: "state \<Rightarrow> int list" where
  "containerStock s = map containerLampsRemaining (drones s)"

text \<open>The claim's bound, as the specification words it.\<close>

definition containerWithinCapacity :: "state \<Rightarrow> bool" where
  "containerWithinCapacity s =
     list_all (\<lambda>d. 0 \<le> containerLampsRemaining d \<and> containerLampsRemaining d \<le> LAMPS_PER_CONTAINER)
       (drones s)"

lemma stock_moveToDock [simp]:
  "containerLampsRemaining (moveDroneToDockIfAvailable d s) = containerLampsRemaining d"
  by (simp add: moveDroneToDockIfAvailable_def split: option.splits)

lemma stock_moveTowards [simp]:
  "containerLampsRemaining (snd (moveDroneTowards d target)) = containerLampsRemaining d"
  by (simp add: moveDroneTowards_def Let_def)

lemma stock_enforce [simp]:
  "containerLampsRemaining (enforceDroneDockBinding d) = containerLampsRemaining d"
  by (simp add: enforceDroneDockBinding_def Let_def)

lemma stock_addLog [simp]: "containerStock (addLog ty msg now s) = containerStock s"
  by (simp add: containerStock_def addLog_def)

lemma stock_setDrone:
  "containerStock (setDrone k d s) = (containerStock s)[k := containerLampsRemaining d]"
  by (simp add: containerStock_def setDrone_def map_update)

lemma stock_setDrone_same:
  assumes "containerLampsRemaining d = containerLampsRemaining (drones s ! k)"
  shows "containerStock (setDrone k d s) = containerStock s"
proof (cases "k < length (drones s)")
  case True
  with assms show ?thesis
    by (simp add: containerStock_def setDrone_def map_update list_update_same_conv)
next
  case False
  then show ?thesis by (simp add: containerStock_def setDrone_def list_update_beyond)
qed

lemma stock_fields [simp]:
  "containerStock (s\<lparr>docks := a\<rparr>) = containerStock s"
  "containerStock (s\<lparr>lamps := b\<rparr>) = containerStock s"
  "containerStock (s\<lparr>missions := c\<rparr>) = containerStock s"
  "containerStock (s\<lparr>runs := e\<rparr>) = containerStock s"
  "containerStock (s\<lparr>activeMissionTimers := f\<rparr>) = containerStock s"
  "containerStock (s\<lparr>autoServiceEnabled := g\<rparr>) = containerStock s"
  "containerStock (s\<lparr>autoServiceProgress := h\<rparr>) = containerStock s"
  "containerStock (s\<lparr>lastAutoDispatchAt := i\<rparr>) = containerStock s"
  "containerStock (s\<lparr>lastDockRefillAt := j\<rparr>) = containerStock s"
  by (simp_all add: containerStock_def)

lemma stock_setDrone_fields [simp]:
  "drones (setDrone k d (s\<lparr>docks := a\<rparr>)) = drones (setDrone k d s)"
  "drones (setDrone k d (s\<lparr>lamps := b\<rparr>)) = drones (setDrone k d s)"
  "drones (setDrone k d (s\<lparr>missions := c\<rparr>)) = drones (setDrone k d s)"
  by (simp_all add: setDrone_def)

lemma stock_cong: "drones s' = drones s \<Longrightarrow> containerStock s' = containerStock s"
  by (simp add: containerStock_def)

lemma drones_addLog [simp]: "drones (addLog ty msg now s) = drones s"
  by (simp add: addLog_def)

lemma stock_interrupt [simp]:
  "containerStock (snd (interruptIfLowBattery now w s)) = containerStock s"
  by (simp add: interruptIfLowBattery_def Let_def stock_setDrone_same)

lemma stock_dropTarget [simp]: "containerStock (snd (dropTarget w s)) = containerStock s"
  by (simp add: dropTarget_def stock_setDrone_same)

lemma stock_takeNext [simp]: "containerStock (snd (takeNext w s)) = containerStock s"
  by (simp add: takeNext_def stock_setDrone_same split: list.splits)

lemma stock_returnToDock [simp]: "containerStock (snd (returnToDock now w s)) = containerStock s"
proof -
  have docks: "containerStock (setDrone k d (s\<lparr>docks := ds\<rparr>)) = containerStock s"
    if "containerLampsRemaining d = containerLampsRemaining (drones s ! k)" for k d ds
    using stock_setDrone_same[of d "s\<lparr>docks := ds\<rparr>" k] that by simp
  show ?thesis
    by (simp add: returnToDock_def Let_def stock_setDrone_same docks split: option.splits)
qed


lemma map_update_read:
  "(map f xs)[k := f (xs[k := d] ! k)] = (map f xs)[k := f d]"
  by (cases "k < length xs") (simp_all add: list_update_beyond)

text \<open>
  One worker's tick either leaves every stock as it is, or completes a replacement and takes
  one lamp from the stock of the worker's drone (never below zero).
\<close>

lemma stock_serveTarget:
  "containerStock (snd (serveTarget missionRef now energyRnd drainRnd target w s)) = containerStock s \<or>
   (containerStock (snd (serveTarget missionRef now energyRnd drainRnd target w s))
      = (containerStock s)[workerDrone w := max 0 (containerStock s ! workerDrone w - 1)] \<and>
    replacedCount (fst (serveTarget missionRef now energyRnd drainRnd target w s)) = replacedCount w + 1)"
proof (cases "findIndex (\<lambda>item. lampId item = target) (lamps s)")
  case None
  then show ?thesis by (simp add: serveTarget_def Let_def)
next
  case (Some li)
  let ?k = "workerDrone w"
  let ?d = "drones s ! ?k"
  let ?lampNow = "lamps s ! li"
  show ?thesis
  proof (cases "droneStatus ?d \<noteq> Replacing \<and> lampStatus ?lampNow \<noteq> Replace")
    case True
    with Some show ?thesis by (simp add: serveTarget_def Let_def)
  next
    case False
    note nf = this
    show ?thesis
    proof (cases "droneStatus ?d = Replacing")
      case True
      note rep = this
      show ?thesis
      proof (cases "now - replaceStartedAt w < REPLACEMENT_DURATION_MS")
        case True
        with Some rep show ?thesis by (simp add: serveTarget_def Let_def)
      next
        case False
        with Some rep have
          "containerStock (snd (serveTarget missionRef now energyRnd drainRnd target w s))
             = (containerStock s)[?k := max 0 (containerLampsRemaining ?d - 1)]"
          and rc: "replacedCount (fst (serveTarget missionRef now energyRnd drainRnd target w s))
                 = replacedCount w + 1"
          by (simp_all add: serveTarget_def Let_def dropTarget_def setDrone_def containerStock_def
                addLog_def map_update map_update_read)
        moreover have "(containerStock s)[?k := max 0 (containerLampsRemaining ?d - 1)]
                         = (containerStock s)[?k := max 0 (containerStock s ! ?k - 1)]"
          by (cases "?k < length (drones s)") (simp_all add: containerStock_def list_update_beyond)
        ultimately show ?thesis by simp
      qed
    next
      case False
      with Some nf have "containerStock (snd (serveTarget missionRef now energyRnd drainRnd target w s))
                           = containerStock s"
        by (simp add: serveTarget_def Let_def stock_setDrone_same dropTarget_def setDrone_def
              containerStock_def addLog_def map_update map_update_read)
           (cases "workerDrone w < length (drones s)";
            simp add: list_update_same_conv list_update_beyond)
      then show ?thesis by blast
    qed
  qed
qed


lemma stock_workerTick:
  "containerStock (snd (workerTick missionRef now energyRnd drainRnd w s)) = containerStock s \<or>
   (containerStock (snd (workerTick missionRef now energyRnd drainRnd w s))
      = (containerStock s)[workerDrone w := max 0 (containerStock s ! workerDrone w - 1)] \<and>
    replacedCount (fst (workerTick missionRef now energyRnd drainRnd w s)) = replacedCount w + 1)"
proof (cases "completed w \<or> \<not> isOperational (drones s ! workerDrone w)")
  case True
  then show ?thesis by (simp add: workerTick_def)
next
  case False
  let ?w1 = "fst (interruptIfLowBattery now w s)"
  let ?s1 = "snd (interruptIfLowBattery now w s)"
  have w1: "workerDrone ?w1 = workerDrone w" "replacedCount ?w1 = replacedCount w"
    by (simp_all add: interruptIfLowBattery_def Let_def)
  have s1: "containerStock ?s1 = containerStock s" by simp
  show ?thesis
  proof (cases "workerTarget ?w1")
    case None
    with False s1 show ?thesis by (simp add: workerTick_def Let_def)
  next
    case (Some target)
    with False have "workerTick missionRef now energyRnd drainRnd w s
                       = serveTarget missionRef now energyRnd drainRnd target ?w1 ?s1"
      by (simp add: workerTick_def Let_def)
    with stock_serveTarget[of missionRef now energyRnd drainRnd target ?w1 ?s1] w1 s1
    show ?thesis by simp
  qed
qed

text \<open>No stock rises, and none becomes negative.\<close>

definition stockDrops :: "int list \<Rightarrow> int list \<Rightarrow> bool" where
  "stockDrops before after =
     (length after = length before \<and>
      (\<forall>k < length before. 0 \<le> before ! k \<longrightarrow> 0 \<le> after ! k \<and> after ! k \<le> before ! k))"

lemma stockDrops_refl [simp]: "stockDrops a a"
  by (simp add: stockDrops_def)

lemma stockDrops_trans: "stockDrops a b \<Longrightarrow> stockDrops b c \<Longrightarrow> stockDrops a c"
  unfolding stockDrops_def by (auto; force)

lemma stockDrops_one: "stockDrops a (a[k := max 0 (a ! k - 1)])"
proof -
  have "0 \<le> a[k := max 0 (a ! k - 1)] ! j \<and> a[k := max 0 (a ! k - 1)] ! j \<le> a ! j"
    if "j < length a" "0 \<le> a ! j" for j
    using that by (cases "j = k") simp_all
  then show ?thesis by (simp add: stockDrops_def)
qed

lemma stockDrops_workerTick:
  "stockDrops (containerStock s) (containerStock (snd (workerTick missionRef now energyRnd drainRnd w s)))"
  using stock_workerTick[of missionRef now energyRnd drainRnd w s] stockDrops_one[of "containerStock s" "workerDrone w"]
  by auto

lemma stockDrops_tickWorkers:
  "stockDrops (containerStock s) (containerStock (snd (tickWorkers missionRef now energyRnd drainRnd n ws s)))"
proof (induction ws arbitrary: n s)
  case Nil
  show ?case by simp
next
  case (Cons w ws)
  let ?s1 = "snd (workerTick missionRef now (energyRnd n) (drainRnd n) w s)"
  from stockDrops_workerTick[of s missionRef now "energyRnd n" "drainRnd n" w] Cons.IH[of ?s1 "Suc n"]
  show ?case by (simp add: Let_def stockDrops_trans)
qed

lemma map_update_same:
  "f d = f (xs ! k) \<Longrightarrow> map f (xs[k := d]) = map f xs"
  by (cases "k < length xs") (simp_all add: map_update list_update_same_conv list_update_beyond)

lemma stock_settle:
  "map containerLampsRemaining (fold (settleDrone s) idx ds) = map containerLampsRemaining ds"
proof (induction idx arbitrary: ds)
  case Nil
  show ?case by simp
next
  case (Cons k idx)
  have "map containerLampsRemaining (settleDrone s k ds) = map containerLampsRemaining ds"
    by (simp add: settleDrone_def Let_def map_update_same)
  with Cons.IH[of "settleDrone s k ds"] show ?case by simp
qed

lemma stock_completeMission [simp]: "containerStock (completeMission r now s) = containerStock s"
  by (simp add: completeMission_def Let_def containerStock_def stock_settle split: option.splits)

lemma stockDrops_missionTick:
  "stockDrops (containerStock s) (containerStock (missionTick r now energyRnd drainRnd s))"
  using stockDrops_tickWorkers[of s "runMissionRef (runs s ! r)" now energyRnd drainRnd 0 "workers (runs s ! r)"]
  by (simp add: missionTick_def Let_def)


text \<open>The commands that plan and start missions do not touch the stock.\<close>

lemma stock_commitMission [simp]:
  "containerStock (commitMission i m activeRoutes assignedIdx now s) = containerStock s"
proof -
  have "map containerLampsRemaining
          (fold (\<lambda>k ds. ds[k := (moveDroneToDockIfAvailable (ds ! k) s)
                                   \<lparr>droneStatus := Enroute, targetLampId := None\<rparr>]) idx ds)
          = map containerLampsRemaining ds" for idx ds
  proof (induction idx arbitrary: ds)
    case Nil
    show ?case by simp
  next
    case (Cons k idx)
    show ?case by (simp add: Cons.IH map_update_same)
  qed
  then show ?thesis
    by (simp add: commitMission_def Let_def runMission_def containerStock_def addLog_def)
qed

lemma stock_tryStartMission [simp]:
  "containerStock (snd (tryStartMission missionArg now s)) = containerStock s"
proof (cases missionArg)
  case None
  then show ?thesis by (simp add: tryStartMission_def)
next
  case (Some i)
  have flip: "containerStock (s\<lparr>drones := map (\<lambda>d. if battery d < 100
                      then moveDroneToDockIfAvailable (d\<lparr>droneStatus := Charging\<rparr>) s
                      else d) (drones s)\<rparr>) = containerStock s"
    by (simp add: containerStock_def)
  from Some show ?thesis
    by (simp add: tryStartMission_def Let_def flip del: length_0_conv)
qed

lemma stock_createMission [simp]:
  "containerStock (createMission route routes src now s) = containerStock s"
  by (simp add: createMission_def Let_def)

lemma stock_markLamp [simp]:
  "containerStock (snd (markLampForReplacement l now s)) = containerStock s"
  by (simp add: markLampForReplacement_def Let_def split: option.splits)

lemma stock_autoService [simp]:
  "containerStock (tryAutoServiceDispatch now s) = containerStock s"
  by (simp add: tryAutoServiceDispatch_def autoServiceDispatch_def Let_def split: option.splits)

lemma stock_commands:
  "containerStock (snd (failLamp l now s)) = containerStock s"
  "containerStock (snd (planMission requestedLampIds now s)) = containerStock s"
  "containerStock (snd (startMission missionIdArg now s)) = containerStock s"
  "containerStock (snd (setAutoService enabled now s)) = containerStock s"
proof -
  show "containerStock (snd (failLamp l now s)) = containerStock s"
    using stock_markLamp[of l now s]
    by (cases "markLampForReplacement l now s") (auto simp: failLamp_def split: option.splits)
  show "containerStock (snd (planMission requestedLampIds now s)) = containerStock s"
    by (simp add: planMission_def Let_def)
  show "containerStock (snd (startMission missionIdArg now s)) = containerStock s"
    using stock_tryStartMission[of "findMission missionIdArg s" now s]
    by (cases "tryStartMission (findMission missionIdArg s) now s")
       (auto simp: startMission_def split: option.splits)
  show "containerStock (snd (setAutoService enabled now s)) = containerStock s"
    by (simp add: setAutoService_def)
qed

text \<open>The forced replacement loads one container into every drone.\<close>

lemma stock_replaceAll:
  "containerStock (snd (replaceAllContainers now s)) = map (\<lambda>d. LAMPS_PER_CONTAINER) (drones s)"
  by (simp add: replaceAllContainers_def containerStock_def Let_def)

text \<open>
  The global tick changes the stock of a drone only when it completes the drone's dock
  service, and then to \<^verbatim>\<open>LAMPS_PER_CONTAINER\<close> times the pending container operations.
\<close>

lemma stock_tickDrone:
  "containerStock (tickDrone now k s) = containerStock s \<or>
   (droneStatus (drones s ! k) = Servicing \<and> pendingContainerOps (drones s ! k) > 0 \<and>
    containerStock (tickDrone now k s)
      = (containerStock s)[k := LAMPS_PER_CONTAINER * pendingContainerOps (drones s ! k)])"
proof (cases "droneStatus (drones s ! k) = Servicing")
  case False
  then show ?thesis
    by (simp add: tickDrone_def Let_def stock_setDrone_same)
next
  case True
  note serv = this
  let ?d = "drones s ! k"
  show ?thesis
  proof (cases "serviceEndsAt ?d")
    case None
    with serv show ?thesis by (simp add: tickDrone_def Let_def)
  next
    case (Some ends)
    show ?thesis
    proof (cases "ends \<noteq> 0 \<and> now \<ge> ends")
      case False
      then have "tickDrone now k s = s"
        using serv Some by (auto simp: tickDrone_def Let_def)
      then show ?thesis by simp
    next
      case True
      note due = this
      show ?thesis
      proof (cases "getActiveDockIndex ?d s")
        case None
        with serv Some due show ?thesis
          by (simp add: tickDrone_def Let_def stock_setDrone_same)
      next
        case (Some di)
        note dock = this
        show ?thesis
        proof (cases "pendingContainerOps ?d > 0")
          case False
          with serv \<open>serviceEndsAt ?d = Some ends\<close> due dock show ?thesis
            by (simp add: tickDrone_def Let_def stock_setDrone_same)
        next
          case True
          with serv \<open>serviceEndsAt ?d = Some ends\<close> due dock
          have "containerStock (tickDrone now k s)
                  = (containerStock s)[k := LAMPS_PER_CONTAINER * pendingContainerOps ?d]"
            by (simp add: tickDrone_def Let_def setDrone_def containerStock_def addLog_def
                  map_update map_update_read)
          with serv True show ?thesis by blast
        qed
      qed
    qed
  qed
qed

definition stockResets :: "int list \<Rightarrow> int list \<Rightarrow> bool" where
  "stockResets before after =
     (length before \<le> length after \<and>
      (\<forall>k < length after.
         (k < length before \<and> after ! k = before ! k) \<or>
         (\<exists>n > 0. after ! k = LAMPS_PER_CONTAINER * n)))"

lemma stockResets_refl [simp]: "stockResets a a"
  by (simp add: stockResets_def)

lemma stockResets_trans:
  assumes "stockResets a b" and "stockResets b c"
  shows "stockResets a c"
  unfolding stockResets_def
proof (intro conjI allI impI)
  from assms show "length a \<le> length c" by (simp add: stockResets_def)
next
  fix k assume k: "k < length c"
  with assms(2) consider "k < length b" "c ! k = b ! k" | "\<exists>n > 0. c ! k = LAMPS_PER_CONTAINER * n"
    unfolding stockResets_def by blast
  then show "(k < length a \<and> c ! k = a ! k) \<or> (\<exists>n > 0. c ! k = LAMPS_PER_CONTAINER * n)"
  proof cases
    case 1
    with assms(1) show ?thesis unfolding stockResets_def by metis
  next
    case 2
    then show ?thesis by blast
  qed
qed

lemma stockResets_one: "n > 0 \<Longrightarrow> stockResets a (a[k := LAMPS_PER_CONTAINER * n])"
proof -
  assume n: "n > 0"
  have "(j < length a \<and> a[k := LAMPS_PER_CONTAINER * n] ! j = a ! j) \<or>
        (\<exists>m > 0. a[k := LAMPS_PER_CONTAINER * n] ! j = LAMPS_PER_CONTAINER * m)"
    if "j < length a" for j
    using that n by (cases "j = k") auto
  then show ?thesis by (simp add: stockResets_def)
qed

lemma stockResets_append: "stockResets a (a @ replicate m LAMPS_PER_CONTAINER)"
proof -
  have "(j < length a \<and> (a @ replicate m LAMPS_PER_CONTAINER) ! j = a ! j) \<or>
        (\<exists>n > 0. (a @ replicate m LAMPS_PER_CONTAINER) ! j = LAMPS_PER_CONTAINER * n)"
    if "j < length a + m" for j
  proof (cases "j < length a")
    case True
    then show ?thesis by (simp add: nth_append)
  next
    case False
    with that have "(a @ replicate m LAMPS_PER_CONTAINER) ! j = LAMPS_PER_CONTAINER * 1"
      by (simp add: nth_append)
    then show ?thesis by (metis zero_less_one)
  qed
  then show ?thesis by (simp add: stockResets_def)
qed

lemma stockResets_tickDrone: "stockResets (containerStock s) (containerStock (tickDrone now k s))"
  using stock_tickDrone[of now k s] stockResets_one[of "pendingContainerOps (drones s ! k)" "containerStock s" k]
  by auto

lemma stockResets_fold_tickDrone:
  "stockResets (containerStock s) (containerStock (fold (tickDrone now) idx s))"
proof (induction idx arbitrary: s)
  case Nil
  show ?case by simp
next
  case (Cons k idx)
  from stockResets_tickDrone[of s now k] Cons.IH[of "tickDrone now k s"]
  show ?case by (simp add: stockResets_trans)
qed

lemma stock_coverDock:
  "\<exists>m. containerStock (coverDock now index s) = containerStock s @ replicate m LAMPS_PER_CONTAINER"
proof (cases "find (\<lambda>d. boundDockId d = Some (dockId (docks s ! index))) (drones s)")
  case None
  then have "containerStock (coverDock now index s) = containerStock s @ replicate 1 LAMPS_PER_CONTAINER"
    by (simp add: coverDock_def Let_def containerStock_def createDroneForDock_def)
  then show ?thesis by blast
next
  case (Some d)
  then have "containerStock (coverDock now index s) = containerStock s @ replicate 0 LAMPS_PER_CONTAINER"
    by (simp add: coverDock_def Let_def)
  then show ?thesis by blast
qed

lemma stock_fold_coverDock:
  "\<exists>m. containerStock (fold (coverDock now) idx s) = containerStock s @ replicate m LAMPS_PER_CONTAINER"
proof (induction idx arbitrary: s)
  case Nil
  have "containerStock s = containerStock s @ replicate 0 LAMPS_PER_CONTAINER" by simp
  then show ?case by (simp only: fold_simps id_apply) blast
next
  case (Cons index idx)
  from stock_coverDock[of now index s] obtain m1 where
    m1: "containerStock (coverDock now index s) = containerStock s @ replicate m1 LAMPS_PER_CONTAINER"
    by blast
  from Cons.IH[of "coverDock now index s"] obtain m2 where
    m2: "containerStock (fold (coverDock now) idx (coverDock now index s))
           = containerStock (coverDock now index s) @ replicate m2 LAMPS_PER_CONTAINER"
    by blast
  have "containerStock (fold (coverDock now) (index # idx) s)
          = containerStock s @ replicate (m1 + m2) LAMPS_PER_CONTAINER"
    by (simp add: m1 m2 replicate_add)
  then show ?case by blast
qed

lemma stockResets_ensure:
  "stockResets (containerStock s) (containerStock (ensureDroneCoverageForAllDocks now s))"
proof -
  let ?s1 = "fold (coverDock now) [0..<length (docks s)] s"
  have "containerStock (ensureDroneCoverageForAllDocks now s) = containerStock ?s1"
    by (simp add: ensureDroneCoverageForAllDocks_def Let_def containerStock_def)
  with stock_fold_coverDock[of now "[0..<length (docks s)]" s] stockResets_append[of "containerStock s"]
  show ?thesis by auto
qed

lemma stock_refill [simp]: "containerStock (refillDocks now s) = containerStock s"
  by (simp add: refillDocks_def)

lemma stockResets_globalTick:
  "stockResets (containerStock s) (containerStock (globalTick now s))"
proof -
  let ?s1 = "ensureDroneCoverageForAllDocks now s"
  let ?s2 = "refillDocks now ?s1"
  have "stockResets (containerStock s) (containerStock ?s2)"
    using stockResets_ensure[of s now] by simp
  from this stockResets_fold_tickDrone[of ?s2 now "[0..<length (drones ?s2)]"]
  show ?thesis by (simp add: globalTick_def Let_def stockResets_trans)
qed


text \<open>
  Every event, then: a mission tick only lowers stocks, the global tick and the forced
  replacement only load whole containers, and nothing else changes a stock. So no stock is
  ever negative.
\<close>

lemma containerStock_step:
  "(case e of
      MissionTick r now energyRnd drainRnd \<Rightarrow>
        stockDrops (containerStock s) (containerStock (step e s))
    | GlobalTick now \<Rightarrow> stockResets (containerStock s) (containerStock (step e s))
    | ReplaceAllContainers now \<Rightarrow>
        containerStock (step e s) = map (\<lambda>d. LAMPS_PER_CONTAINER) (drones s)
    | FailLamp lampIdArg now \<Rightarrow> containerStock (step e s) = containerStock s
    | PlanMission requestedLampIds now \<Rightarrow> containerStock (step e s) = containerStock s
    | StartMission missionIdArg now \<Rightarrow> containerStock (step e s) = containerStock s
    | SetAutoService enabled now \<Rightarrow> containerStock (step e s) = containerStock s)"
  by (cases e)
     (simp_all add: stock_commands stock_replaceAll stockDrops_missionTick stockResets_globalTick)

definition stockNonNegative :: "state \<Rightarrow> bool" where
  "stockNonNegative s = list_all (\<lambda>c. 0 \<le> c) (containerStock s)"

lemma stockDrops_nonneg:
  assumes "stockDrops a b" and "list_all (\<lambda>c. 0 \<le> c) a"
  shows "list_all (\<lambda>c. 0 \<le> c) b"
  using assms unfolding stockDrops_def list_all_length by simp

lemma stockResets_nonneg:
  assumes "stockResets a b" and "list_all (\<lambda>c. 0 \<le> c) a"
  shows "list_all (\<lambda>c. 0 \<le> c) b"
  unfolding list_all_length
proof (intro allI impI)
  fix k assume k: "k < length b"
  with assms(1) consider "k < length a" "b ! k = a ! k" | "\<exists>n > 0. b ! k = LAMPS_PER_CONTAINER * n"
    unfolding stockResets_def by blast
  then show "0 \<le> b ! k"
  proof cases
    case 1
    with assms(2) show ?thesis by (simp add: list_all_length)
  next
    case 2
    then show ?thesis by (auto simp: LAMPS_PER_CONTAINER_def)
  qed
qed

lemma stockNonNegative_step:
  assumes "stockNonNegative s"
  shows "stockNonNegative (step e s)"
proof (cases e)
  case (MissionTick r now energyRnd drainRnd)
  with stockDrops_missionTick[of s r now energyRnd drainRnd] assms show ?thesis
    by (simp add: stockNonNegative_def stockDrops_nonneg)
next
  case (GlobalTick now)
  with stockResets_globalTick[of s now] assms show ?thesis
    by (simp add: stockNonNegative_def stockResets_nonneg)
next
  case (ReplaceAllContainers now)
  then show ?thesis
    by (simp add: stockNonNegative_def stock_replaceAll list_all_length LAMPS_PER_CONTAINER_def)
qed (use assms in \<open>simp_all add: stockNonNegative_def stock_commands\<close>)

text \<open>
  The service completion keeps a stock within one container as long as the drone has at most
  one pending container operation.
\<close>

lemma within_stock:
  "containerWithinCapacity s
     = list_all (\<lambda>c. 0 \<le> c \<and> c \<le> LAMPS_PER_CONTAINER) (containerStock s)"
  by (simp add: containerWithinCapacity_def containerStock_def list_all_length)

lemma tickDrone_within_capacity:
  assumes "containerWithinCapacity s" and "pendingContainerOps (drones s ! k) \<le> 1"
  shows "containerWithinCapacity (tickDrone now k s)"
proof -
  from stock_tickDrone[of now k s] show ?thesis
  proof
    assume "containerStock (tickDrone now k s) = containerStock s"
    with assms(1) show ?thesis by (simp add: within_stock)
  next
    assume a: "droneStatus (drones s ! k) = Servicing \<and> pendingContainerOps (drones s ! k) > 0 \<and>
      containerStock (tickDrone now k s)
        = (containerStock s)[k := LAMPS_PER_CONTAINER * pendingContainerOps (drones s ! k)]"
    with assms(2) have "pendingContainerOps (drones s ! k) = 1" by simp
    with a have eq: "containerStock (tickDrone now k s) = (containerStock s)[k := LAMPS_PER_CONTAINER]"
      by simp
    have "0 \<le> (containerStock s)[k := LAMPS_PER_CONTAINER] ! j \<and>
          (containerStock s)[k := LAMPS_PER_CONTAINER] ! j \<le> LAMPS_PER_CONTAINER"
      if "j < length (containerStock s)" for j
      using that assms(1)
      by (cases "j = k") (simp_all add: within_stock list_all_length LAMPS_PER_CONTAINER_def)
    then show ?thesis unfolding within_stock eq by (simp add: list_all_length)
  qed
qed


subsection \<open>A drone that works for two missions\<close>

text \<open>
  One dock with its drone (full container, full battery) and six failed lamps. The first
  mission holds five lamps, the second the sixth. The drone replaces four lamps for the
  first mission; then the second mission is started twice: the first start fails (no ready
  drone) and sets the flying drone to \<^verbatim>\<open>charging\<close>, so that the second start takes it.
  Both intervals now drive the same drone, in the order their timers fire.
\<close>

definition exSixLampState :: state where
  "exSixLampState =
     exState [exDrone ''drone-01'']
       [exLamp 101 0 Replace, exLamp 102 0 Replace, exLamp 103 0 Replace,
        exLamp 104 0 Replace, exLamp 105 0 Replace, exLamp 106 0 Replace] []"

definition exOverfillRoutine :: "event list" where
  "exOverfillRoutine =
     [PlanMission [101, 102, 103, 104, 105] 1000,
      PlanMission [106] 1010,
      StartMission 1000 1100,
      MissionTick 0 1350 (\<lambda>n. 6) (\<lambda>n. 1),
      MissionTick 0 1600 (\<lambda>n. 6) (\<lambda>n. 1),
      MissionTick 0 3600 (\<lambda>n. 6) (\<lambda>n. 1),
      MissionTick 0 3850 (\<lambda>n. 6) (\<lambda>n. 1),
      MissionTick 0 4100 (\<lambda>n. 6) (\<lambda>n. 1),
      MissionTick 0 6100 (\<lambda>n. 6) (\<lambda>n. 1),
      MissionTick 0 6350 (\<lambda>n. 6) (\<lambda>n. 1),
      MissionTick 0 6600 (\<lambda>n. 6) (\<lambda>n. 1),
      MissionTick 0 8600 (\<lambda>n. 6) (\<lambda>n. 1),
      MissionTick 0 8850 (\<lambda>n. 6) (\<lambda>n. 1),
      MissionTick 0 9100 (\<lambda>n. 6) (\<lambda>n. 1),
      MissionTick 0 11100 (\<lambda>n. 6) (\<lambda>n. 1)]"

definition exOverfillDouble :: "event list" where
  "exOverfillDouble =
     [StartMission 1010 11150,
      StartMission 1010 11200,
      MissionTick 0 11350 (\<lambda>n. 6) (\<lambda>n. 1),
      MissionTick 1 11450 (\<lambda>n. 6) (\<lambda>n. 1),
      MissionTick 0 11600 (\<lambda>n. 6) (\<lambda>n. 1),
      MissionTick 1 11700 (\<lambda>n. 6) (\<lambda>n. 1),
      MissionTick 0 11850 (\<lambda>n. 6) (\<lambda>n. 1),
      MissionTick 1 11950 (\<lambda>n. 6) (\<lambda>n. 1),
      MissionTick 0 12100 (\<lambda>n. 6) (\<lambda>n. 1)]"

definition exOverfillTrace :: "event list" where
  "exOverfillTrace = exOverfillRoutine @ exOverfillDouble @ [GlobalTick 43000]"

definition exAfterRoutine :: state where
  "exAfterRoutine = fold step exOverfillRoutine exSixLampState"

definition exBeforeService :: state where
  "exBeforeService = fold step exOverfillDouble exAfterRoutine"

lemma exAfterRoutine_state:
  "exAfterRoutine =
     \<lparr>autoServiceEnabled = False,
      docks = [\<lparr>lat = 0, lng = 0, dockId = ''D-1'', fullContainers = 14,
           emptyContainers = 4, containerSwapStatus = NotReplaced, containerSwapUpdatedAt = None,
           lastSwapCompletedAt = None\<rparr>],
      drones = [\<lparr>droneId = ''drone-01'', battery = 80, isOperational = True,
           droneStatus = Enroute, targetLampId = None, pendingContainerOps = 0,
           containerLampsRemaining = 1, serviceEndsAt = None, homeDockId = Some ''D-1'',
           activeDockId = Some ''D-1'', position = \<lparr>lat = 0, lng = 0\<rparr>\<rparr>],
      lamps = [\<lparr>lat = 0, lng = 0, lampId = 101, lampStatus = Ok, powerOn = True,
           cassettePresent = True, energyW = 106\<rparr>,
         \<lparr>lat = 0, lng = 0, lampId = 102, lampStatus = Ok, powerOn = True,
           cassettePresent = True, energyW = 106\<rparr>,
         \<lparr>lat = 0, lng = 0, lampId = 103, lampStatus = Ok, powerOn = True,
           cassettePresent = True, energyW = 106\<rparr>,
         \<lparr>lat = 0, lng = 0, lampId = 104, lampStatus = Ok, powerOn = True,
           cassettePresent = True, energyW = 106\<rparr>,
         \<lparr>lat = 0, lng = 0, lampId = 105, lampStatus = Replace, powerOn = False,
           cassettePresent = True, energyW = 0\<rparr>,
         \<lparr>lat = 0, lng = 0, lampId = 106, lampStatus = Replace, powerOn = False,
           cassettePresent = True, energyW = 0\<rparr>],
      missions = [\<lparr>missionId = 1010, createdAt = 1010, startedAt = None, finishedAt = None,
           missionStatus = Planned, source = Manual, droneRoutes = [(''drone-01'', [106])],
           routeLampIds = [106], completedLampIds = []\<rparr>,
         \<lparr>missionId = 1000, createdAt = 1000, startedAt = Some 1100, finishedAt = None,
           missionStatus = Running, source = Manual, droneRoutes = [(''drone-01'', [101, 102, 103,
           104, 105])], routeLampIds = [101, 102, 103, 104, 105], completedLampIds = [101, 102,
           103, 104]\<rparr>],
      logs = [\<lparr>logType = ''mission'', message = MissionCreated 1000,
           timestamp = 1000\<rparr>,
         \<lparr>logType = ''mission'', message = MissionCreated 1010, timestamp = 1010\<rparr>,
         \<lparr>logType = ''mission'', message = MissionStarted 1000, timestamp = 1100\<rparr>,
         \<lparr>logType = ''replace'', message = ReplacementBegun ''drone-01'' 101,
           timestamp = 1600\<rparr>,
         \<lparr>logType = ''replace'', message = ReplacementDone ''drone-01'' 101,
           timestamp = 3600\<rparr>,
         \<lparr>logType = ''replace'', message = ReplacementBegun ''drone-01'' 102,
           timestamp = 4100\<rparr>,
         \<lparr>logType = ''replace'', message = ReplacementDone ''drone-01'' 102,
           timestamp = 6100\<rparr>,
         \<lparr>logType = ''replace'', message = ReplacementBegun ''drone-01'' 103,
           timestamp = 6600\<rparr>,
         \<lparr>logType = ''replace'', message = ReplacementDone ''drone-01'' 103,
           timestamp = 8600\<rparr>,
         \<lparr>logType = ''replace'', message = ReplacementBegun ''drone-01'' 104,
           timestamp = 9100\<rparr>,
         \<lparr>logType = ''replace'', message = ReplacementDone ''drone-01'' 104,
           timestamp = 11100\<rparr>],
      lastAutoDispatchAt = 0, lastDockRefillAt = 0,
      autoServiceProgress = map (\<lambda>(key, plan). (key, 0)) AUTO_SERVICE_PLAN,
      runs = [\<lparr>runMissionRef = 0, workers = [\<lparr>workerDrone = 0, queue = [105],
           workerTarget = None, replaceStartedAt = 9100, replacedCount = 4, returning = False,
           completed = False\<rparr>], intervalActive = True\<rparr>],
      activeMissionTimers = [(1000, 0)], engine = exactArithmetic\<rparr>"
  using kmPerDegree_pos
  by (simp add: exAfterRoutine_def exOverfillRoutine_def exSixLampState_def evalDefs startDefs
        tickDefs cmdDefs Let_def permutations.simps geoDistance_meridian)

lemma exBeforeService_state:
  "exBeforeService =
     \<lparr>autoServiceEnabled = False,
      docks = [\<lparr>lat = 0, lng = 0, dockId = ''D-1'', fullContainers = 14,
           emptyContainers = 4, containerSwapStatus = SwapInProgress,
           containerSwapUpdatedAt = Some 12100, lastSwapCompletedAt = None\<rparr>],
      drones = [\<lparr>droneId = ''drone-01'', battery = 75, isOperational = True,
           droneStatus = Servicing, targetLampId = None, pendingContainerOps = 2,
           containerLampsRemaining = 0, serviceEndsAt = Some 42100, homeDockId = Some ''D-1'',
           activeDockId = Some ''D-1'', position = \<lparr>lat = 0, lng = 0\<rparr>\<rparr>],
      lamps = [\<lparr>lat = 0, lng = 0, lampId = 101, lampStatus = Ok, powerOn = True,
           cassettePresent = True, energyW = 106\<rparr>,
         \<lparr>lat = 0, lng = 0, lampId = 102, lampStatus = Ok, powerOn = True,
           cassettePresent = True, energyW = 106\<rparr>,
         \<lparr>lat = 0, lng = 0, lampId = 103, lampStatus = Ok, powerOn = True,
           cassettePresent = True, energyW = 106\<rparr>,
         \<lparr>lat = 0, lng = 0, lampId = 104, lampStatus = Ok, powerOn = True,
           cassettePresent = True, energyW = 106\<rparr>,
         \<lparr>lat = 0, lng = 0, lampId = 105, lampStatus = InProgress, powerOn = False,
           cassettePresent = True, energyW = 0\<rparr>,
         \<lparr>lat = 0, lng = 0, lampId = 106, lampStatus = Ok, powerOn = True,
           cassettePresent = True, energyW = 106\<rparr>],
      missions = [\<lparr>missionId = 1010, createdAt = 1010, startedAt = Some 11200,
           finishedAt = Some 11950, missionStatus = Completed, source = Manual,
           droneRoutes = [(''drone-01'', [106])], routeLampIds = [106],
           completedLampIds = [106]\<rparr>,
         \<lparr>missionId = 1000, createdAt = 1000, startedAt = Some 1100,
           finishedAt = Some 12100, missionStatus = Completed, source = Manual,
           droneRoutes = [(''drone-01'', [101, 102, 103, 104, 105])], routeLampIds = [101, 102,
           103, 104, 105], completedLampIds = [101, 102, 103, 104]\<rparr>],
      logs = [\<lparr>logType = ''mission'', message = MissionCreated 1000,
           timestamp = 1000\<rparr>,
         \<lparr>logType = ''mission'', message = MissionCreated 1010, timestamp = 1010\<rparr>,
         \<lparr>logType = ''mission'', message = MissionStarted 1000, timestamp = 1100\<rparr>,
         \<lparr>logType = ''replace'', message = ReplacementBegun ''drone-01'' 101,
           timestamp = 1600\<rparr>,
         \<lparr>logType = ''replace'', message = ReplacementDone ''drone-01'' 101,
           timestamp = 3600\<rparr>,
         \<lparr>logType = ''replace'', message = ReplacementBegun ''drone-01'' 102,
           timestamp = 4100\<rparr>,
         \<lparr>logType = ''replace'', message = ReplacementDone ''drone-01'' 102,
           timestamp = 6100\<rparr>,
         \<lparr>logType = ''replace'', message = ReplacementBegun ''drone-01'' 103,
           timestamp = 6600\<rparr>,
         \<lparr>logType = ''replace'', message = ReplacementDone ''drone-01'' 103,
           timestamp = 8600\<rparr>,
         \<lparr>logType = ''replace'', message = ReplacementBegun ''drone-01'' 104,
           timestamp = 9100\<rparr>,
         \<lparr>logType = ''replace'', message = ReplacementDone ''drone-01'' 104,
           timestamp = 11100\<rparr>,
         \<lparr>logType = ''error'', message = StartFailed 1010, timestamp = 11150\<rparr>,
         \<lparr>logType = ''mission'', message = MissionStarted 1010, timestamp = 11200\<rparr>,
         \<lparr>logType = ''replace'', message = ReplacementBegun ''drone-01'' 105,
           timestamp = 11600\<rparr>,
         \<lparr>logType = ''replace'', message = ReplacementDone ''drone-01'' 106,
           timestamp = 11700\<rparr>,
         \<lparr>logType = ''replace'', message = LampSkipped ''drone-01'' 105,
           timestamp = 11850\<rparr>,
         \<lparr>logType = ''dock'', message = DockServiceBegun ''drone-01'',
           timestamp = 11950\<rparr>,
         \<lparr>logType = ''mission'', message = MissionFinished 1010, timestamp = 11950\<rparr>,
         \<lparr>logType = ''dock'', message = DockServiceBegun ''drone-01'',
           timestamp = 12100\<rparr>,
         \<lparr>logType = ''mission'', message = MissionFinished 1000, timestamp = 12100\<rparr>],
      lastAutoDispatchAt = 0, lastDockRefillAt = 0,
      autoServiceProgress = map (\<lambda>(key, plan). (key, 0)) AUTO_SERVICE_PLAN,
      runs = [\<lparr>runMissionRef = 0, workers = [\<lparr>workerDrone = 0, queue = [],
           workerTarget = None, replaceStartedAt = 11600, replacedCount = 0, returning = True,
           completed = True\<rparr>], intervalActive = False\<rparr>,
         \<lparr>runMissionRef = 1, workers = [\<lparr>workerDrone = 0, queue = [],
           workerTarget = None, replaceStartedAt = 0, replacedCount = 0, returning = True,
           completed = True\<rparr>], intervalActive = False\<rparr>],
      activeMissionTimers = [], engine = exactArithmetic\<rparr>"
  unfolding exBeforeService_def exAfterRoutine_state
  by (simp add: exOverfillDouble_def evalDefs startDefs tickDefs cmdDefs Let_def
        permutations.simps geoDistance_meridian)

lemma exOverfill_final:
  "map containerLampsRemaining (drones (step (GlobalTick 43000) exBeforeService)) = [10] \<and>
   map pendingContainerOps (drones (step (GlobalTick 43000) exBeforeService)) = [0] \<and>
   map droneStatus (drones (step (GlobalTick 43000) exBeforeService)) = [Charging]"
  unfolding exBeforeService_state
  by (simp add: globalTick_def ensureDroneCoverageForAllDocks_def coverDock_def refillDocks_def
        tickDrone_def tryAutoServiceDispatch_def autoServiceDispatch_def enforceDroneDockBinding_def
        DOCK_REFILL_INTERVAL_MS_def DOCK_REFILL_UNITS_def DOCK_REFILL_PAUSE_AFTER_SWAP_MS_def
        CHARGE_RATE_PER_TICK_def evalDefs startDefs tickDefs cmdDefs Let_def)


text \<open>
  Claim C3 says that \<^verbatim>\<open>containerLampsRemaining\<close> stays within 0 and
  \<^verbatim>\<open>LAMPS_PER_CONTAINER\<close> at every tick. On the trace above the drone works for two
  running missions at once. It comes back to the dock with an empty container once for
  each of them, and each return adds one to \<^verbatim>\<open>pendingContainerOps\<close>; the global tick
  that completes the service then loads \<^verbatim>\<open>LAMPS_PER_CONTAINER * 2\<close> lamps.
\<close>

theorem double_booked_drone_overfills_container:
  "LAMPS_PER_CONTAINER = 5 \<and>
   containerWithinCapacity exSixLampState \<and>
   containerWithinCapacity exAfterRoutine \<and>
   map (\<lambda>r. map workerDrone (workers r)) (runs exBeforeService) = [[0], [0]] \<and>
   map containerLampsRemaining (drones exBeforeService) = [0] \<and>
   map pendingContainerOps (drones exBeforeService) = [2] \<and>
   map containerLampsRemaining (drones (fold step exOverfillTrace exSixLampState)) = [10] \<and>
   \<not> containerWithinCapacity (fold step exOverfillTrace exSixLampState)"
proof -
  have f: "fold step exOverfillTrace exSixLampState = step (GlobalTick 43000) exBeforeService"
    by (simp only: exOverfillTrace_def fold_append comp_apply exAfterRoutine_def[symmetric]
          exBeforeService_def[symmetric] fold_simps)
  have a: "containerWithinCapacity exSixLampState"
    by (simp add: containerWithinCapacity_def exSixLampState_def exState_def exDrone_def
          LAMPS_PER_CONTAINER_def)
  have b: "containerWithinCapacity exAfterRoutine"
    unfolding exAfterRoutine_state by (simp add: containerWithinCapacity_def LAMPS_PER_CONTAINER_def)
  have c: "map (\<lambda>r. map workerDrone (workers r)) (runs exBeforeService) = [[0], [0]] \<and>
           map containerLampsRemaining (drones exBeforeService) = [0] \<and>
           map pendingContainerOps (drones exBeforeService) = [2]"
    unfolding exBeforeService_state by simp
  have d: "\<not> containerWithinCapacity (step (GlobalTick 43000) exBeforeService)"
    using exOverfill_final
    by (cases "drones (step (GlobalTick 43000) exBeforeService)")
       (simp_all add: containerWithinCapacity_def LAMPS_PER_CONTAINER_def)
  from a b c d exOverfill_final show ?thesis
    unfolding f by (simp add: LAMPS_PER_CONTAINER_def)
qed

end
